(* ===== verification/Prelude.thy ===== *)
theory Prelude
  imports
    "HOL-Library.Word"
    "HOL-Library.Multiset"
    "HOL-Library.AList"
    "HOL-Library.Char_ord"
    "HOL-Library.List_Lexorder"
    "HOL-Library.Sublist"
begin

text \<open>
  Shared vocabulary of the development: names for Rust's machine integers and byte
  strings, decimal and hexadecimal rendering and parsing as Rust's \<^verbatim>\<open>Display\<close> and
  \<^verbatim>\<open>FromStr\<close> do it, hash maps as association lists with distinct keys, the
  ``seen set'' deduplication loop that several components use, and the generic lemmas on
  them. The collections \<open>codec_simps\<close>, \<open>map_laws\<close> and \<open>dedup_laws\<close>
  carry the component proofs.
\<close>

named_theorems codec_simps "rendering and parsing of numbers"
named_theorems map_laws "association lists used as hash maps"
named_theorems dedup_laws "first-occurrence filtering"

type_synonym u8 = "8 word"
type_synonym u16 = "16 word"
type_synonym u32 = "32 word"
type_synonym u64 = "64 word"
type_synonym u128 = "128 word"
type_synonym i64 = int
type_synonym bytes = "u8 list"
type_synonym ('k, 'v) hmap = "('k \<times> 'v) list"

text \<open>A Rust \<^verbatim>\<open>String\<close> is its UTF-8 bytes, and an Isabelle \<^typ>\<open>char\<close> is one byte.\<close>

definition as_bytes :: "string \<Rightarrow> bytes" where
  "as_bytes s = map (\<lambda>c. word_of_nat (of_char c)) s"

definition to_le_bytes :: "nat \<Rightarrow> 'a::len word \<Rightarrow> bytes" where
  "to_le_bytes n w = map (\<lambda>i. ucast (drop_bit (8 * i) w)) [0..<n]"

text \<open>\<^verbatim>\<open>i64::to_le_bytes\<close> on the two's complement representation.\<close>

definition i64_le_bytes :: "i64 \<Rightarrow> bytes" where
  "i64_le_bytes i = to_le_bytes 8 (word_of_int i :: u64)"

text \<open>Signed addition wraps in two's complement.\<close>

definition wrap_i64 :: "int \<Rightarrow> i64" where
  "wrap_i64 i = signed_take_bit 63 i"

subsection \<open>Numbers as text\<close>

definition digit_char :: "nat \<Rightarrow> char" where
  "digit_char d = char_of (if d < 10 then 48 + d else 87 + d)"

fun show_radix :: "nat \<Rightarrow> nat \<Rightarrow> string" where
  "show_radix b n =
     (if n < b \<or> b < 2 then [digit_char n] else show_radix b (n div b) @ [digit_char (n mod b)])"

abbreviation show_nat :: "nat \<Rightarrow> string" where
  "show_nat \<equiv> show_radix 10"

definition show_int :: "int \<Rightarrow> string" where
  "show_int i = (if i < 0 then CHR ''-'' # show_nat (nat (- i)) else show_nat (nat i))"

text \<open>\<^verbatim>\<open>hex::encode\<close> and the format \<^verbatim>\<open>{:x}\<close> of a digest.\<close>

definition hex_bytes :: "bytes \<Rightarrow> string" where
  "hex_bytes bs = concat (map (\<lambda>b. [digit_char (unat b div 16), digit_char (unat b mod 16)]) bs)"

text \<open>\<^verbatim>\<open>char::to_digit\<close>: upper and lower case letters are accepted.\<close>

definition to_digit :: "nat \<Rightarrow> char \<Rightarrow> nat option" where
  "to_digit b c =
     (let n = of_char c;
          d = (if 48 \<le> n \<and> n \<le> 57 then n - 48
               else if 97 \<le> n \<and> n \<le> 122 then n - 87
               else if 65 \<le> n \<and> n \<le> 90 then n - 55
               else b)
      in if d < b then Some d else None)"

definition is_digit :: "nat \<Rightarrow> char \<Rightarrow> bool" where
  "is_digit b c \<longleftrightarrow> to_digit b c \<noteq> None"

definition digits_val :: "nat \<Rightarrow> string \<Rightarrow> nat" where
  "digits_val b s = foldl (\<lambda>acc c. acc * b + (case to_digit b c of Some d \<Rightarrow> d | None \<Rightarrow> 0)) 0 s"

text \<open>\<^verbatim>\<open>str::parse::<uN>\<close>: an optional plus sign, at least one digit, no overflow.\<close>

definition parse_unsigned :: "nat \<Rightarrow> string \<Rightarrow> nat option" where
  "parse_unsigned bound s =
     (let ds = (case s of c # cs \<Rightarrow> if c = CHR ''+'' then cs else s | [] \<Rightarrow> s)
      in if ds \<noteq> [] \<and> list_all (is_digit 10) ds \<and> digits_val 10 ds < bound
         then Some (digits_val 10 ds) else None)"

definition parse_u64 :: "string \<Rightarrow> u64 option" where
  "parse_u64 s = map_option word_of_nat (parse_unsigned (2 ^ 64) s)"

text \<open>\<^verbatim>\<open>str::parse::<iN>\<close>: an optional sign, at least one digit, in range.\<close>

definition parse_signed :: "nat \<Rightarrow> string \<Rightarrow> int option" where
  "parse_signed bits s =
     (case s of
        [] \<Rightarrow> None
      | c # cs \<Rightarrow>
          if c = CHR ''-'' then
            (if cs \<noteq> [] \<and> list_all (is_digit 10) cs \<and> digits_val 10 cs \<le> 2 ^ (bits - 1)
             then Some (- int (digits_val 10 cs)) else None)
          else map_option int (parse_unsigned (2 ^ (bits - 1)) s))"

subsection \<open>Deduplication against a seen set\<close>

text \<open>
  The loop \<^verbatim>\<open>for x in xs { if !seen.contains(key(x)) { seen.insert(key(x)); out.push(x) } }\<close>
  of \<^verbatim>\<open>SeedsCommand::new\<close>, \<^verbatim>\<open>SeedSet::merge\<close> and \<^verbatim>\<open>load_all_seeds\<close>.
\<close>

fun dedup_by :: "('a \<Rightarrow> 'k) \<Rightarrow> 'k set \<Rightarrow> 'a list \<Rightarrow> 'a list" where
  "dedup_by f seen [] = []"
| "dedup_by f seen (x # xs) =
     (if f x \<in> seen then dedup_by f seen xs
      else x # dedup_by f (insert (f x) seen) xs)"

subsection \<open>Lemmas on text\<close>

lemma wrap_i64_id: "- (2 ^ 63) \<le> i \<Longrightarrow> i < 2 ^ 63 \<Longrightarrow> wrap_i64 i = i"
  unfolding wrap_i64_def by (rule signed_take_bit_int_eq_self) simp_all

declare show_radix.simps [simp del]

lemma as_bytes_append [simp]: "as_bytes (s @ t) = as_bytes s @ as_bytes t"
  by (simp add: as_bytes_def)

lemma as_bytes_Nil [simp]: "as_bytes [] = []"
  by (simp add: as_bytes_def)

lemma length_as_bytes [simp]: "length (as_bytes s) = length s"
  by (simp add: as_bytes_def)

lemma byte_of_char_inj: "word_of_nat (of_char c) = (word_of_nat (of_char d) :: u8) \<Longrightarrow> c = d"
proof -
  assume eq: "word_of_nat (of_char c) = (word_of_nat (of_char d) :: u8)"
  have b: "of_char x < (256::nat)" for x :: char
    by simp
  have "unat (word_of_nat (of_char c) :: u8) = unat (word_of_nat (of_char d) :: u8)"
    using eq by simp
  then have "of_char c = (of_char d :: nat)"
    using b [of c] b [of d] by (simp add: unat_of_nat)
  then show ?thesis by (simp add: of_char_eq_iff)
qed

lemma as_bytes_inj: "as_bytes s = as_bytes t \<longleftrightarrow> s = t"
proof
  assume "as_bytes s = as_bytes t"
  then show "s = t"
    unfolding as_bytes_def
    by (rule map_injective) (auto intro: injI byte_of_char_inj)
qed simp

lemma length_to_le_bytes [simp]: "length (to_le_bytes n w) = n"
  by (simp add: to_le_bytes_def)

lemma length_i64_le_bytes [simp]: "length (i64_le_bytes i) = 8"
  by (simp add: i64_le_bytes_def)

lemma to_digit_digit_char:
  assumes "d < b" "b \<le> 36"
  shows "to_digit b (digit_char d) = Some d"
  using assms by (auto simp: to_digit_def digit_char_def Let_def)

lemma is_digit_digit_char [codec_simps]: "d < b \<Longrightarrow> b \<le> 36 \<Longrightarrow> is_digit b (digit_char d)"
  by (simp add: is_digit_def to_digit_digit_char)

lemma digits_val_snoc: "digits_val b (s @ [c]) =
    digits_val b s * b + (case to_digit b c of Some d \<Rightarrow> d | None \<Rightarrow> 0)"
  by (simp add: digits_val_def)

lemma show_radix_not_Nil [simp]: "show_radix b n \<noteq> []"
  by (subst show_radix.simps) simp

lemma show_radix_digits:
  "2 \<le> b \<Longrightarrow> b \<le> 36 \<Longrightarrow> list_all (is_digit b) (show_radix b n)"
proof (induction b n rule: show_radix.induct)
  case (1 b n)
  show ?case
  proof (cases "n < b")
    case True
    then show ?thesis
      using "1.prems" by (subst show_radix.simps) (simp add: is_digit_digit_char)
  next
    case False
    then show ?thesis
      using 1 by (subst show_radix.simps) (simp add: is_digit_digit_char)
  qed
qed

lemma digits_val_show_radix [codec_simps]:
  "2 \<le> b \<Longrightarrow> b \<le> 36 \<Longrightarrow> digits_val b (show_radix b n) = n"
proof (induction b n rule: show_radix.induct)
  case (1 b n)
  show ?case
  proof (cases "n < b")
    case True
    then show ?thesis
      using "1.prems"
      by (subst show_radix.simps) (simp add: digits_val_def to_digit_digit_char)
  next
    case False
    then show ?thesis
      using 1
      by (subst show_radix.simps) (simp add: digits_val_snoc to_digit_digit_char)
  qed
qed

lemma show_radix_length:
  "2 \<le> b \<Longrightarrow> n < b ^ k \<Longrightarrow> 0 < k \<Longrightarrow> length (show_radix b n) \<le> k"
proof (induction b n arbitrary: k rule: show_radix.induct)
  case (1 b n)
  show ?case
  proof (cases "n < b")
    case True
    then show ?thesis
      using "1.prems" by (subst show_radix.simps) simp
  next
    case False
    then have k: "1 < k"
      using "1.prems" by (cases k; cases "k - 1") auto
    then obtain m where m: "k = Suc m" "0 < m" by (cases k) auto
    have "n div b < b ^ m"
      using "1.prems"(2) m by (simp add: less_mult_imp_div_less mult.commute)
    then show ?thesis
      using False 1 m by (subst show_radix.simps) simp
  qed
qed

lemma digit_char_eq_zero: "d < 10 \<Longrightarrow> digit_char d = CHR ''0'' \<longleftrightarrow> d = 0"
proof -
  assume d: "d < 10"
  have "to_digit 10 (CHR ''0'') = Some 0"
    by (simp add: to_digit_def)
  then have "digit_char d = CHR ''0'' \<Longrightarrow> d = 0"
    using to_digit_digit_char [of d 10] d by auto
  moreover have "digit_char 0 = CHR ''0''" by code_simp
  ultimately show ?thesis by auto
qed

text \<open>Rust renders without leading zeros.\<close>

lemma hd_show_nat_zero: "hd (show_nat n) = CHR ''0'' \<longleftrightarrow> n = 0"
proof (induction "10::nat" n rule: show_radix.induct)
  case (1 n)
  show ?case
  proof (cases "n < 10")
    case True
    then show ?thesis by (subst show_radix.simps) (simp add: digit_char_eq_zero)
  next
    case False
    then show ?thesis using 1 by (subst show_radix.simps) (auto simp: hd_append)
  qed
qed

lemma plus_not_digit: "\<not> is_digit 10 (CHR ''+'')"
  by (simp add: is_digit_def to_digit_def)

lemma minus_not_digit: "\<not> is_digit 10 (CHR ''-'')"
  by (simp add: is_digit_def to_digit_def)

lemma show_nat_hd_digit: "is_digit 10 (hd (show_nat n))"
  using show_radix_digits [of 10 n] by (cases "show_nat n") auto

lemma parse_unsigned_show [codec_simps]: "n < bound \<Longrightarrow> parse_unsigned bound (show_nat n) = Some n"
proof -
  assume n: "n < bound"
  obtain c cs where s: "show_nat n = c # cs" by (cases "show_nat n") auto
  have "c \<noteq> CHR ''+''"
    using show_nat_hd_digit [of n] plus_not_digit s by auto
  then show ?thesis
    using n s show_radix_digits [of 10 n] digits_val_show_radix [of 10 n]
    by (simp add: parse_unsigned_def)
qed

lemma parse_unsigned_bound: "parse_unsigned b s = Some n \<Longrightarrow> n < b"
  by (auto simp: parse_unsigned_def Let_def split: if_splits)

lemma parse_u64_show [codec_simps]: "parse_u64 (show_nat (unat w)) = Some w"
proof -
  have "unat w < 2 ^ LENGTH(64)"
    by (rule unsigned_less)
  then show ?thesis by (simp add: parse_u64_def parse_unsigned_show)
qed

subsection \<open>Lemmas on hash maps\<close>

text \<open>
  A hash map is an association list with distinct keys; the order of the list stands for
  the order in which one iteration visits it.
\<close>

abbreviation hkeys :: "('k, 'v) hmap \<Rightarrow> 'k list" where
  "hkeys m \<equiv> map fst m"

lemma map_of_update [map_laws]: "map_of (AList.update k v m) k' = (if k' = k then Some v else map_of m k')"
  by (simp add: update_conv)

lemma distinct_hkeys_update [map_laws]: "distinct (hkeys m) \<Longrightarrow> distinct (hkeys (AList.update k v m))"
  by (rule distinct_update)

lemma set_hkeys_update [map_laws]: "set (hkeys (AList.update k v m)) = insert k (set (hkeys m))"
  by (induction m) auto

lemma map_of_map_default [map_laws]:
  "map_of (AList.map_default k v f m) k' =
     (if k' = k then (case map_of m k of None \<Rightarrow> Some v | Some w \<Rightarrow> Some (f w)) else map_of m k')"
  by (induction m) auto

lemma set_hkeys_map_default [map_laws]:
  "set (hkeys (AList.map_default k v f m)) = insert k (set (hkeys m))"
  by (induction m) auto

lemma distinct_hkeys_map_default [map_laws]:
  "distinct (hkeys m) \<Longrightarrow> distinct (hkeys (AList.map_default k v f m))"
proof (induction m)
  case (Cons p m)
  then show ?case
    using set_hkeys_map_default [of k v f m] by (auto simp del: set_map)
qed simp

subsection \<open>Lemmas on deduplication\<close>

lemma dedup_by_set [dedup_laws]: "set (dedup_by f seen xs) \<subseteq> set xs"
  by (induction f seen xs rule: dedup_by.induct) auto

lemma dedup_by_keys [dedup_laws]:
  "f ` set (dedup_by f seen xs) = f ` set xs - seen"
  by (induction f seen xs rule: dedup_by.induct) auto

lemma dedup_by_distinct [dedup_laws]: "distinct (map f (dedup_by f seen xs))"
proof (induction f seen xs rule: dedup_by.induct)
  case (2 f seen x xs)
  have "f x \<notin> f ` set (dedup_by f (insert (f x) seen) xs)"
    by (simp add: dedup_by_keys)
  then show ?case using 2 by auto
qed simp

lemma dedup_by_subseq [dedup_laws]: "subseq (dedup_by f seen xs) xs"
  by (induction f seen xs rule: dedup_by.induct) auto

lemma dedup_by_id [dedup_laws]:
  "distinct (map f xs) \<Longrightarrow> f ` set xs \<inter> seen = {} \<Longrightarrow> dedup_by f seen xs = xs"
  by (induction f seen xs rule: dedup_by.induct) auto

lemma dedup_by_length: "length (dedup_by f seen xs) \<le> length xs"
  by (rule list_emb_length [OF dedup_by_subseq])

text \<open>The occurrence that survives is the first one with its key.\<close>

lemma dedup_by_first: "x \<in> set (dedup_by f seen xs) \<Longrightarrow> find (\<lambda>y. f y = f x) xs = Some x"
proof (induction f seen xs rule: dedup_by.induct)
  case (2 f seen y xs)
  show ?case
  proof (cases "f y \<in> seen")
    case True
    then have mem: "x \<in> set (dedup_by f seen xs)" using "2.prems" by simp
    then have "f x \<in> f ` set (dedup_by f seen xs)" by simp
    then have "f x \<notin> seen" by (simp add: dedup_by_keys)
    with True have "f y \<noteq> f x" by auto
    then show ?thesis using 2 True mem by simp
  next
    case False
    show ?thesis
    proof (cases "x = y")
      case True
      then show ?thesis by simp
    next
      case neq: False
      then have mem: "x \<in> set (dedup_by f (insert (f y) seen) xs)"
        using "2.prems" False by simp
      then have "f x \<in> f ` set (dedup_by f (insert (f y) seen) xs)" by simp
      then have "f y \<noteq> f x" by (auto simp: dedup_by_keys)
      then show ?thesis using 2 False mem by simp
    qed
  qed
qed simp

subsection \<open>Largest element by key\<close>

text \<open>\<^verbatim>\<open>Iterator::max_by_key\<close>: of several largest elements the last one.\<close>

definition max_by_key :: "('a \<Rightarrow> 'k::linorder) \<Rightarrow> 'a list \<Rightarrow> 'a option" where
  "max_by_key f xs =
     fold (\<lambda>x acc. case acc of None \<Rightarrow> Some x | Some y \<Rightarrow> if f y \<le> f x then Some x else Some y) xs None"

lemma max_by_key_snoc:
  "max_by_key f (xs @ [x]) =
     (case max_by_key f xs of None \<Rightarrow> Some x | Some y \<Rightarrow> if f y \<le> f x then Some x else Some y)"
  by (simp add: max_by_key_def)

lemma max_by_key_Nil [simp]: "max_by_key f [] = None"
  by (simp add: max_by_key_def)

lemma max_by_key_None [simp]: "max_by_key f xs = None \<longleftrightarrow> xs = []"
proof (cases xs rule: rev_cases)
  case Nil
  then show ?thesis by (simp add: max_by_key_def)
next
  case (snoc ys y)
  then show ?thesis by (simp add: max_by_key_snoc split: option.split)
qed

lemma max_by_key_Some: "max_by_key f xs = Some r \<Longrightarrow> r \<in> set xs \<and> (\<forall>x \<in> set xs. f x \<le> f r)"
proof (induction xs arbitrary: r rule: rev_induct)
  case Nil
  then show ?case by (simp add: max_by_key_def)
next
  case (snoc x xs)
  then show ?case by (fastforce simp: max_by_key_snoc split: option.splits if_splits)
qed

subsection \<open>Growing sets\<close>

lemma card_less_union:
  assumes "finite A" "finite B"
  shows "card A < card (A \<union> B) \<longleftrightarrow> \<not> B \<subseteq> A"
proof (cases "B \<subseteq> A")
  case True
  then show ?thesis by (simp add: Un_absorb2)
next
  case False
  then have "A \<subset> A \<union> B" by blast
  then show ?thesis using False assms by (simp add: psubset_card_mono)
qed

lemma length_filter_mset: "mset xs = mset ys \<Longrightarrow> length (filter P xs) = length (filter P ys)"
proof -
  assume "mset xs = mset ys"
  then have "filter_mset P (mset xs) = filter_mset P (mset ys)" by simp
  then have "size (mset (filter P xs)) = size (mset (filter P ys))" by simp
  then show ?thesis by (simp only: size_mset)
qed

subsection \<open>Sorting is insensitive to the input order\<close>

lemma sort_perm: "mset xs = mset ys \<Longrightarrow> sort xs = sort (ys :: 'a::linorder list)"
  by (metis properties_for_sort mset_sort sorted_sort)

end
