(* ===== verification/Net.thy ===== *)
theory Net
  imports Prelude
begin

text \<open>
  Socket addresses as \<^verbatim>\<open>std::net\<close> has them: the textual form of IPv4 and IPv6
  addresses and of socket addresses, the standard library's parser for them, and the
  classification predicates the node uses. The scope of an address
  (\<^verbatim>\<open>aex::connection::scope\<close>) is an enumeration here and its computation from an
  address a parameter of the definitions that use it.

  The lemmas show that the text of every IPv4 socket address parses back to it, and that
  the concatenation of the text of an IPv6 address, a colon and a port is never the text
  of a socket address.
\<close>

datatype ipv4 = Ipv4 u8 u8 u8 u8

datatype ipv6 = Ipv6 u16 u16 u16 u16 u16 u16 u16 u16

datatype ip_addr = V4 ipv4 | V6 ipv6

datatype socket_addr =
    SockV4 ipv4 u16
  | SockV6 ipv6 u16 u32 u32  \<comment> \<open>address, port, flow information, scope id\<close>

datatype network_scope = Intranet | Extranet

fun sock_ip :: "socket_addr \<Rightarrow> ip_addr" where
  "sock_ip (SockV4 a p) = V4 a"
| "sock_ip (SockV6 a p f s) = V6 a"

fun sock_port :: "socket_addr \<Rightarrow> u16" where
  "sock_port (SockV4 a p) = p"
| "sock_port (SockV6 a p f s) = p"

fun sock_new :: "ip_addr \<Rightarrow> u16 \<Rightarrow> socket_addr" where
  "sock_new (V4 a) p = SockV4 a p"
| "sock_new (V6 a) p = SockV6 a p 0 0"

fun v6_segments :: "ipv6 \<Rightarrow> u16 list" where
  "v6_segments (Ipv6 a b c d e f g h) = [a, b, c, d, e, f, g, h]"

fun v6_of_segments :: "u16 list \<Rightarrow> ipv6 option" where
  "v6_of_segments [a, b, c, d, e, f, g, h] = Some (Ipv6 a b c d e f g h)"
| "v6_of_segments _ = None"

subsection \<open>Classification\<close>

fun is_loopback :: "ip_addr \<Rightarrow> bool" where
  "is_loopback (V4 (Ipv4 a b c d)) = (a = 127)"
| "is_loopback (V6 x) = (x = Ipv6 0 0 0 0 0 0 0 1)"

fun is_unspecified :: "ip_addr \<Rightarrow> bool" where
  "is_unspecified (V4 x) = (x = Ipv4 0 0 0 0)"
| "is_unspecified (V6 x) = (x = Ipv6 0 0 0 0 0 0 0 0)"

fun v4_is_private :: "ipv4 \<Rightarrow> bool" where
  "v4_is_private (Ipv4 a b c d) =
     (a = 10 \<or> (a = 172 \<and> 16 \<le> b \<and> b \<le> 31) \<or> (a = 192 \<and> b = 168))"

fun v4_is_link_local :: "ipv4 \<Rightarrow> bool" where
  "v4_is_link_local (Ipv4 a b c d) = (a = 169 \<and> b = 254)"

subsection \<open>Order\<close>

text \<open>\<^verbatim>\<open>Ord for SocketAddr\<close>: IPv4 before IPv6, then address, port, flow, scope.\<close>

fun sock_key :: "socket_addr \<Rightarrow> nat list" where
  "sock_key (SockV4 (Ipv4 a b c d) p) = [0, unat a, unat b, unat c, unat d, unat p]"
| "sock_key (SockV6 x p f s) = 1 # map unat (v6_segments x) @ [unat p, unat f, unat s]"

definition sock_less :: "socket_addr \<Rightarrow> socket_addr \<Rightarrow> bool" where
  "sock_less a b \<longleftrightarrow> sock_key a < sock_key b"

subsection \<open>Rendering\<close>

fun show_ipv4 :: "ipv4 \<Rightarrow> string" where
  "show_ipv4 (Ipv4 a b c d) =
     show_nat (unat a) @ ''.'' @ show_nat (unat b) @ ''.'' @ show_nat (unat c) @ ''.'' @
     show_nat (unat d)"

fun show_segments :: "u16 list \<Rightarrow> string" where
  "show_segments [] = ''''"
| "show_segments [x] = show_radix 16 (unat x)"
| "show_segments (x # xs) = show_radix 16 (unat x) @ '':'' @ show_segments xs"

text \<open>The first longest run of zero segments, as start and length.\<close>

fun zero_run :: "u16 list \<Rightarrow> nat \<Rightarrow> nat \<times> nat \<Rightarrow> nat \<times> nat \<Rightarrow> nat \<times> nat" where
  "zero_run [] i cur best = best"
| "zero_run (x # xs) i cur best =
     (if x = 0 then
        (let start = (if snd cur = 0 then i else fst cur);
             cur' = (start, Suc (snd cur));
             best' = (if snd cur' > snd best then cur' else best)
         in zero_run xs (Suc i) cur' best')
      else zero_run xs (Suc i) (0, 0) best)"

fun show_ipv6 :: "ipv6 \<Rightarrow> string" where
  "show_ipv6 x =
     (let segs = v6_segments x in
      if take 6 segs = [0, 0, 0, 0, 0, 65535] then
        ''::ffff:'' @ show_ipv4 (Ipv4 (ucast (drop_bit 8 (segs ! 6))) (ucast (segs ! 6))
                                    (ucast (drop_bit 8 (segs ! 7))) (ucast (segs ! 7)))
      else
        (case zero_run segs 0 (0, 0) (0, 0) of (start, len) \<Rightarrow>
           if len > 1 then
             show_segments (take start segs) @ ''::'' @ show_segments (drop (start + len) segs)
           else show_segments segs))"

fun show_ip :: "ip_addr \<Rightarrow> string" where
  "show_ip (V4 a) = show_ipv4 a"
| "show_ip (V6 a) = show_ipv6 a"

fun show_sock :: "socket_addr \<Rightarrow> string" where
  "show_sock (SockV4 a p) = show_ipv4 a @ '':'' @ show_nat (unat p)"
| "show_sock (SockV6 a p f s) =
     (if s = 0 then ''['' @ show_ipv6 a @ '']:'' @ show_nat (unat p)
      else ''['' @ show_ipv6 a @ ''%'' @ show_nat (unat s) @ '']:'' @ show_nat (unat p))"

subsection \<open>Parsing\<close>

text \<open>
  A reader consumes a prefix of its input and returns the value and the rest; a failed
  reader consumes nothing (the library's \<^verbatim>\<open>read_atomically\<close>).
\<close>

fun read_given_char :: "char \<Rightarrow> string \<Rightarrow> string option" where
  "read_given_char c [] = None"
| "read_given_char c (x # xs) = (if x = c then Some xs else None)"

definition read_number :: "nat \<Rightarrow> nat option \<Rightarrow> bool \<Rightarrow> nat \<Rightarrow> string \<Rightarrow> (nat \<times> string) option" where
  "read_number radix max_digits allow_zero_prefix bound s =
     (let ds = takeWhile (is_digit radix) s; n = length ds
      in if (case max_digits of None \<Rightarrow> False | Some m \<Rightarrow> n > m) then None
         else if n = 0 then None
         else if \<not> allow_zero_prefix \<and> hd ds = CHR ''0'' \<and> n > 1 then None
         else if digits_val radix ds < bound
              then Some (digits_val radix ds, dropWhile (is_digit radix) s)
              else None)"

definition read_octet :: "string \<Rightarrow> (nat \<times> string) option" where
  "read_octet = read_number 10 (Some 3) False 256"

definition read_ipv4 :: "string \<Rightarrow> (ipv4 \<times> string) option" where
  "read_ipv4 s =
     Option.bind (read_octet s) (\<lambda>(a, s).
     Option.bind (read_given_char (CHR ''.'') s) (\<lambda>s.
     Option.bind (read_octet s) (\<lambda>(b, s).
     Option.bind (read_given_char (CHR ''.'') s) (\<lambda>s.
     Option.bind (read_octet s) (\<lambda>(c, s).
     Option.bind (read_given_char (CHR ''.'') s) (\<lambda>s.
     Option.bind (read_octet s) (\<lambda>(d, s).
     Some (Ipv4 (word_of_nat a) (word_of_nat b) (word_of_nat c) (word_of_nat d), s))))))))"

text \<open>
  \<open>read_groups limit i s\<close> reads the groups from index \<open>i\<close> on: hexadecimal groups
  separated by colons, optionally ending in an embedded IPv4 address that fills two
  groups. The flag says whether an IPv4 address was read.
\<close>

definition read_sep :: "nat \<Rightarrow> string \<Rightarrow> string option" where
  "read_sep i s = (if i = 0 then Some s else read_given_char (CHR '':'') s)"

fun v4_groups :: "ipv4 \<Rightarrow> u16 list" where
  "v4_groups (Ipv4 a b c d) =
     [push_bit 8 (ucast a) + ucast b, push_bit 8 (ucast c) + ucast d]"

function read_groups :: "nat \<Rightarrow> nat \<Rightarrow> string \<Rightarrow> u16 list \<times> bool \<times> string" where
  "read_groups limit i s =
     (if limit \<le> i then ([], False, s)
      else
        (case (if i < limit - 1 then Option.bind (read_sep i s) read_ipv4 else None) of
           Some (a, s') \<Rightarrow> (v4_groups a, True, s')
         | None \<Rightarrow>
             (case Option.bind (read_sep i s) (read_number 16 (Some 4) True 65536) of
                None \<Rightarrow> ([], False, s)
              | Some (g, s') \<Rightarrow>
                  (case read_groups limit (Suc i) s' of
                     (gs, v4, s'') \<Rightarrow> (word_of_nat g # gs, v4, s'')))))"
  by pat_completeness auto
termination
  by (relation "measure (\<lambda>(limit, i, s). limit - i)") auto

definition read_ipv6 :: "string \<Rightarrow> (ipv6 \<times> string) option" where
  "read_ipv6 s =
     (case read_groups 8 0 s of (head, head_v4, s1) \<Rightarrow>
        if length head = 8 then map_option (\<lambda>a. (a, s1)) (v6_of_segments head)
        else if head_v4 then None
        else
          Option.bind (read_given_char (CHR '':'') s1) (\<lambda>s2.
          Option.bind (read_given_char (CHR '':'') s2) (\<lambda>s3.
            (case read_groups (8 - (length head + 1)) 0 s3 of (tail, _, s4) \<Rightarrow>
               map_option (\<lambda>a. (a, s4))
                 (v6_of_segments
                    (head @ replicate (8 - length head - length tail) 0 @ tail))))))"

definition read_ip :: "string \<Rightarrow> (ip_addr \<times> string) option" where
  "read_ip s =
     (case read_ipv4 s of
        Some (a, r) \<Rightarrow> Some (V4 a, r)
      | None \<Rightarrow> map_option (\<lambda>(a, r). (V6 a, r)) (read_ipv6 s))"

definition read_port :: "string \<Rightarrow> (u16 \<times> string) option" where
  "read_port s =
     Option.bind (read_given_char (CHR '':'') s) (\<lambda>s.
       map_option (\<lambda>(n, r). (word_of_nat n, r)) (read_number 10 None True 65536 s))"

definition read_scope_id :: "string \<Rightarrow> u32 \<times> string" where
  "read_scope_id s =
     (case Option.bind (read_given_char (CHR ''%'') s) (read_number 10 None True (2 ^ 32)) of
        Some (n, r) \<Rightarrow> (word_of_nat n, r)
      | None \<Rightarrow> (0, s))"

definition read_sock_v4 :: "string \<Rightarrow> (socket_addr \<times> string) option" where
  "read_sock_v4 s =
     Option.bind (read_ipv4 s) (\<lambda>(a, s).
     Option.bind (read_port s) (\<lambda>(p, s). Some (SockV4 a p, s)))"

definition read_sock_v6 :: "string \<Rightarrow> (socket_addr \<times> string) option" where
  "read_sock_v6 s =
     Option.bind (read_given_char (CHR ''['') s) (\<lambda>s.
     Option.bind (read_ipv6 s) (\<lambda>(a, s).
       (case read_scope_id s of (sid, s) \<Rightarrow>
        Option.bind (read_given_char (CHR '']'') s) (\<lambda>s.
        Option.bind (read_port s) (\<lambda>(p, s). Some (SockV6 a p 0 sid, s))))))"

definition read_sock :: "string \<Rightarrow> (socket_addr \<times> string) option" where
  "read_sock s = (case read_sock_v4 s of Some r \<Rightarrow> Some r | None \<Rightarrow> read_sock_v6 s)"

definition parse_all :: "(string \<Rightarrow> ('a \<times> string) option) \<Rightarrow> string \<Rightarrow> 'a option" where
  "parse_all r s = (case r s of Some (a, []) \<Rightarrow> Some a | _ \<Rightarrow> None)"

definition parse_sock :: "string \<Rightarrow> socket_addr option" where
  "parse_sock = parse_all read_sock"

definition parse_ip :: "string \<Rightarrow> ip_addr option" where
  "parse_ip = parse_all read_ip"

declare read_groups.simps [simp del]

subsection \<open>Reading back rendered numbers\<close>

lemma dot_not_digit: "\<not> is_digit b (CHR ''.'')" and colon_not_digit: "\<not> is_digit b (CHR '':'')"
  by (simp_all add: is_digit_def to_digit_def)

lemma takeWhile_digits:
  assumes "2 \<le> b" "b \<le> 36" "r = [] \<or> \<not> is_digit b (hd r)"
  shows "takeWhile (is_digit b) (show_radix b n @ r) = show_radix b n"
    and "dropWhile (is_digit b) (show_radix b n @ r) = r"
  using show_radix_digits [OF assms(1,2), of n] assms(3)
  by (cases r; auto simp: list_all_iff takeWhile_append dropWhile_append)+

lemma read_number_show [codec_simps]:
  assumes "r = [] \<or> \<not> is_digit 10 (hd r)" "n < bound"
    and "case m of None \<Rightarrow> True | Some k \<Rightarrow> n < 10 ^ k \<and> 0 < k"
  shows "read_number 10 m z bound (show_nat n @ r) = Some (n, r)"
proof -
  have len: "case m of None \<Rightarrow> True | Some k \<Rightarrow> length (show_nat n) \<le> k"
    using assms(3) show_radix_length [of 10 n] by (auto split: option.splits)
  have zero: "hd (show_nat n) = CHR ''0'' \<Longrightarrow> length (show_nat n) = 1"
    by (simp add: hd_show_nat_zero show_radix.simps [of 10 0])
  show ?thesis
    using len zero assms(2) takeWhile_digits [of 10 r n] assms(1)
    by (auto simp: read_number_def Let_def digits_val_show_radix split: option.splits)
qed

lemma read_octet_show [codec_simps]:
  "r = [] \<or> \<not> is_digit 10 (hd r) \<Longrightarrow> read_octet (show_nat (unat (w::u8)) @ r) = Some (unat w, r)"
proof -
  assume r: "r = [] \<or> \<not> is_digit 10 (hd r)"
  have "unat w < 2 ^ LENGTH(8)"
    by (rule unsigned_less)
  then show ?thesis
    using r by (simp add: read_octet_def read_number_show)
qed

lemma read_ipv4_show [codec_simps]:
  "r = [] \<or> \<not> is_digit 10 (hd r) \<Longrightarrow> read_ipv4 (show_ipv4 a @ r) = Some (a, r)"
  by (cases a) (simp add: read_ipv4_def read_octet_show dot_not_digit)

lemma read_port_show [codec_simps]:
  "read_port (CHR '':'' # show_nat (unat (p::u16))) = Some (p, [])"
proof -
  have "unat p < 2 ^ LENGTH(16)"
    by (rule unsigned_less)
  then show ?thesis
    using read_number_show [of "[]" "unat p" 65536 None True] by (simp add: read_port_def)
qed

lemma parse_show_ip_v4 [codec_simps]: "parse_ip (show_ip (V4 a)) = Some (V4 a)"
  using read_ipv4_show [of "[]" a] by (simp add: parse_ip_def parse_all_def read_ip_def)

text \<open>
  The text of an IPv4 socket address is read back as that address, so a seed that travels
  as text keeps its meaning.
\<close>

lemma parse_show_sock_v4 [codec_simps]: "parse_sock (show_sock (SockV4 a p)) = Some (SockV4 a p)"
  using read_ipv4_show [of "CHR '':'' # show_nat (unat p)" a] read_port_show [of p]
  by (simp add: parse_sock_def parse_all_def read_sock_def read_sock_v4_def colon_not_digit)

lemma show_ip_port_v4: "show_ip (V4 a) @ '':'' @ show_nat (unat p) = show_sock (SockV4 a p)"
  by simp

subsection \<open>IPv6 text followed by a colon and a port\<close>

text \<open>
  The text of an IPv6 address starts with a colon, or with a hexadecimal group followed
  by a colon; neither an IPv4 octet followed by a dot nor an opening bracket.
\<close>

definition hex_then_colon :: "string \<Rightarrow> bool" where
  "hex_then_colon s \<longleftrightarrow> (\<exists>ds r. s = ds @ CHR '':'' # r \<and> list_all (is_digit 16) ds)"

lemma hex_then_colon_append: "hex_then_colon s \<Longrightarrow> hex_then_colon (s @ t)"
  by (force simp: hex_then_colon_def)

lemma hex_then_colon_Cons: "hex_then_colon (CHR '':'' # s)"
  by (force simp: hex_then_colon_def)

lemma hex_then_colon_segments: "hex_then_colon (show_segments (x # xs) @ CHR '':'' # t)"
proof (cases xs)
  case Nil
  then show ?thesis
    using show_radix_digits [of 16 "unat x"]
    by (simp add: hex_then_colon_def) (metis append_eq_append_conv)
next
  case (Cons y ys)
  have "show_segments (x # xs) @ CHR '':'' # t =
      show_radix 16 (unat x) @ CHR '':'' # (show_segments xs @ CHR '':'' # t)"
    using Cons by simp
  then show ?thesis
    using show_radix_digits [of 16 "unat x"] by (auto simp: hex_then_colon_def)
qed

lemma hex_then_colon_show_ipv6: "hex_then_colon (show_ipv6 a @ CHR '':'' # t)"
proof -
  have seg: "hex_then_colon (show_segments xs @ CHR '':'' # r)" for xs r
    by (cases xs) (simp_all add: hex_then_colon_Cons hex_then_colon_segments)
  show ?thesis
    using seg [of "v6_segments a" t]
    by (auto simp: Let_def hex_then_colon_Cons seg split: prod.split)
qed

lemma digit10_digit16: "is_digit 10 c \<Longrightarrow> is_digit 16 c"
  by (auto simp: is_digit_def to_digit_def Let_def split: if_splits)

lemma hex_then_colon_dropWhile:
  "hex_then_colon s \<Longrightarrow>
     \<exists>c r. dropWhile (is_digit 10) s = c # r \<and> (c = CHR '':'' \<or> is_digit 16 c)"
proof -
  assume "hex_then_colon s"
  then obtain ds r where s: "s = ds @ CHR '':'' # r" and ds: "list_all (is_digit 16) ds"
    by (auto simp: hex_then_colon_def)
  show ?thesis unfolding s using ds
    by (induction ds) (auto simp: colon_not_digit)
qed

lemma read_octet_rest: "read_octet s = Some (n, r) \<Longrightarrow> r = dropWhile (is_digit 10) s"
  by (auto simp: read_octet_def read_number_def Let_def split: if_splits)

lemma read_ipv4_hex: "hex_then_colon s \<Longrightarrow> read_ipv4 s = None"
proof -
  assume s: "hex_then_colon s"
  obtain c r where d: "dropWhile (is_digit 10) s = c # r" and c: "c = CHR '':'' \<or> is_digit 16 c"
    using hex_then_colon_dropWhile [OF s] by auto
  have "c \<noteq> CHR ''.''"
    using c dot_not_digit by auto
  then have "read_octet s = Some (n, s') \<Longrightarrow> read_given_char (CHR ''.'') s' = None" for n s'
    using read_octet_rest [of s n s'] d by simp
  then show ?thesis
    by (cases "read_octet s") (auto simp: read_ipv4_def)
qed

lemma read_sock_v6_hex: "hex_then_colon s \<Longrightarrow> read_sock_v6 s = None"
proof -
  assume "hex_then_colon s"
  then obtain ds r where s: "s = ds @ CHR '':'' # r" and ds: "list_all (is_digit 16) ds"
    by (auto simp: hex_then_colon_def)
  have "\<not> is_digit 16 (CHR ''['')"
    by (simp add: is_digit_def to_digit_def)
  then have "read_given_char (CHR ''['') s = None"
    using ds by (cases ds) (auto simp: s)
  then show ?thesis by (simp add: read_sock_v6_def)
qed

lemma parse_sock_ipv6_colon: "parse_sock (show_ip (V6 a) @ '':'' @ t) = None"
  using hex_then_colon_show_ipv6 [of a t]
  by (simp add: parse_sock_def parse_all_def read_sock_def read_sock_v4_def read_ipv4_hex
      read_sock_v6_hex del: show_ipv6.simps)

end
