(* ===== verification/NodeReg.thy ===== *)
theory NodeReg
  imports Net
begin

text \<open>
  The in-memory node registry of \<^verbatim>\<open>src/protocols/commands/node_registry.rs\<close>: nodes by
  address, each with its seeds (listening sockets), the directions in which a seed was
  seen, a connection flag, a scope and a timestamp. The concurrent map is an association
  list with distinct keys, updated in place; one method call is one step (the map's entry
  lock makes it atomic) and the clock reading of a call is its argument \<open>now\<close>.

  Shown here: every sequence of calls keeps the registry well formed, a connection slot is
  handed out once until it is released, seeds only grow, lookups are sound and complete.
  The locale \<open>seed_book\<close> is the contract the protocol handlers rely on when they
  register lists of seeds.
\<close>

datatype connection_direction = Inbound | Outbound | Unknown

record node_entry =
  ne_address :: string
  ne_seeds :: "(socket_addr, connection_direction set) hmap"
  ne_is_connected :: bool
  ne_scope :: network_scope
  ne_last_seen :: u64

type_synonym node_registry = "(string, node_entry) hmap"

text \<open>\<^verbatim>\<open>aex\<close>'s snapshot of the live connections, as far as the registry reads it.\<close>

record peer_info =
  pi_addr :: string
  pi_node_id :: "string option"
  pi_intranet_ips :: "string list"
  pi_wan_ips :: "string list"

record connection_info =
  ci_inbound :: "peer_info list"
  ci_outbound :: "peer_info list"

subsection \<open>Operations\<close>

definition nr_new :: node_registry where
  "nr_new = []"

definition entry_new :: "string \<Rightarrow> network_scope \<Rightarrow> u64 \<Rightarrow> node_entry" where
  "entry_new address sc now =
     \<lparr>ne_address = address, ne_seeds = [], ne_is_connected = False, ne_scope = sc,
      ne_last_seen = now\<rparr>"

definition seed_direction ::
  "socket_addr \<Rightarrow> connection_direction \<Rightarrow> u64 \<Rightarrow> node_entry \<Rightarrow> node_entry" where
  "seed_direction seed dir now e =
     e\<lparr>ne_seeds := AList.map_default seed {dir} (insert dir) (ne_seeds e), ne_last_seen := now\<rparr>"

definition nr_register_with_direction ::
  "u64 \<Rightarrow> string \<Rightarrow> socket_addr \<Rightarrow> network_scope \<Rightarrow> connection_direction \<Rightarrow> node_registry \<Rightarrow> node_registry" where
  "nr_register_with_direction now address seed sc dir reg =
     AList.map_default address (seed_direction seed dir now (entry_new address sc now))
       (seed_direction seed dir now) reg"

definition nr_register ::
  "u64 \<Rightarrow> string \<Rightarrow> socket_addr \<Rightarrow> network_scope \<Rightarrow> node_registry \<Rightarrow> node_registry" where
  "nr_register now address seed sc reg =
     AList.map_default address (seed_direction seed Unknown now (entry_new address sc now))
       (seed_direction seed Unknown now) reg"

definition nr_add_seed ::
  "u64 \<Rightarrow> string \<Rightarrow> socket_addr \<Rightarrow> node_registry \<Rightarrow> bool \<times> node_registry" where
  "nr_add_seed now address seed reg =
     (case map_of reg address of
        Some e \<Rightarrow>
          (seed \<notin> set (hkeys (ne_seeds e)),
           AList.update address (seed_direction seed Unknown now e) reg)
      | None \<Rightarrow> (False, reg))"

definition nr_try_connect :: "u64 \<Rightarrow> string \<Rightarrow> node_registry \<Rightarrow> bool \<times> node_registry" where
  "nr_try_connect now address reg =
     (case map_of reg address of
        Some e \<Rightarrow>
          if ne_is_connected e then (False, reg)
          else (True, AList.update address (e\<lparr>ne_is_connected := True, ne_last_seen := now\<rparr>) reg)
      | None \<Rightarrow>
          (True, AList.update address
             \<lparr>ne_address = address, ne_seeds = [], ne_is_connected = True, ne_scope = Intranet,
              ne_last_seen = now\<rparr> reg))"

definition nr_mark_connected :: "string \<Rightarrow> bool \<Rightarrow> node_registry \<Rightarrow> node_registry" where
  "nr_mark_connected address connected reg =
     (case map_of reg address of
        Some e \<Rightarrow> AList.update address (e\<lparr>ne_is_connected := connected\<rparr>) reg
      | None \<Rightarrow> reg)"

definition nr_is_connected :: "string \<Rightarrow> node_registry \<Rightarrow> bool" where
  "nr_is_connected address reg =
     (case map_of reg address of Some e \<Rightarrow> ne_is_connected e | None \<Rightarrow> False)"

definition nr_disconnect :: "string \<Rightarrow> node_registry \<Rightarrow> node_registry" where
  "nr_disconnect address reg =
     (case map_of reg address of
        Some e \<Rightarrow> AList.update address (e\<lparr>ne_is_connected := False\<rparr>) reg
      | None \<Rightarrow> reg)"

definition nr_is_registered :: "string \<Rightarrow> node_registry \<Rightarrow> bool" where
  "nr_is_registered address reg \<longleftrightarrow> address \<in> set (hkeys reg)"

definition nr_get_all_seeds :: "node_registry \<Rightarrow> (socket_addr \<times> string) list" where
  "nr_get_all_seeds reg =
     concat (map (\<lambda>(key, e). map (\<lambda>seed. (seed, key)) (hkeys (ne_seeds e))) reg)"

definition nr_get_node_count :: "node_registry \<Rightarrow> nat" where
  "nr_get_node_count reg = length reg"

definition nr_get_nodes :: "node_registry \<Rightarrow> node_entry list" where
  "nr_get_nodes reg = map snd reg"

definition nr_get_connected_nodes :: "node_registry \<Rightarrow> string list" where
  "nr_get_connected_nodes reg = map fst (filter (\<lambda>(_, e). ne_is_connected e) reg)"

definition nr_find_node_for_seed :: "socket_addr \<Rightarrow> node_registry \<Rightarrow> string option" where
  "nr_find_node_for_seed seed reg =
     map_option fst (find (\<lambda>(_, e). seed \<in> set (hkeys (ne_seeds e))) reg)"

definition nr_get_seeds_for_node :: "string \<Rightarrow> node_registry \<Rightarrow> socket_addr list" where
  "nr_get_seeds_for_node address reg =
     (case map_of reg address of Some e \<Rightarrow> hkeys (ne_seeds e) | None \<Rightarrow> [])"

definition direction_total :: "connection_direction \<Rightarrow> node_registry \<Rightarrow> nat" where
  "direction_total dir reg =
     (\<Sum>(_, e) \<leftarrow> reg. \<Sum>(_, dirs) \<leftarrow> ne_seeds e. if dir \<in> dirs then 1 else 0)"

definition nr_direction_counts :: "node_registry \<Rightarrow> nat \<times> nat \<times> nat" where
  "nr_direction_counts reg =
     (direction_total Inbound reg, direction_total Outbound reg, direction_total Unknown reg)"

definition nr_seeds_with_direction ::
  "connection_direction \<Rightarrow> string \<Rightarrow> node_registry \<Rightarrow> socket_addr list" where
  "nr_seeds_with_direction dir address reg =
     (case map_of reg address of
        Some e \<Rightarrow> map fst (filter (\<lambda>(_, dirs). dir \<in> dirs) (ne_seeds e))
      | None \<Rightarrow> [])"

definition nr_get_inbound_seeds :: "string \<Rightarrow> node_registry \<Rightarrow> socket_addr list" where
  "nr_get_inbound_seeds = nr_seeds_with_direction Inbound"

definition nr_get_outbound_seeds :: "string \<Rightarrow> node_registry \<Rightarrow> socket_addr list" where
  "nr_get_outbound_seeds = nr_seeds_with_direction Outbound"

text \<open>
  \<open>sync_from_connection_info\<close>: an inbound peer is marked connected, an outbound peer
  also contributes the address it was reached at.
\<close>

definition sync_inbound_peer :: "u64 \<Rightarrow> peer_info \<Rightarrow> node_registry \<Rightarrow> node_registry" where
  "sync_inbound_peer now p reg =
     (case pi_node_id p of
        None \<Rightarrow> reg
      | Some nid \<Rightarrow>
          AList.map_default nid
            \<lparr>ne_address = nid, ne_seeds = [], ne_is_connected = True, ne_scope = Extranet,
             ne_last_seen = now\<rparr>
            (\<lambda>e. e\<lparr>ne_is_connected := True, ne_last_seen := now\<rparr>) reg)"

definition sync_outbound_peer ::
  "(ip_addr \<Rightarrow> network_scope) \<Rightarrow> u64 \<Rightarrow> peer_info \<Rightarrow> node_registry \<Rightarrow> node_registry" where
  "sync_outbound_peer from_ip now p reg =
     (case pi_node_id p of
        None \<Rightarrow> reg
      | Some nid \<Rightarrow>
          (case parse_sock (pi_addr p) of
             None \<Rightarrow> reg
           | Some addr \<Rightarrow>
               (let sc = from_ip (sock_ip addr) in
                AList.map_default nid
                  \<lparr>ne_address = nid, ne_seeds = [(addr, {Outbound})], ne_is_connected = True,
                   ne_scope = sc, ne_last_seen = now\<rparr>
                  (\<lambda>e. e\<lparr>ne_seeds := AList.map_default addr {Outbound} (insert Outbound) (ne_seeds e),
                         ne_scope := sc, ne_is_connected := True, ne_last_seen := now\<rparr>) reg)))"

definition nr_sync_from_connection_info ::
  "(ip_addr \<Rightarrow> network_scope) \<Rightarrow> u64 \<Rightarrow> connection_info \<Rightarrow> node_registry \<Rightarrow> node_registry" where
  "nr_sync_from_connection_info from_ip now info reg =
     fold (sync_outbound_peer from_ip now) (ci_outbound info)
       (fold (sync_inbound_peer now) (ci_inbound info) reg)"

subsection \<open>Well-formedness\<close>

definition entry_ok :: "string \<Rightarrow> node_entry \<Rightarrow> bool" where
  "entry_ok k e \<longleftrightarrow>
     ne_address e = k \<and> distinct (hkeys (ne_seeds e)) \<and> {} \<notin> snd ` set (ne_seeds e)"

definition registry_ok :: "node_registry \<Rightarrow> bool" where
  "registry_ok reg \<longleftrightarrow> distinct (hkeys reg) \<and> (\<forall>(k, e) \<in> set reg. entry_ok k e)"

text \<open>
  One step of the registry is one call of a mutating method. The label records what the
  call did to the connection slot of a node.
\<close>

datatype slot_event = Acquired string | Refused string | Released string | NoSlot

inductive registry_step :: "node_registry \<Rightarrow> slot_event \<Rightarrow> node_registry \<Rightarrow> bool" where
  step_register: "registry_step reg NoSlot (nr_register now address seed sc reg)"
| step_register_dir:
    "registry_step reg NoSlot (nr_register_with_direction now address seed sc dir reg)"
| step_add_seed: "registry_step reg NoSlot (snd (nr_add_seed now address seed reg))"
| step_acquire: "nr_try_connect now address reg = (True, reg') \<Longrightarrow>
    registry_step reg (Acquired address) reg'"
| step_refuse: "nr_try_connect now address reg = (False, reg') \<Longrightarrow>
    registry_step reg (Refused address) reg'"
| step_mark: "registry_step reg NoSlot (nr_mark_connected address True reg)"
| step_unmark: "registry_step reg (Released address) (nr_mark_connected address False reg)"
| step_disconnect: "registry_step reg (Released address) (nr_disconnect address reg)"
| step_sync: "registry_step reg NoSlot (nr_sync_from_connection_info from_ip now info reg)"

inductive registry_trace :: "node_registry \<Rightarrow> slot_event list \<Rightarrow> node_registry \<Rightarrow> bool" where
  trace_nil: "registry_trace reg [] reg"
| trace_cons: "registry_step reg ev reg1 \<Longrightarrow> registry_trace reg1 evs reg2 \<Longrightarrow>
    registry_trace reg (ev # evs) reg2"

inductive_cases registry_trace_ConsE: "registry_trace reg (ev # evs) reg'"
inductive_cases registry_trace_NilE: "registry_trace reg [] reg'"
inductive_cases registry_step_AcquiredE: "registry_step reg (Acquired a) reg'"

subsection \<open>The invariant is kept\<close>

lemma registry_ok_Nil [simp]: "registry_ok []"
  by (simp add: registry_ok_def)

lemma registry_ok_entry: "registry_ok reg \<Longrightarrow> map_of reg k = Some e \<Longrightarrow> entry_ok k e"
  by (auto simp: registry_ok_def dest!: map_of_SomeD)

lemma registry_ok_alt:
  "registry_ok reg \<longleftrightarrow> distinct (hkeys reg) \<and> (\<forall>k e. map_of reg k = Some e \<longrightarrow> entry_ok k e)"
  by (auto simp: registry_ok_def)

lemma registry_ok_update [intro]:
  "registry_ok reg \<Longrightarrow> entry_ok k e \<Longrightarrow> registry_ok (AList.update k e reg)"
  unfolding registry_ok_alt by (simp add: map_laws)

lemma registry_ok_map_default [intro]:
  "registry_ok reg \<Longrightarrow> entry_ok k v \<Longrightarrow> (\<And>e. entry_ok k e \<Longrightarrow> entry_ok k (f e)) \<Longrightarrow>
     registry_ok (AList.map_default k v f reg)"
  unfolding registry_ok_alt by (simp add: map_laws split: option.split)

lemma snd_map_default: "snd ` set (AList.map_default k v f m) \<subseteq> insert v (snd ` set m \<union> f ` snd ` set m)"
  by (induction m) auto

lemma no_empty_direction_set:
  "{} \<notin> snd ` set m \<Longrightarrow> {} \<notin> snd ` set (AList.map_default k {d} (insert d) m)"
  using snd_map_default [of k "{d}" "insert d" m] by auto

lemma seed_direction_ok [intro]: "entry_ok k e \<Longrightarrow> entry_ok k (seed_direction seed dir now e)"
  by (auto simp: entry_ok_def seed_direction_def map_laws no_empty_direction_set
      simp del: set_map intro: no_empty_direction_set)

lemma entry_new_ok [intro, simp]: "entry_ok k (entry_new k sc now)"
  by (simp add: entry_ok_def entry_new_def)

lemma entry_ok_flags [simp]:
  "entry_ok k (e\<lparr>ne_is_connected := c\<rparr>) = entry_ok k e"
  "entry_ok k (e\<lparr>ne_last_seen := t\<rparr>) = entry_ok k e"
  "entry_ok k (e\<lparr>ne_scope := sc\<rparr>) = entry_ok k e"
  by (simp_all add: entry_ok_def)

lemma nr_register_ok [intro]: "registry_ok reg \<Longrightarrow> registry_ok (nr_register now a s sc reg)"
  unfolding nr_register_def by (intro registry_ok_map_default seed_direction_ok entry_new_ok)

lemma nr_register_with_direction_ok [intro]:
  "registry_ok reg \<Longrightarrow> registry_ok (nr_register_with_direction now a s sc dir reg)"
  unfolding nr_register_with_direction_def
  by (intro registry_ok_map_default seed_direction_ok entry_new_ok)

lemma nr_add_seed_ok [intro]: "registry_ok reg \<Longrightarrow> registry_ok (snd (nr_add_seed now a s reg))"
  by (auto simp: nr_add_seed_def dest: registry_ok_entry split: option.split)

lemma nr_try_connect_ok [intro]: "registry_ok reg \<Longrightarrow> registry_ok (snd (nr_try_connect now a reg))"
proof -
  assume ok: "registry_ok reg"
  have "entry_ok a \<lparr>ne_address = a, ne_seeds = [], ne_is_connected = True, ne_scope = Intranet,
      ne_last_seen = now\<rparr>"
    by (simp add: entry_ok_def)
  then show ?thesis
    using ok registry_ok_entry [OF ok, of a]
    by (auto simp: nr_try_connect_def split: option.split)
qed

lemma nr_mark_connected_ok [intro]: "registry_ok reg \<Longrightarrow> registry_ok (nr_mark_connected a c reg)"
  using registry_ok_entry [of reg a] by (auto simp: nr_mark_connected_def split: option.split)

lemma nr_disconnect_ok [intro]: "registry_ok reg \<Longrightarrow> registry_ok (nr_disconnect a reg)"
  using registry_ok_entry [of reg a] by (auto simp: nr_disconnect_def split: option.split)

lemma sync_inbound_peer_ok [intro]: "registry_ok reg \<Longrightarrow> registry_ok (sync_inbound_peer now p reg)"
proof -
  assume ok: "registry_ok reg"
  show ?thesis
  proof (cases "pi_node_id p")
    case (Some nid)
    show ?thesis
      unfolding sync_inbound_peer_def Some option.case
      by (rule registry_ok_map_default [OF ok]) (simp_all add: entry_ok_def)
  qed (simp add: sync_inbound_peer_def ok)
qed

lemma sync_outbound_peer_ok [intro]:
  "registry_ok reg \<Longrightarrow> registry_ok (sync_outbound_peer from_ip now p reg)"
proof -
  assume ok: "registry_ok reg"
  have upd: "entry_ok nid (e\<lparr>ne_seeds := AList.map_default addr {Outbound} (insert Outbound) (ne_seeds e)\<rparr>)"
    if "entry_ok nid e" for nid e addr
    using that by (auto simp: entry_ok_def map_laws simp del: set_map dest: no_empty_direction_set)
  show ?thesis
  proof (cases "pi_node_id p")
    case id: (Some nid)
    show ?thesis
    proof (cases "parse_sock (pi_addr p)")
      case (Some addr)
      show ?thesis
        unfolding sync_outbound_peer_def id Some option.case Let_def
        by (rule registry_ok_map_default [OF ok]) (simp add: entry_ok_def, drule upd, simp)
    qed (simp add: sync_outbound_peer_def ok id)
  qed (simp add: sync_outbound_peer_def ok)
qed

lemma fold_keeps: "(\<And>x s. P s \<Longrightarrow> P (f x s)) \<Longrightarrow> P s \<Longrightarrow> P (fold f xs s)"
  by (induction xs arbitrary: s) auto

lemma nr_sync_ok [intro]:
  "registry_ok reg \<Longrightarrow> registry_ok (nr_sync_from_connection_info from_ip now info reg)"
  unfolding nr_sync_from_connection_info_def
  by (intro fold_keeps [where P = registry_ok] sync_outbound_peer_ok sync_inbound_peer_ok)

text \<open>No method removes a node.\<close>

lemma registry_step_keeps:
  assumes "registry_step reg ev reg'"
  shows "set (hkeys reg) \<subseteq> set (hkeys reg')"
proof -
  have "set (hkeys r) \<subseteq> set (hkeys (fold (sync_inbound_peer now) ps r))" for now ps r
    by (induction ps arbitrary: r)
      (fastforce simp: sync_inbound_peer_def set_hkeys_map_default simp del: set_map split: option.splits)+
  moreover have "set (hkeys r) \<subseteq> set (hkeys (fold (sync_outbound_peer from_ip now) ps r))" for from_ip now ps r
    by (induction ps arbitrary: r)
      (fastforce simp: sync_outbound_peer_def Let_def set_hkeys_map_default simp del: set_map split: option.splits)+
  ultimately have "set (hkeys r) \<subseteq> set (hkeys (nr_sync_from_connection_info from_ip now info r))" for from_ip now info r
    unfolding nr_sync_from_connection_info_def by blast
  with assms show ?thesis
    by cases (auto simp: nr_register_def nr_register_with_direction_def nr_add_seed_def nr_try_connect_def
        nr_mark_connected_def nr_disconnect_def set_hkeys_map_default set_hkeys_update
        simp del: set_map split: option.splits if_splits)
qed

lemma registry_step_ok: "registry_step reg ev reg' \<Longrightarrow> registry_ok reg \<Longrightarrow> registry_ok reg'"
proof (induction rule: registry_step.induct)
  case (step_acquire now address reg reg')
  then show ?case using nr_try_connect_ok [of reg now address] by simp
next
  case (step_refuse now address reg reg')
  then show ?case using nr_try_connect_ok [of reg now address] by simp
qed auto

subsection \<open>The connection flag\<close>

lemma is_connected_register [simp]:
  "nr_is_connected b (nr_register now a s sc reg) = nr_is_connected b reg"
  by (auto simp: nr_is_connected_def nr_register_def map_laws seed_direction_def entry_new_def
      split: option.split)

lemma is_connected_register_with_direction [simp]:
  "nr_is_connected b (nr_register_with_direction now a s sc dir reg) = nr_is_connected b reg"
  by (auto simp: nr_is_connected_def nr_register_with_direction_def map_laws seed_direction_def
      entry_new_def split: option.split)

lemma is_connected_add_seed [simp]:
  "nr_is_connected b (snd (nr_add_seed now a s reg)) = nr_is_connected b reg"
  by (auto simp: nr_is_connected_def nr_add_seed_def map_laws seed_direction_def split: option.split)

lemma try_connect_result: "fst (nr_try_connect now a reg) \<longleftrightarrow> \<not> nr_is_connected a reg"
  by (auto simp: nr_try_connect_def nr_is_connected_def split: option.split)

lemma is_connected_try_connect [simp]:
  "nr_is_connected b (snd (nr_try_connect now a reg)) \<longleftrightarrow> b = a \<or> nr_is_connected b reg"
  by (auto simp: nr_try_connect_def nr_is_connected_def map_laws split: option.split)

lemma is_connected_mark_True: "nr_is_connected b reg \<Longrightarrow> nr_is_connected b (nr_mark_connected a True reg)"
  by (auto simp: nr_is_connected_def nr_mark_connected_def map_laws split: option.splits)

lemma is_connected_mark_other: "b \<noteq> a \<Longrightarrow> nr_is_connected b (nr_mark_connected a c reg) = nr_is_connected b reg"
  by (auto simp: nr_is_connected_def nr_mark_connected_def map_laws split: option.split)

lemma is_connected_disconnect [simp]:
  "nr_is_connected b (nr_disconnect a reg) \<longleftrightarrow> b \<noteq> a \<and> nr_is_connected b reg"
  by (auto simp: nr_is_connected_def nr_disconnect_def map_laws split: option.split)

lemma is_connected_sync_inbound:
  "nr_is_connected b (sync_inbound_peer now p reg) \<longleftrightarrow> pi_node_id p = Some b \<or> nr_is_connected b reg"
  by (auto simp: nr_is_connected_def sync_inbound_peer_def map_laws split: option.split)

lemma is_connected_sync_outbound:
  "nr_is_connected b (sync_outbound_peer from_ip now p reg) \<longleftrightarrow>
     (pi_node_id p = Some b \<and> parse_sock (pi_addr p) \<noteq> None) \<or> nr_is_connected b reg"
  by (auto simp: nr_is_connected_def sync_outbound_peer_def map_laws Let_def split: option.split)

lemma is_connected_sync:
  "nr_is_connected b (nr_sync_from_connection_info from_ip now info reg) \<longleftrightarrow>
     (\<exists>p \<in> set (ci_inbound info). pi_node_id p = Some b) \<or>
     (\<exists>p \<in> set (ci_outbound info). pi_node_id p = Some b \<and> parse_sock (pi_addr p) \<noteq> None) \<or>
     nr_is_connected b reg"
proof -
  have i: "nr_is_connected b (fold (sync_inbound_peer now) ps r) \<longleftrightarrow>
      (\<exists>p \<in> set ps. pi_node_id p = Some b) \<or> nr_is_connected b r" for ps r
    by (induction ps arbitrary: r) (auto simp: is_connected_sync_inbound)
  have o: "nr_is_connected b (fold (sync_outbound_peer from_ip now) ps r) \<longleftrightarrow>
      (\<exists>p \<in> set ps. pi_node_id p = Some b \<and> parse_sock (pi_addr p) \<noteq> None) \<or>
      nr_is_connected b r" for ps r
    by (induction ps arbitrary: r) (auto simp: is_connected_sync_outbound)
  show ?thesis
    by (auto simp: nr_sync_from_connection_info_def i o)
qed

text \<open>A step that does not release a node's slot keeps it connected.\<close>

lemma registry_step_stays_connected:
  "registry_step reg ev reg' \<Longrightarrow> ev \<noteq> Released a \<Longrightarrow> nr_is_connected a reg \<Longrightarrow> nr_is_connected a reg'"
proof (induction rule: registry_step.induct)
  case (step_acquire now address reg reg')
  then show ?case using is_connected_try_connect [of a now address reg] by simp
next
  case (step_refuse now address reg reg')
  then show ?case using is_connected_try_connect [of a now address reg] by simp
next
  case (step_unmark reg address)
  then show ?case by (simp add: is_connected_mark_other)
qed (auto simp: is_connected_mark_True is_connected_sync)

lemma registry_step_acquired:
  assumes "registry_step reg (Acquired a) reg'"
  shows "\<not> nr_is_connected a reg" and "nr_is_connected a reg'"
proof -
  from assms obtain now where "nr_try_connect now a reg = (True, reg')"
    by (auto elim: registry_step_AcquiredE)
  then show "\<not> nr_is_connected a reg" and "nr_is_connected a reg'"
    using try_connect_result [of now a reg] is_connected_try_connect [of a now a reg] by auto
qed

lemma registry_trace_append:
  "registry_trace reg (xs @ ys) reg' \<longleftrightarrow>
     (\<exists>m. registry_trace reg xs m \<and> registry_trace m ys reg')"
proof (induction xs arbitrary: reg)
  case Nil
  then show ?case by (auto intro: trace_nil elim: registry_trace_NilE)
next
  case (Cons x xs)
  then show ?case by (force intro: trace_cons elim: registry_trace_ConsE)
qed

lemma registry_trace_stays_connected:
  "registry_trace reg evs reg' \<Longrightarrow> Released a \<notin> set evs \<Longrightarrow> nr_is_connected a reg \<Longrightarrow>
     nr_is_connected a reg'"
  by (induction rule: registry_trace.induct) (auto intro: registry_step_stays_connected)

lemma registry_trace_ok: "registry_trace reg evs reg' \<Longrightarrow> registry_ok reg \<Longrightarrow> registry_ok reg'"
  by (induction rule: registry_trace.induct) (auto intro: registry_step_ok)

subsection \<open>Seeds\<close>

lemma mem_all_seeds:
  "(a, n) \<in> set (nr_get_all_seeds reg) \<longleftrightarrow> (\<exists>e. (n, e) \<in> set reg \<and> a \<in> set (hkeys (ne_seeds e)))"
  by (auto simp: nr_get_all_seeds_def)

lemma in_all_seeds:
  "registry_ok reg \<Longrightarrow>
     (a, n) \<in> set (nr_get_all_seeds reg) \<longleftrightarrow>
       (\<exists>e. map_of reg n = Some e \<and> a \<in> set (hkeys (ne_seeds e)))"
  by (auto simp: mem_all_seeds registry_ok_def)

lemma seeds_for_node_iff:
  "registry_ok reg \<Longrightarrow> a \<in> set (nr_get_seeds_for_node n reg) \<longleftrightarrow> (a, n) \<in> set (nr_get_all_seeds reg)"
  by (cases "map_of reg n") (auto simp: in_all_seeds nr_get_seeds_for_node_def)

lemma distinct_all_seeds: "registry_ok reg \<Longrightarrow> distinct (nr_get_all_seeds reg)"
proof (induction reg)
  case (Cons p reg)
  obtain k e where p: "p = (k, e)" by fastforce
  have ok: "registry_ok reg" and k: "k \<notin> set (hkeys reg)" and e: "distinct (hkeys (ne_seeds e))"
    using Cons.prems by (auto simp: registry_ok_def p entry_ok_def)
  have "(x, k) \<notin> set (nr_get_all_seeds reg)" for x
    using k by (force simp: mem_all_seeds)
  moreover have "nr_get_all_seeds (p # reg) =
      map (\<lambda>s. (s, k)) (hkeys (ne_seeds e)) @ nr_get_all_seeds reg"
    by (simp add: nr_get_all_seeds_def p)
  ultimately show ?case
    using Cons.IH [OF ok] k e by (auto simp: distinct_map inj_on_def simp del: map_map)
qed (simp add: nr_get_all_seeds_def)

lemma all_seeds_register:
  assumes "registry_ok reg"
  shows "set (nr_get_all_seeds (nr_register now n a sc reg)) = insert (a, n) (set (nr_get_all_seeds reg))"
proof -
  have "(x, k) \<in> set (nr_get_all_seeds (nr_register now n a sc reg)) \<longleftrightarrow>
      (x, k) = (a, n) \<or> (x, k) \<in> set (nr_get_all_seeds reg)" for x k
    unfolding in_all_seeds [OF nr_register_ok [OF assms]] in_all_seeds [OF assms]
    by (auto simp: nr_register_def map_laws seed_direction_def entry_new_def
        simp del: set_map split: option.splits)
  then show ?thesis by auto
qed

lemma all_seeds_register_with_direction:
  assumes "registry_ok reg"
  shows "set (nr_get_all_seeds (nr_register_with_direction now n a sc dir reg)) =
    insert (a, n) (set (nr_get_all_seeds reg))"
proof -
  have "(x, k) \<in> set (nr_get_all_seeds (nr_register_with_direction now n a sc dir reg)) \<longleftrightarrow>
      (x, k) = (a, n) \<or> (x, k) \<in> set (nr_get_all_seeds reg)" for x k
    unfolding in_all_seeds [OF nr_register_with_direction_ok [OF assms]] in_all_seeds [OF assms]
    by (auto simp: nr_register_with_direction_def map_laws seed_direction_def entry_new_def
        simp del: set_map split: option.splits)
  then show ?thesis by auto
qed

lemma all_seeds_perm: "mset reg = mset reg' \<Longrightarrow> mset (nr_get_all_seeds reg) = mset (nr_get_all_seeds reg')"
proof -
  assume "mset reg = mset reg'"
  moreover have "mset (nr_get_all_seeds r) =
      (\<Sum>p \<in># mset r. mset (map (\<lambda>s. (s, fst p)) (hkeys (ne_seeds (snd p)))))" for r
    by (induction r) (auto simp: nr_get_all_seeds_def)
  ultimately show ?thesis by simp
qed

lemma all_seeds_update_same:
  "map_of reg n = Some e \<Longrightarrow> ne_seeds e' = ne_seeds e \<Longrightarrow>
     nr_get_all_seeds (AList.update n e' reg) = nr_get_all_seeds reg"
  by (induction reg) (auto simp: nr_get_all_seeds_def split: if_splits)

lemma all_seeds_disconnect: "nr_get_all_seeds (nr_disconnect n reg) = nr_get_all_seeds reg"
  by (auto simp: nr_disconnect_def all_seeds_update_same split: option.split)

subsection \<open>The contract of the protocol handlers with the registry\<close>

text \<open>
  The handlers use the registry as a growing book of (socket, node) pairs: registering a
  pair adds exactly that pair, and the number of entries tells whether anything was new.
\<close>

locale seed_book =
  fixes ok :: "'r \<Rightarrow> bool"
    and book :: "'r \<Rightarrow> (socket_addr \<times> string) list"
    and add :: "string \<Rightarrow> socket_addr \<Rightarrow> 'r \<Rightarrow> 'r"
  assumes book_distinct: "ok r \<Longrightarrow> distinct (book r)"
    and book_add: "ok r \<Longrightarrow> set (book (add n a r)) = insert (a, n) (set (book r))"
    and ok_add: "ok r \<Longrightarrow> ok (add n a r)"
begin

lemma ok_add_all: "ok r \<Longrightarrow> ok (fold (\<lambda>(n, a). add n a) xs r)"
  by (induction xs arbitrary: r) (auto simp: ok_add)

lemma book_add_all:
  "ok r \<Longrightarrow> set (book (fold (\<lambda>(n, a). add n a) xs r)) = (\<lambda>(n, a). (a, n)) ` set xs \<union> set (book r)"
  by (induction xs arbitrary: r) (auto simp: ok_add book_add)

lemma book_length: "ok r \<Longrightarrow> length (book r) = card (set (book r))"
  by (simp add: book_distinct distinct_card)

lemma book_grows_iff:
  assumes "ok r"
  shows "length (book r) < length (book (fold (\<lambda>(n, a). add n a) xs r)) \<longleftrightarrow>
    (\<exists>(n, a) \<in> set xs. (a, n) \<notin> set (book r))"
proof -
  let ?r' = "fold (\<lambda>(n, a). add n a) xs r"
  have eq: "set (book ?r') = (\<lambda>(n, a). (a, n)) ` set xs \<union> set (book r)"
    by (rule book_add_all [OF assms])
  have len: "length (book ?r') = card (set (book ?r'))" "length (book r) = card (set (book r))"
    by (simp_all add: book_length ok_add_all assms)
  have "card (set (book r)) < card (set (book ?r')) \<longleftrightarrow> set (book ?r') \<noteq> set (book r)"
    using eq by (metis List.finite_set Un_upper2 psubset_card_mono psubset_eq less_irrefl)
  then show ?thesis
    unfolding len using eq by fast
qed

end

interpretation seeds: seed_book registry_ok nr_get_all_seeds "\<lambda>n a. nr_register now n a (sc a)"
  for now :: u64 and sc :: "socket_addr \<Rightarrow> network_scope"
  by unfold_locales (auto simp: distinct_all_seeds all_seeds_register simp del: set_map)

subsection \<open>Lookups\<close>

lemma find_node_for_seed_Some:
  assumes "nr_find_node_for_seed a reg = Some n"
  shows "(a, n) \<in> set (nr_get_all_seeds reg)"
proof -
  from assms obtain e where "find (\<lambda>(_, e). a \<in> set (hkeys (ne_seeds e))) reg = Some (n, e)"
    by (auto simp: nr_find_node_for_seed_def)
  then have "(n, e) \<in> set reg" and "a \<in> set (hkeys (ne_seeds e))"
    by (auto simp: find_Some_iff in_set_conv_nth simp del: set_map)
  then show ?thesis by (auto simp: mem_all_seeds simp del: set_map)
qed

lemma find_node_for_seed_None:
  "nr_find_node_for_seed a reg = None \<longleftrightarrow> (\<forall>n. (a, n) \<notin> set (nr_get_all_seeds reg))"
  by (auto simp: nr_find_node_for_seed_def mem_all_seeds find_None_iff simp del: set_map)

subsection \<open>Properties\<close>

text \<open>
  C7. Every registry that any sequence of method calls produces from the empty registry is
  well formed: node addresses are unique keys that match the address in the entry, each
  entry lists a socket once, and no socket is listed without a direction.
\<close>

theorem registry_always_well_formed: "registry_trace nr_new evs reg \<Longrightarrow> registry_ok reg"
  using registry_trace_ok [of nr_new evs reg] by (simp add: nr_new_def)

theorem registry_always_well_formed_witness:
  "registry_ok (snd (nr_try_connect 7 ''n1''
     (nr_register 5 ''n1'' (SockV4 (Ipv4 10 0 0 1) 1090) Intranet nr_new)))"
proof -
  let ?r = "nr_register 5 ''n1'' (SockV4 (Ipv4 10 0 0 1) 1090) Intranet nr_new"
  have "nr_try_connect 7 ''n1'' ?r = (True, snd (nr_try_connect 7 ''n1'' ?r))"
    by (simp add: nr_try_connect_def nr_register_def nr_new_def seed_direction_def entry_new_def)
  then have "registry_trace nr_new [NoSlot, Acquired ''n1''] (snd (nr_try_connect 7 ''n1'' ?r))"
    by (rule trace_cons [OF step_register, OF trace_cons [OF step_acquire, OF _ trace_nil]])
  then show ?thesis by (rule registry_always_well_formed)
qed

text \<open>
  C3. The connection slot of a node is exclusive: however calls are interleaved, between
  two calls of \<open>try_connect\<close> that both acquire the slot of the same node there is a
  call that releases it (\<open>disconnect\<close>, or \<open>mark_connected\<close> with false).
\<close>

theorem try_connect_exclusive:
  assumes "registry_trace reg (xs @ Acquired a # ys @ Acquired a # zs) reg'"
  shows "Released a \<in> set ys"
proof (rule ccontr)
  assume no: "Released a \<notin> set ys"
  from assms obtain r1 where "registry_trace r1 (Acquired a # ys @ Acquired a # zs) reg'"
    by (auto simp: registry_trace_append)
  then obtain r2 where s1: "registry_step r1 (Acquired a) r2"
    and "registry_trace r2 (ys @ Acquired a # zs) reg'"
    by (blast elim: registry_trace_ConsE)
  then obtain r3 where tr: "registry_trace r2 ys r3"
    and "registry_trace r3 (Acquired a # zs) reg'"
    by (auto simp: registry_trace_append)
  then obtain r4 where s2: "registry_step r3 (Acquired a) r4"
    by (blast elim: registry_trace_ConsE)
  have "nr_is_connected a r3"
    using tr no registry_step_acquired(2) [OF s1] by (rule registry_trace_stays_connected)
  then show False using registry_step_acquired(1) [OF s2] by blast
qed

theorem try_connect_exclusive_witness:
  "Released ''n1'' \<in> set [NoSlot, Released ''n1'']"
proof -
  let ?e = "\<lambda>t. \<lparr>ne_address = ''n1'', ne_seeds = [], ne_is_connected = True, ne_scope = Intranet,
    ne_last_seen = t\<rparr>"
  let ?r1 = "[(''n1'', ?e 1)]"
  let ?r2 = "nr_mark_connected ''n1'' True ?r1"
  let ?r3 = "nr_disconnect ''n1'' ?r2"
  have a1: "nr_try_connect 1 ''n1'' nr_new = (True, ?r1)"
    by (simp add: nr_try_connect_def nr_new_def)
  have a2: "nr_try_connect 2 ''n1'' ?r3 = (True, [(''n1'', ?e 2)])"
    by (simp add: nr_try_connect_def nr_disconnect_def nr_mark_connected_def)
  have "registry_trace nr_new ([] @ Acquired ''n1'' # [NoSlot, Released ''n1''] @ Acquired ''n1'' # [])
      [(''n1'', ?e 2)]"
    unfolding append_Nil append_Cons
    by (rule trace_cons [OF step_acquire [OF a1]], rule trace_cons [OF step_mark],
        rule trace_cons [OF step_disconnect], rule trace_cons [OF step_acquire [OF a2]],
        rule trace_nil)
  then show ?thesis by (rule try_connect_exclusive)
qed

text \<open>
  Registering a list of sockets adds exactly the pairs of the list to the seeds of the
  registry, and the seed count grows exactly when one of them was not known: the test by
  which the gossip handlers decide to broadcast.
\<close>

theorem register_seeds_count:
  assumes "registry_ok reg"
  shows "set (nr_get_all_seeds (fold (\<lambda>(n, a). nr_register now n a (sc a)) xs reg)) =
      set (nr_get_all_seeds reg) \<union> {(a, n). (n, a) \<in> set xs} \<and>
    (length (nr_get_all_seeds reg) <
        length (nr_get_all_seeds (fold (\<lambda>(n, a). nr_register now n a (sc a)) xs reg)) \<longleftrightarrow>
      (\<exists>(n, a) \<in> set xs. (a, n) \<notin> set (nr_get_all_seeds reg)))"
  using seeds.book_add_all [OF assms] seeds.book_grows_iff [OF assms] by auto

theorem register_seeds_count_witness:
  "length (nr_get_all_seeds nr_new) < length (nr_get_all_seeds
     (fold (\<lambda>(n, a). nr_register 9 n a Intranet) [(''n1'', SockV4 (Ipv4 10 0 0 1) 1090)] nr_new))"
  using register_seeds_count [of nr_new 9 "\<lambda>_. Intranet" "[(''n1'', SockV4 (Ipv4 10 0 0 1) 1090)]"]
  by (simp add: nr_new_def nr_get_all_seeds_def)

text \<open>
  \<open>find_node_for_seed\<close> is sound and complete: on a well-formed registry it
  answers with a node that has the socket among its seeds whenever there is one.
\<close>

theorem find_node_for_seed_correct:
  assumes "registry_ok reg"
  shows "case nr_find_node_for_seed a reg of
      Some n \<Rightarrow> a \<in> set (nr_get_seeds_for_node n reg)
    | None \<Rightarrow> \<forall>n. a \<notin> set (nr_get_seeds_for_node n reg)"
  using find_node_for_seed_Some [of a reg] find_node_for_seed_None [of a reg]
  by (auto simp: seeds_for_node_iff [OF assms] split: option.split)

theorem find_node_for_seed_correct_witness:
  "case nr_find_node_for_seed (SockV4 (Ipv4 10 0 0 1) 1090)
      (nr_register 5 ''n1'' (SockV4 (Ipv4 10 0 0 1) 1090) Intranet nr_new) of
     Some n \<Rightarrow> SockV4 (Ipv4 10 0 0 1) 1090 \<in> set (nr_get_seeds_for_node n
       (nr_register 5 ''n1'' (SockV4 (Ipv4 10 0 0 1) 1090) Intranet nr_new))
   | None \<Rightarrow> \<forall>n. SockV4 (Ipv4 10 0 0 1) 1090 \<notin> set (nr_get_seeds_for_node n
       (nr_register 5 ''n1'' (SockV4 (Ipv4 10 0 0 1) 1090) Intranet nr_new))"
  by (rule find_node_for_seed_correct) (auto simp: nr_new_def)

end
