(* ===== verification/Command.thy ===== *)
theory Command
  imports Prelude
begin

text \<open>
  Commands and their routing: the enumerations and the command structure of
  \<^verbatim>\<open>src/protocols/command.rs\<close> and the handler table that \<^verbatim>\<open>register\<close> in
  \<^verbatim>\<open>src/protocols/registry.rs\<close> builds. The router itself belongs to the \<^verbatim>\<open>aex\<close>
  crate: its registration method is the parameter \<open>on\<close> of \<open>register\<close>, and the
  locale \<open>tcp_router\<close> states what the node relies on (registering an id makes
  exactly that id answer to the handler).

  The lemmas show that command ids determine entity and action, that the registered ids
  are pairwise distinct, and which commands reach which handler.
\<close>

unbundle bit_operations_syntax

datatype entity = ENode | EMessage | EWitness | ETelephone | EFile

datatype action =
    OnLine | OnLineAck | OffLine | Ack | Update | NodeSync | NodeSyncRequest | NodeSyncResponse
  | SeedSyncRequest | SeedSyncResponse | SeedSyncCommit
  | SendText | SendBinary | MessageAck
  | SendEncrypted | SendEncryptedAck | ReadReceipt | DeleteMessage
  | Tick | TickAck | Check | Validate | ValidateAck
  | Call | HangUp | Accept | Reject

record p2p_command =
  cmd_entity :: entity
  cmd_action :: action
  cmd_data :: bytes

text \<open>The discriminants: both enumerations start at 1 and count up.\<close>

fun entity_num :: "entity \<Rightarrow> u32" where
  "entity_num ENode = 1"
| "entity_num EMessage = 2"
| "entity_num EWitness = 3"
| "entity_num ETelephone = 4"
| "entity_num EFile = 5"

fun action_num :: "action \<Rightarrow> u32" where
  "action_num OnLine = 1"
| "action_num OnLineAck = 2"
| "action_num OffLine = 3"
| "action_num Ack = 4"
| "action_num Update = 5"
| "action_num NodeSync = 6"
| "action_num NodeSyncRequest = 7"
| "action_num NodeSyncResponse = 8"
| "action_num SeedSyncRequest = 9"
| "action_num SeedSyncResponse = 10"
| "action_num SeedSyncCommit = 11"
| "action_num SendText = 12"
| "action_num SendBinary = 13"
| "action_num MessageAck = 14"
| "action_num SendEncrypted = 15"
| "action_num SendEncryptedAck = 16"
| "action_num ReadReceipt = 17"
| "action_num DeleteMessage = 18"
| "action_num Tick = 19"
| "action_num TickAck = 20"
| "action_num Check = 21"
| "action_num Validate = 22"
| "action_num ValidateAck = 23"
| "action_num Call = 24"
| "action_num HangUp = 25"
| "action_num Accept = 26"
| "action_num Reject = 27"

definition p2p_command_new :: "entity \<Rightarrow> action \<Rightarrow> bytes \<Rightarrow> p2p_command" where
  "p2p_command_new e a d = \<lparr>cmd_entity = e, cmd_action = a, cmd_data = d\<rparr>"

definition to_u32 :: "entity \<Rightarrow> action \<Rightarrow> u32" where
  "to_u32 e a = push_bit 8 (action_num a) OR entity_num e"

definition command_id :: "p2p_command \<Rightarrow> u32" where
  "command_id c = to_u32 (cmd_entity c) (cmd_action c)"

definition extract_p2p_cmd_id :: "p2p_command \<Rightarrow> u32" where
  "extract_p2p_cmd_id c = to_u32 (cmd_entity c) (cmd_action c)"

text \<open>The handlers \<^verbatim>\<open>register\<close> names, in the order of registration.\<close>

datatype handler =
    HOnline | HOffline | HOnlineAck | HMessage | HMessageAck | HTick
  | HWitnessValidate | HWitnessValidateAck | HNodeSync | HNodeSyncResponse
  | HSeedSyncRequest | HSeedSyncResponse | HSeedSyncCommit

definition routes :: "(u32 \<times> handler) list" where
  "routes =
     [(to_u32 ENode OnLine, HOnline),
      (to_u32 ENode OffLine, HOffline),
      (to_u32 ENode OnLineAck, HOnlineAck),
      (to_u32 EMessage SendText, HMessage),
      (to_u32 EMessage MessageAck, HMessageAck),
      (to_u32 EWitness Tick, HTick),
      (to_u32 EWitness Validate, HWitnessValidate),
      (to_u32 EWitness ValidateAck, HWitnessValidateAck),
      (to_u32 ENode NodeSyncRequest, HNodeSync),
      (to_u32 ENode NodeSyncResponse, HNodeSyncResponse),
      (to_u32 ENode SeedSyncRequest, HSeedSyncRequest),
      (to_u32 ENode SeedSyncResponse, HSeedSyncResponse),
      (to_u32 ENode SeedSyncCommit, HSeedSyncCommit)]"

definition register :: "('r \<Rightarrow> u32 \<Rightarrow> handler \<Rightarrow> 'r) \<Rightarrow> 'r \<Rightarrow> 'r" where
  "register on router = foldl (\<lambda>r (k, h). on r k h) router routes"

text \<open>What an incoming command is dispatched to: the extractor's id, looked up.\<close>

definition dispatch :: "('r \<Rightarrow> u32 \<Rightarrow> handler option) \<Rightarrow> 'r \<Rightarrow> p2p_command \<Rightarrow> handler option" where
  "dispatch handler_of r c = handler_of r (extract_p2p_cmd_id c)"

subsection \<open>Command ids\<close>

lemma action_num_inject [simp]: "action_num a = action_num b \<longleftrightarrow> a = b"
  by (cases a; cases b) simp_all

lemma entity_num_inject [simp]: "entity_num a = entity_num b \<longleftrightarrow> a = b"
  by (cases a; cases b) simp_all

lemma to_u32_low: "to_u32 e a AND 255 = entity_num e"
  by (cases e; cases a) (simp_all add: to_u32_def)

lemma to_u32_high: "drop_bit 8 (to_u32 e a) = action_num a"
  by (cases e; cases a) (simp_all add: to_u32_def)

lemma to_u32_inject [simp]: "to_u32 e a = to_u32 e' a' \<longleftrightarrow> e = e' \<and> a = a'"
  by (metis to_u32_low to_u32_high action_num_inject entity_num_inject)

lemma routes_distinct: "distinct (map fst routes)"
  by (simp add: routes_def)

subsection \<open>The router's contract\<close>

locale tcp_router =
  fixes on :: "'r \<Rightarrow> u32 \<Rightarrow> handler \<Rightarrow> 'r"
    and handler_of :: "'r \<Rightarrow> u32 \<Rightarrow> handler option"
  assumes handler_of_on: "handler_of (on r k h) k' = (if k' = k then Some h else handler_of r k')"
begin

lemma handler_of_foldl_on:
  "distinct (map fst rs) \<Longrightarrow>
     handler_of (foldl (\<lambda>r (k, h). on r k h) r rs) k =
       (case map_of rs k of Some h \<Rightarrow> Some h | None \<Rightarrow> handler_of r k)"
proof (induction rs arbitrary: r)
  case (Cons p rs)
  obtain k0 h0 where p: "p = (k0, h0)" by fastforce
  have "map_of rs k0 = None"
    using Cons.prems p by (simp add: map_of_eq_None_iff)
  then show ?case
    using Cons p by (auto simp: handler_of_on split: option.split)
qed simp

lemma handler_of_register:
  "handler_of (register on r) k = (case map_of routes k of Some h \<Rightarrow> Some h | None \<Rightarrow> handler_of r k)"
  unfolding register_def by (rule handler_of_foldl_on [OF routes_distinct])

lemma dispatch_register:
  "dispatch handler_of (register on r) c =
     (case map_of routes (to_u32 (cmd_entity c) (cmd_action c)) of
        Some h \<Rightarrow> Some h | None \<Rightarrow> handler_of r (to_u32 (cmd_entity c) (cmd_action c)))"
  by (simp add: dispatch_def extract_p2p_cmd_id_def handler_of_register)

end

text \<open>The handler map itself, as \<^verbatim>\<open>router.handlers\<close> shows it: ids to handlers.\<close>

definition handlers_on :: "(u32, handler) hmap \<Rightarrow> u32 \<Rightarrow> handler \<Rightarrow> (u32, handler) hmap" where
  "handlers_on m k h = AList.update k h m"

interpretation handlers: tcp_router handlers_on map_of
  by unfold_locales (simp add: handlers_on_def map_laws)

subsection \<open>Properties\<close>

text \<open>
  A command id determines its command: \<open>to_u32\<close> maps distinct pairs of entity and
  action to distinct ids, so the router's table cannot confuse two commands.
\<close>

theorem to_u32_injective: "inj (\<lambda>(e, a). to_u32 e a)"
  by (auto intro!: injI)

text \<open>
  C24. On a router without other registrations, a command is dispatched to exactly the
  handler that \<open>register\<close> lists for its entity and action, and a command that is not
  listed is dispatched to no handler, for every implementation of the router that meets
  its contract.
\<close>

theorem register_dispatch:
  assumes "tcp_router on handler_of" and "\<And>k. handler_of r k = None"
  shows "dispatch handler_of (register on r) \<lparr>cmd_entity = e, cmd_action = a, cmd_data = d\<rparr> =
    (case (e, a) of
       (ENode, OnLine) \<Rightarrow> Some HOnline
     | (ENode, OffLine) \<Rightarrow> Some HOffline
     | (ENode, OnLineAck) \<Rightarrow> Some HOnlineAck
     | (EMessage, SendText) \<Rightarrow> Some HMessage
     | (EMessage, MessageAck) \<Rightarrow> Some HMessageAck
     | (EWitness, Tick) \<Rightarrow> Some HTick
     | (EWitness, Validate) \<Rightarrow> Some HWitnessValidate
     | (EWitness, ValidateAck) \<Rightarrow> Some HWitnessValidateAck
     | (ENode, NodeSyncRequest) \<Rightarrow> Some HNodeSync
     | (ENode, NodeSyncResponse) \<Rightarrow> Some HNodeSyncResponse
     | (ENode, SeedSyncRequest) \<Rightarrow> Some HSeedSyncRequest
     | (ENode, SeedSyncResponse) \<Rightarrow> Some HSeedSyncResponse
     | (ENode, SeedSyncCommit) \<Rightarrow> Some HSeedSyncCommit
     | _ \<Rightarrow> None)"
  unfolding tcp_router.dispatch_register [OF assms(1)] routes_def
  by (cases e; cases a) (simp_all add: assms(2))

theorem register_dispatch_witness:
  "dispatch map_of (register handlers_on [])
     \<lparr>cmd_entity = ENode, cmd_action = SeedSyncRequest, cmd_data = [1, 2]\<rparr> = Some HSeedSyncRequest"
  using register_dispatch [OF handlers.tcp_router_axioms, of "[]" ENode SeedSyncRequest "[1, 2]"]
  by simp

end
