(* ===== verification/Context.thy ===== *)
theory Context
  imports NodeReg Command
begin

text \<open>
  What the protocol handlers find around them: the typed slots of \<^verbatim>\<open>aex\<close>'s global
  context that the node reads and writes, the connection table, the context of one
  connection, the local account, and the third-party operations (the binary codec, the
  signature scheme, the session keys) as records of functions. The records say which
  operations the node calls; the predicates \<open>codec_ok\<close> and \<open>keypair\<close> are the
  documented behaviour that properties assume by name.
\<close>

subsection \<open>Third-party operations\<close>

text \<open>\<^verbatim>\<open>aex::tcp::types::Codec\<close>: fallible encoding and decoding of one type.\<close>

record 'a codec =
  enc :: "'a \<Rightarrow> bytes option"
  dec :: "bytes \<Rightarrow> 'a option"

definition codec_ok :: "'a codec \<Rightarrow> bool" where
  "codec_ok c \<longleftrightarrow> (\<forall>x b. enc c x = Some b \<longrightarrow> dec c b = Some x)"

text \<open>
  \<^verbatim>\<open>zz_account::FreeWebMovementAddress\<close>: the text of the address and the serialized
  key pair; signing and verification on serialized keys and signatures.
\<close>

record account =
  acc_string :: string
  acc_private_key :: bytes
  acc_public_key :: bytes

record crypto =
  cr_sign_message :: "bytes \<Rightarrow> bytes \<Rightarrow> bytes"
  cr_to_public_key :: "bytes \<Rightarrow> bytes"
  cr_to_signature :: "bytes \<Rightarrow> bytes"
  cr_verify_message :: "bytes \<Rightarrow> bytes \<Rightarrow> bytes \<Rightarrow> bool"

text \<open>An account's key pair signs what its public key verifies.\<close>

definition keypair :: "crypto \<Rightarrow> account \<Rightarrow> bool" where
  "keypair cr a \<longleftrightarrow>
     (\<forall>m. cr_verify_message cr (cr_to_public_key cr (acc_public_key a)) m
            (cr_to_signature cr (cr_sign_message cr (acc_private_key a) m)))"

text \<open>
  \<^verbatim>\<open>aex::crypto::session_key_manager::PairedSessionKey\<close>, over an abstract table
  \<^typ>\<open>'p\<close> of session keys.
\<close>

record 'p psk_ops =
  psk_create :: "'p \<Rightarrow> (bytes \<times> bytes) \<times> 'p"
  psk_establish_begins :: "'p \<Rightarrow> bytes \<Rightarrow> bytes \<Rightarrow> bytes \<Rightarrow> (string + bytes option) \<times> 'p"
  psk_establish_ends :: "'p \<Rightarrow> bytes \<Rightarrow> bytes \<Rightarrow> bytes \<Rightarrow> bytes \<Rightarrow> (string + bool) \<times> 'p"
  psk_encrypt :: "'p \<Rightarrow> bytes \<Rightarrow> bytes \<Rightarrow> bytes option"
  psk_decrypt :: "'p \<Rightarrow> bytes \<Rightarrow> bytes \<Rightarrow> bytes option"

subsection \<open>Connections\<close>

record aex_node =
  an_id :: bytes
  an_version :: nat
  an_port :: u16
  an_ips :: "(network_scope \<times> ip_addr) list"

text \<open>
  The context of one connection: the peer's socket, the peer address stored by the
  handshake (\<^verbatim>\<open>ctx.get::<String>()\<close>), and whether it has a writer.
\<close>

record conn =
  c_addr :: socket_addr
  c_peer :: "string option"
  c_writer :: bool

record conn_entry =
  ce_addr :: socket_addr
  ce_node :: "aex_node option"
  ce_context :: "conn option"

record bi_conn =
  bc_clients :: "(socket_addr, conn_entry) hmap"
  bc_servers :: "(socket_addr, conn_entry) hmap"

type_synonym connections = "(ip_addr \<times> network_scope, bi_conn) hmap"

text \<open>The entries \<^verbatim>\<open>manager.forward\<close> hands to its callback: all of them.\<close>

definition conn_entries :: "connections \<Rightarrow> conn_entry list" where
  "conn_entries cs = concat (map (\<lambda>(_, b). map snd (bc_clients b) @ map snd (bc_servers b)) cs)"

subsection \<open>The global context\<close>

text \<open>The part of \<^verbatim>\<open>crate::node::Node\<close> that the handlers use.\<close>

record p2p_node =
  n_registry :: node_registry
  n_peer_addrs :: "socket_addr list"

record 'p global_ctx =
  g_addr :: socket_addr
  g_local_node :: aex_node
  g_address :: "account option"
  g_psk :: "'p option"
  g_node :: "p2p_node option"
  g_connections :: connections

text \<open>Updating the registry of the node in the context, if there is one.\<close>

definition on_registry :: "(node_registry \<Rightarrow> node_registry) \<Rightarrow> 'p global_ctx \<Rightarrow> 'p global_ctx" where
  "on_registry f g = g\<lparr>g_node := map_option (\<lambda>n. n\<lparr>n_registry := f (n_registry n)\<rparr>) (g_node g)\<rparr>"

definition g_registry :: "'p global_ctx \<Rightarrow> node_registry option" where
  "g_registry g = map_option n_registry (g_node g)"

definition gctx_ok :: "'p global_ctx \<Rightarrow> bool" where
  "gctx_ok g \<longleftrightarrow> (case g_node g of None \<Rightarrow> True | Some n \<Rightarrow> registry_ok (n_registry n))"

subsection \<open>Lemmas\<close>

lemma codec_okD: "codec_ok c \<Longrightarrow> enc c x = Some b \<Longrightarrow> dec c b = Some x"
  by (simp add: codec_ok_def)

text \<open>A codec by enumeration of values and their encodings.\<close>

definition pair_codec :: "('a \<times> bytes) list \<Rightarrow> 'a codec" where
  "pair_codec m = \<lparr>enc = map_of m, dec = map_of (map prod.swap m)\<rparr>"

lemma codec_ok_pairs: "distinct (map snd m) \<Longrightarrow> codec_ok (pair_codec m)"
  by (force simp: codec_ok_def pair_codec_def comp_def dest!: map_of_SomeD intro!: map_of_is_SomeI)

lemma keypairD:
  "keypair cr a \<Longrightarrow> cr_verify_message cr (cr_to_public_key cr (acc_public_key a)) m
     (cr_to_signature cr (cr_sign_message cr (acc_private_key a) m))"
  by (simp add: keypair_def)

lemma keypair_acc_string [simp]: "keypair cr (a\<lparr>acc_string := s\<rparr>) = keypair cr a"
  by (simp add: keypair_def)

lemma on_registry_frame [simp]:
  "g_addr (on_registry f g) = g_addr g"
  "g_local_node (on_registry f g) = g_local_node g"
  "g_address (on_registry f g) = g_address g"
  "g_psk (on_registry f g) = g_psk g"
  "g_connections (on_registry f g) = g_connections g"
  by (simp_all add: on_registry_def)

lemma g_node_on_registry:
  "g_node (on_registry f g) = map_option (\<lambda>n. n\<lparr>n_registry := f (n_registry n)\<rparr>) (g_node g)"
  by (simp add: on_registry_def)

lemma g_registry_on_registry [simp]: "g_registry (on_registry f g) = map_option f (g_registry g)"
  by (cases "g_node g") (simp_all add: on_registry_def g_registry_def)

lemma gctx_ok_on_registry:
  "gctx_ok g \<Longrightarrow> (\<And>r. registry_ok r \<Longrightarrow> registry_ok (f r)) \<Longrightarrow> gctx_ok (on_registry f g)"
  by (auto simp: gctx_ok_def on_registry_def split: option.splits)

lemma gctx_ok_iff: "gctx_ok g \<longleftrightarrow> (\<forall>r. g_registry g = Some r \<longrightarrow> registry_ok r)"
  by (auto simp: gctx_ok_def g_registry_def split: option.splits)

end
