(* ===== verification/Frame.thy ===== *)
theory Frame
  imports Context
begin

text \<open>
  Signed frames (\<^verbatim>\<open>src/protocols/frame.rs\<close>): the body, signing, verification, the
  choice of the session key and sending. Fallible steps are options, and \<open>frame_send\<close>
  returns a sum whose left side names the step that failed. The nonce, which the code
  draws at random, is an argument.

  Shown here: a built frame verifies and yields its command again, from the frame and from
  its bytes; validation and verification agree; what a successful send puts on the wire is
  exactly what the receiver reads; which session key encrypts; and that the signature does
  not bind the claimed address.
\<close>

record frame_body =
  fb_version :: u8
  fb_address :: string
  fb_public_key :: bytes
  fb_nonce :: u64
  fb_data_length :: u32
  fb_data :: bytes

record p2p_frame =
  fr_body :: frame_body
  fr_signature :: bytes

text \<open>The text message that travels in a \<^const>\<open>SendText\<close> frame.\<close>

record message_command =
  m_sender :: string
  m_receiver :: string
  m_request_id :: u64
  m_timestamp :: u128
  m_message :: string

record frame_env =
  fe_body :: "frame_body codec"
  fe_cmd :: "p2p_command codec"
  fe_frame :: "p2p_frame codec"
  fe_msg :: "message_command codec"
  fe_crypto :: crypto

definition frame_env_ok :: "'z frame_env_scheme \<Rightarrow> bool" where
  "frame_env_ok fe \<longleftrightarrow> codec_ok (fe_body fe) \<and> codec_ok (fe_cmd fe) \<and> codec_ok (fe_frame fe)"

subsection \<open>Bodies\<close>

definition frame_body_new ::
  "u8 \<Rightarrow> string \<Rightarrow> bytes \<Rightarrow> u64 \<Rightarrow> u32 \<Rightarrow> bytes \<Rightarrow> frame_body" where
  "frame_body_new v a pk n len d =
     \<lparr>fb_version = v, fb_address = a, fb_public_key = pk, fb_nonce = n, fb_data_length = len,
      fb_data = d\<rparr>"

definition data_from_command :: "'z frame_env_scheme \<Rightarrow> p2p_command \<Rightarrow> frame_body \<Rightarrow> frame_body option" where
  "data_from_command fe cmd b = map_option (\<lambda>d. b\<lparr>fb_data := d\<rparr>) (enc (fe_cmd fe) cmd)"

definition command_from_data :: "'z frame_env_scheme \<Rightarrow> frame_body \<Rightarrow> p2p_command option" where
  "command_from_data fe b = dec (fe_cmd fe) (fb_data b)"

subsection \<open>Signing and verification\<close>

definition frame_sign :: "'z frame_env_scheme \<Rightarrow> frame_body \<Rightarrow> account \<Rightarrow> p2p_frame option" where
  "frame_sign fe body signer =
     map_option
       (\<lambda>b. \<lparr>fr_body = body,
             fr_signature = cr_sign_message (fe_crypto fe) (acc_private_key signer) b\<rparr>)
       (enc (fe_body fe) body)"

definition signature_valid :: "'z frame_env_scheme \<Rightarrow> p2p_frame \<Rightarrow> bytes \<Rightarrow> bool" where
  "signature_valid fe f b =
     cr_verify_message (fe_crypto fe)
       (cr_to_public_key (fe_crypto fe) (fb_public_key (fr_body f))) b
       (cr_to_signature (fe_crypto fe) (fr_signature f))"

definition frame_verify :: "'z frame_env_scheme \<Rightarrow> p2p_frame \<Rightarrow> p2p_frame option" where
  "frame_verify fe f =
     Option.bind (enc (fe_body fe) (fr_body f))
       (\<lambda>b. if \<not> signature_valid fe f b then None else Some f)"

definition verify_bytes :: "'z frame_env_scheme \<Rightarrow> bytes \<Rightarrow> p2p_frame option" where
  "verify_bytes fe b = Option.bind (dec (fe_frame fe) b) (frame_verify fe)"

definition frame_build ::
  "'z frame_env_scheme \<Rightarrow> account \<Rightarrow> p2p_command \<Rightarrow> u8 \<Rightarrow> u64 \<Rightarrow> p2p_frame option" where
  "frame_build fe acc cmd version nonce =
     Option.bind (enc (fe_cmd fe) cmd)
       (\<lambda>cmd_bytes.
          frame_sign fe
            \<lparr>fb_version = version, fb_address = acc_string acc, fb_public_key = acc_public_key acc,
             fb_nonce = nonce, fb_data_length = word_of_nat (length cmd_bytes), fb_data = cmd_bytes\<rparr>
            acc)"

text \<open>The receiving side's \<^verbatim>\<open>Frame\<close> trait.\<close>

definition frame_validate :: "'z frame_env_scheme \<Rightarrow> p2p_frame \<Rightarrow> bool" where
  "frame_validate fe f =
     (case enc (fe_body fe) (fr_body f) of
        None \<Rightarrow> False
      | Some b \<Rightarrow> if \<not> signature_valid fe f b then False else True)"

definition frame_trait_sign :: "'z frame_env_scheme \<Rightarrow> p2p_frame \<Rightarrow> (bytes \<Rightarrow> bytes) \<Rightarrow> bytes" where
  "frame_trait_sign fe f signer =
     (case enc (fe_body fe) (fr_body f) of Some raw \<Rightarrow> signer raw | None \<Rightarrow> [])"

definition frame_payload :: "'z frame_env_scheme \<Rightarrow> p2p_frame \<Rightarrow> bytes option" where
  "frame_payload fe f = enc (fe_body fe) (fr_body f)"

definition frame_command :: "p2p_frame \<Rightarrow> bytes option" where
  "frame_command f = Some (fb_data (fr_body f))"

definition frame_is_flat :: "p2p_frame \<Rightarrow> bool" where
  "frame_is_flat f = False"

subsection \<open>Sending\<close>

datatype send_error = EncodeFailed | AddressNotSet | EncryptFailed | BuildFailed | FrameEncodeFailed

text \<open>
  The session key that encrypts: the receiver of a text message, the peer of the
  connection for a receipt (from the connection, else from the registry), the node's own
  address otherwise.
\<close>

definition send_key ::
  "'z frame_env_scheme \<Rightarrow> 'p global_ctx \<Rightarrow> conn \<Rightarrow> string \<Rightarrow> action \<Rightarrow> bytes \<Rightarrow> bytes" where
  "send_key fe g c addr_str act data =
     (if act = SendText then
        (case dec (fe_msg fe) data of
           Some msg \<Rightarrow> as_bytes (m_receiver msg)
         | None \<Rightarrow> as_bytes addr_str)
      else if act = MessageAck then
        (case c_peer c of
           Some peer_addr \<Rightarrow> as_bytes peer_addr
         | None \<Rightarrow>
             (case g_node g of
                Some node \<Rightarrow>
                  (case nr_find_node_for_seed (c_addr c) (n_registry node) of
                     Some peer_addr \<Rightarrow> as_bytes peer_addr
                   | None \<Rightarrow> as_bytes addr_str)
              | None \<Rightarrow> as_bytes addr_str))
      else as_bytes addr_str)"

text \<open>
  \<open>frame_send\<close> returns the bytes it writes to the connection (none when the
  connection has no writer): a failed write is logged and reported as success.
\<close>

definition frame_send ::
  "'z frame_env_scheme \<Rightarrow> 'p psk_ops \<Rightarrow> 'c codec \<Rightarrow> u64 \<Rightarrow> 'p global_ctx \<Rightarrow> conn \<Rightarrow>
   'c option \<Rightarrow> entity \<Rightarrow> action \<Rightarrow> bool \<Rightarrow> send_error + bytes option" where
  "frame_send fe psk cc nonce g c command ent act is_encrypt =
     (case (case command of Some cmd \<Rightarrow> enc cc cmd | None \<Rightarrow> Some []) of
        None \<Rightarrow> Inl EncodeFailed
      | Some data \<Rightarrow>
          (case g_address g of
             None \<Rightarrow> Inl AddressNotSet
           | Some acc \<Rightarrow>
               (case (if is_encrypt
                      then (case g_psk g of
                              Some p \<Rightarrow> psk_encrypt psk p (send_key fe g c (acc_string acc) act data) data
                            | None \<Rightarrow> Some data)
                      else Some data) of
                  None \<Rightarrow> Inl EncryptFailed
                | Some payload \<Rightarrow>
                    (case frame_build fe acc (p2p_command_new ent act payload) 1 nonce of
                       None \<Rightarrow> Inl BuildFailed
                     | Some f \<Rightarrow>
                         (case enc (fe_frame fe) f of
                            None \<Rightarrow> Inl FrameEncodeFailed
                          | Some bs \<Rightarrow> Inr (if c_writer c then Some bs else None))))))"

text \<open>\<open>notify\<close> forwards the bytes of a frame, unchanged, to every connection that can be written.\<close>

definition writable :: "conn_entry \<Rightarrow> bool" where
  "writable e \<longleftrightarrow> (case ce_context e of Some c \<Rightarrow> c_writer c | None \<Rightarrow> False)"

definition frame_notify :: "'z frame_env_scheme \<Rightarrow> 'p global_ctx \<Rightarrow> p2p_frame \<Rightarrow> (socket_addr \<times> bytes) list" where
  "frame_notify fe g f =
     (case enc (fe_frame fe) f of
        None \<Rightarrow> []
      | Some bs \<Rightarrow> map (\<lambda>e. (ce_addr e, bs)) (filter writable (conn_entries (g_connections g))))"

text \<open>
  \<^verbatim>\<open>notify.rs\<close>: a command for every connection with a context, each in a frame of its
  own; a connection on which sending fails does not stop the others.
\<close>

definition notify_entry ::
  "'z frame_env_scheme \<Rightarrow> 'p psk_ops \<Rightarrow> 'c codec \<Rightarrow> (nat \<Rightarrow> u64) \<Rightarrow> 'p global_ctx \<Rightarrow> 'c \<Rightarrow> entity \<Rightarrow> action \<Rightarrow>
   bool \<Rightarrow> nat \<times> conn_entry \<Rightarrow> (socket_addr \<times> bytes) list" where
  "notify_entry fe psk cc nonce g cmd ent act is_encrypt p =
     (case ce_context (snd p) of
        None \<Rightarrow> []
      | Some c \<Rightarrow>
          (case frame_send fe psk cc (nonce (fst p)) g c (Some cmd) ent act is_encrypt of
             Inr (Some bs) \<Rightarrow> [(ce_addr (snd p), bs)]
           | _ \<Rightarrow> []))"

definition notify ::
  "'z frame_env_scheme \<Rightarrow> 'p psk_ops \<Rightarrow> 'c codec \<Rightarrow> (nat \<Rightarrow> u64) \<Rightarrow> 'p global_ctx \<Rightarrow> 'c \<Rightarrow> entity \<Rightarrow> action \<Rightarrow>
   bool \<Rightarrow> (socket_addr \<times> bytes) list" where
  "notify fe psk cc nonce g cmd ent act is_encrypt =
     concat (map (notify_entry fe psk cc nonce g cmd ent act is_encrypt)
       (enumerate 0 (conn_entries (g_connections g))))"

subsection \<open>Lemmas\<close>

lemma frame_build_Some:
  "frame_build fe acc cmd v n = Some f \<longleftrightarrow>
     (\<exists>d b. enc (fe_cmd fe) cmd = Some d \<and>
        fr_body f = frame_body_new v (acc_string acc) (acc_public_key acc) n (word_of_nat (length d)) d \<and>
        enc (fe_body fe) (fr_body f) = Some b \<and>
        fr_signature f = cr_sign_message (fe_crypto fe) (acc_private_key acc) b)"
  by (cases f)
    (auto simp: frame_build_def frame_sign_def frame_body_new_def bind_eq_Some_conv)

lemma frame_validate_iff: "frame_validate fe f \<longleftrightarrow> frame_verify fe f = Some f"
  by (auto simp: frame_validate_def frame_verify_def split: option.split if_splits)

lemma frame_verify_Some: "frame_verify fe f = Some f' \<Longrightarrow> f' = f"
  by (auto simp: frame_verify_def bind_eq_Some_conv split: if_splits)

lemma frame_sign_verify:
  assumes "keypair (fe_crypto fe) acc" "fb_public_key body = acc_public_key acc"
    and "frame_sign fe body acc = Some f"
  shows "frame_verify fe f = Some f"
  using assms keypairD [OF assms(1)]
  by (auto simp: frame_sign_def frame_verify_def signature_valid_def)

lemma frame_build_verify:
  "keypair (fe_crypto fe) acc \<Longrightarrow> frame_build fe acc cmd v n = Some f \<Longrightarrow> frame_verify fe f = Some f"
  by (auto simp: frame_build_def bind_eq_Some_conv elim!: frame_sign_verify [rotated 2])

lemma frame_build_command:
  "frame_env_ok fe \<Longrightarrow> frame_build fe acc cmd v n = Some f \<Longrightarrow> command_from_data fe (fr_body f) = Some cmd"
  by (auto simp: frame_build_Some frame_env_ok_def command_from_data_def frame_body_new_def
      dest: codec_okD)

lemma frame_send_Inr:
  "frame_send fe psk cc nonce g c command ent act is_encrypt = Inr r \<Longrightarrow>
     \<exists>data acc payload f bs.
       (case command of Some cmd \<Rightarrow> enc cc cmd | None \<Rightarrow> Some []) = Some data \<and>
       g_address g = Some acc \<and>
       (if is_encrypt
        then (case g_psk g of
                Some p \<Rightarrow> psk_encrypt psk p (send_key fe g c (acc_string acc) act data) data
              | None \<Rightarrow> Some data)
        else Some data) = Some payload \<and>
       frame_build fe acc (p2p_command_new ent act payload) 1 nonce = Some f \<and>
       enc (fe_frame fe) f = Some bs \<and> r = (if c_writer c then Some bs else None)"
  unfolding frame_send_def
  by (cases "case command of Some cmd \<Rightarrow> enc cc cmd | None \<Rightarrow> Some []"; cases "g_address g")
    (auto split: option.splits if_splits)

lemma frame_send_delivers':
  assumes "frame_env_ok fe" "codec_ok cc" "g_address g = Some acc" "keypair (fe_crypto fe) acc"
    and "frame_send fe psk cc nonce g c (Some x) ent act False = Inr (Some bs)"
    and "verify_bytes fe bs = Some f" "command_from_data fe (fr_body f) = Some cmd"
  shows "fb_address (fr_body f) = acc_string acc \<and> cmd_entity cmd = ent \<and> cmd_action cmd = act \<and>
    dec cc (cmd_data cmd) = Some x"
proof -
  from frame_send_Inr [OF assms(5)] assms(3) obtain data f' where
    d: "enc cc x = Some data" and f': "frame_build fe acc (p2p_command_new ent act data) 1 nonce = Some f'"
    and bs: "enc (fe_frame fe) f' = Some bs"
    by (auto split: if_splits)
  have "f = f'"
    using assms(1,6) bs frame_verify_Some [of fe f' f]
    by (auto simp: verify_bytes_def frame_env_ok_def codec_okD)
  then show ?thesis
    using frame_build_command [OF assms(1) f'] codec_okD [OF assms(2) d] f' assms(7)
    by (auto simp: p2p_command_new_def frame_build_Some frame_body_new_def)
qed

subsection \<open>Properties\<close>

text \<open>
  C14. A frame built from a command and an account is accepted by its receiver: its bytes
  decode and verify to the same frame, the receiver's validation succeeds, the command is
  read back as it was given, and the frame carries the account's address and key and the
  length of the encoded command.
\<close>

theorem frame_roundtrip:
  assumes "frame_env_ok fe" "keypair (fe_crypto fe) acc"
    and "frame_build fe acc cmd v nonce = Some f" "enc (fe_frame fe) f = Some bs"
  shows "verify_bytes fe bs = Some f \<and> frame_validate fe f \<and>
    command_from_data fe (fr_body f) = Some cmd \<and> fb_address (fr_body f) = acc_string acc \<and>
    fb_public_key (fr_body f) = acc_public_key acc \<and>
    unat (fb_data_length (fr_body f)) = length (fb_data (fr_body f)) mod 2 ^ 32"
proof -
  have "verify_bytes fe bs = Some f"
    using assms frame_build_verify [OF assms(2,3)]
    by (simp add: verify_bytes_def frame_env_ok_def codec_okD)
  moreover have "frame_validate fe f"
    unfolding frame_validate_iff by (rule frame_build_verify [OF assms(2,3)])
  moreover have "command_from_data fe (fr_body f) = Some cmd"
    by (rule frame_build_command [OF assms(1,3)])
  ultimately show ?thesis
    using assms(3) by (auto simp: frame_build_Some frame_body_new_def unat_of_nat)
qed

text \<open>
  A send without encryption delivers: when it writes bytes, the receiver's verification of
  these bytes succeeds and yields a command with the given entity and action whose data
  decodes to the value that was sent, under the sender's address.
\<close>

theorem frame_send_delivers:
  assumes "frame_env_ok fe" "codec_ok cc" "g_address g = Some acc" "keypair (fe_crypto fe) acc"
    and "frame_send fe psk cc nonce g c (Some x) ent act False = Inr (Some bs)"
  shows "\<exists>f cmd. verify_bytes fe bs = Some f \<and> command_from_data fe (fr_body f) = Some cmd \<and>
    fb_address (fr_body f) = acc_string acc \<and> cmd_entity cmd = ent \<and> cmd_action cmd = act \<and>
    dec cc (cmd_data cmd) = Some x"
proof -
  from frame_send_Inr [OF assms(5)] assms(3) obtain data f where
    d: "enc cc x = Some data" and f: "frame_build fe acc (p2p_command_new ent act data) 1 nonce = Some f"
    and bs: "enc (fe_frame fe) f = Some bs"
    by (auto split: if_splits)
  have "verify_bytes fe bs = Some f"
    using assms(1) bs frame_build_verify [OF assms(4) f]
    by (simp add: verify_bytes_def frame_env_ok_def codec_okD)
  then show ?thesis
    using frame_build_command [OF assms(1) f] codec_okD [OF assms(2) d] f
    by (auto simp: p2p_command_new_def frame_build_Some frame_body_new_def)
qed

text \<open>
  The key that encrypts a receipt on a connection without a stored peer address: on a
  well-formed registry it is the address of a node that lists the connection's socket
  among its seeds if there is one, and the node's own address otherwise.
\<close>

theorem ack_key_choice:
  assumes "g_node g = Some n" "registry_ok (n_registry n)" "c_peer c = None"
  shows "(\<exists>a. send_key fe g c self MessageAck data = as_bytes a \<and>
        c_addr c \<in> set (nr_get_seeds_for_node a (n_registry n))) \<or>
    send_key fe g c self MessageAck data = as_bytes self \<and>
      (\<forall>a. c_addr c \<notin> set (nr_get_seeds_for_node a (n_registry n)))"
  using find_node_for_seed_Some [of "c_addr c" "n_registry n"]
    find_node_for_seed_None [of "c_addr c" "n_registry n"]
  by (cases "nr_find_node_for_seed (c_addr c) (n_registry n)")
    (auto simp: send_key_def assms seeds_for_node_iff)

text \<open>
  The signature does not bind the claimed address: whoever holds some key pair can build a
  frame that claims any address at all, and verification accepts it.
\<close>

theorem frame_address_unbound:
  assumes "keypair (fe_crypto fe) acc"
    and "frame_build fe (acc\<lparr>acc_string := claimed\<rparr>) cmd v nonce = Some f"
  shows "frame_verify fe f = Some f \<and> fb_address (fr_body f) = claimed \<and>
    fb_public_key (fr_body f) = acc_public_key acc"
  using frame_build_verify [OF _ assms(2)] assms
  by (auto simp: frame_build_Some frame_body_new_def)

subsection \<open>Witnesses\<close>

text \<open>Concrete codecs by enumeration and a signature that repeats key and message.\<close>

definition demo_cmd :: p2p_command where
  "demo_cmd = \<lparr>cmd_entity = ENode, cmd_action = OnLine, cmd_data = [7]\<rparr>"

definition demo_account :: account where
  "demo_account = \<lparr>acc_string = ''me'', acc_private_key = [1], acc_public_key = [1]\<rparr>"

definition demo_crypto :: crypto where
  "demo_crypto = \<lparr>cr_sign_message = (@), cr_to_public_key = id, cr_to_signature = id,
     cr_verify_message = (\<lambda>pk m s. s = pk @ m)\<rparr>"

definition demo_body :: "string \<Rightarrow> frame_body" where
  "demo_body a = frame_body_new 1 a [1] 5 1 [9]"

definition demo_frame :: "string \<Rightarrow> p2p_frame" where
  "demo_frame a = \<lparr>fr_body = demo_body a, fr_signature = [1, 3]\<rparr>"

definition demo_env :: "string \<Rightarrow> frame_env" where
  "demo_env a =
     \<lparr>fe_body = pair_codec [(demo_body a, [3])], fe_cmd = pair_codec [(demo_cmd, [9])],
      fe_frame = pair_codec [(demo_frame a, [4])], fe_msg = pair_codec [], fe_crypto = demo_crypto\<rparr>"

lemma demo_ok: "frame_env_ok (demo_env a)" "keypair (fe_crypto (demo_env a)) demo_account"
  by (simp_all add: demo_env_def frame_env_ok_def codec_ok_pairs keypair_def demo_crypto_def
      demo_account_def)

lemma demo_build:
  "frame_build (demo_env a) (demo_account\<lparr>acc_string := a\<rparr>) demo_cmd 1 5 = Some (demo_frame a)"
  by (simp add: frame_build_def frame_sign_def demo_env_def demo_account_def demo_frame_def
      demo_body_def demo_cmd_def demo_crypto_def pair_codec_def frame_body_new_def)

lemma demo_account_me: "demo_account\<lparr>acc_string := ''me''\<rparr> = demo_account"
  by (simp add: demo_account_def)

theorem frame_roundtrip_witness:
  "verify_bytes (demo_env ''me'') [4] = Some (demo_frame ''me'') \<and>
   command_from_data (demo_env ''me'') (fr_body (demo_frame ''me'')) = Some demo_cmd"
  using frame_roundtrip [OF demo_ok, of "''me''" demo_cmd 1 5 "demo_frame ''me''" "[4]"]
    demo_build [of "''me''"] demo_account_me
  by (simp add: demo_env_def pair_codec_def)

definition demo_gctx :: "nat global_ctx" where
  "demo_gctx = \<lparr>g_addr = SockV4 (Ipv4 10 0 0 1) 1090,
     g_local_node = \<lparr>an_id = [1], an_version = 1, an_port = 1090, an_ips = []\<rparr>,
     g_address = Some demo_account, g_psk = None,
     g_node = Some \<lparr>n_registry = nr_register 1 ''peer'' (SockV4 (Ipv4 10 0 0 2) 1090) Intranet nr_new,
                    n_peer_addrs = []\<rparr>,
     g_connections = []\<rparr>"

definition demo_conn :: conn where
  "demo_conn = \<lparr>c_addr = SockV4 (Ipv4 10 0 0 2) 1090, c_peer = None, c_writer = True\<rparr>"

definition demo_psk :: "nat psk_ops" where
  "demo_psk = \<lparr>psk_create = (\<lambda>p. (([1], [2]), p)),
     psk_establish_begins = (\<lambda>p a b k. (Inr None, p)),
     psk_establish_ends = (\<lambda>p s a b k. (Inr True, p)),
     psk_encrypt = (\<lambda>p k d. Some d), psk_decrypt = (\<lambda>p k d. Some d)\<rparr>"

theorem frame_send_delivers_witness:
  "\<exists>f cmd. verify_bytes (demo_env ''me'') [4] = Some f \<and>
     command_from_data (demo_env ''me'') (fr_body f) = Some cmd \<and>
     fb_address (fr_body f) = ''me'' \<and> cmd_entity cmd = ENode \<and> cmd_action cmd = OnLine \<and>
     dec (pair_codec [(True, [7])]) (cmd_data cmd) = Some True"
proof -
  have "frame_send (demo_env ''me'') demo_psk (pair_codec [(True, [7])]) 5 demo_gctx demo_conn
      (Some True) ENode OnLine False = Inr (Some [4])"
    using demo_build [of "''me''"] demo_account_me
    by (simp add: frame_send_def demo_gctx_def demo_conn_def p2p_command_new_def
        demo_cmd_def [symmetric] pair_codec_def demo_env_def)
  then show ?thesis
    using frame_send_delivers [OF demo_ok(1) _ _ demo_ok(2), of "pair_codec [(True, [7])]"
        demo_gctx "''me''" demo_psk 5 demo_conn True ENode OnLine "[4]"]
    by (simp add: codec_ok_pairs demo_gctx_def demo_account_def)
qed

theorem ack_key_choice_witness:
  "\<exists>a. send_key (demo_env ''me'') demo_gctx demo_conn ''me'' MessageAck [] = as_bytes a \<and>
     c_addr demo_conn \<in> set (nr_get_seeds_for_node a
       (nr_register 1 ''peer'' (SockV4 (Ipv4 10 0 0 2) 1090) Intranet nr_new))"
proof -
  let ?r = "nr_register 1 ''peer'' (SockV4 (Ipv4 10 0 0 2) 1090) Intranet nr_new"
  have "c_addr demo_conn \<in> set (nr_get_seeds_for_node ''peer'' ?r)"
    by (simp add: demo_conn_def nr_get_seeds_for_node_def nr_register_def nr_new_def
        seed_direction_def entry_new_def)
  moreover have "registry_ok ?r"
    by (auto simp: nr_new_def)
  ultimately show ?thesis
    using ack_key_choice [of demo_gctx "\<lparr>n_registry = ?r, n_peer_addrs = []\<rparr>" demo_conn
        "demo_env ''me''" "''me''" "[]"]
    by (auto simp: demo_gctx_def demo_conn_def)
qed

theorem frame_address_unbound_witness:
  "frame_verify (demo_env ''victim'') (demo_frame ''victim'') = Some (demo_frame ''victim'') \<and>
   fb_address (fr_body (demo_frame ''victim'')) = ''victim''"
  using frame_address_unbound [OF demo_ok(2) demo_build [of "''victim''"]] by simp

end
