(* ===== verification/Seeds.thy ===== *)
theory Seeds
  imports NodeReg
begin

text \<open>
  Seed records and the sealed seed list that travels in handshake and tick commands
  (\<^verbatim>\<open>SeedRecord\<close> and \<^verbatim>\<open>SeedsCommand\<close> of \<^verbatim>\<open>src/protocols/commands/ack.rs\<close>).
  The hash function is a parameter: \<^verbatim>\<open>Sha256\<close> over the concatenation of the pieces
  that the code feeds to the hasher. Records are stamped with successive readings of a
  clock.

  The locale \<open>sealed_set\<close> is the contract of a list with a checksum: sealing normalises
  the list and produces something that verifies. \<open>SeedsCommand\<close> is an instance here,
  \<open>SeedSet\<close> in the theory of seed synchronisation.
\<close>

record seed_record =
  sr_address :: string
  sr_node_address :: string
  sr_first_seen :: i64

record seeds_command =
  sc_seeds :: "seed_record list"
  sc_hash :: bytes

definition seed_record_new :: "i64 \<Rightarrow> string \<Rightarrow> string \<Rightarrow> seed_record" where
  "seed_record_new now address node_address =
     \<lparr>sr_address = address, sr_node_address = node_address, sr_first_seen = now\<rparr>"

definition record_bytes :: "seed_record \<Rightarrow> bytes" where
  "record_bytes s = as_bytes (sr_node_address s) @ i64_le_bytes (sr_first_seen s)"

definition seed_record_hash :: "(bytes \<Rightarrow> bytes) \<Rightarrow> seed_record \<Rightarrow> bytes" where
  "seed_record_hash sha256 s = sha256 (record_bytes s)"

definition seeds_digest :: "(bytes \<Rightarrow> bytes) \<Rightarrow> seed_record list \<Rightarrow> bytes" where
  "seeds_digest sha256 seeds = sha256 (concat (map record_bytes (sort_key sr_node_address seeds)))"

definition seeds_command_new :: "(bytes \<Rightarrow> bytes) \<Rightarrow> seed_record list \<Rightarrow> seeds_command" where
  "seeds_command_new sha256 seeds =
     (let deduped = dedup_by sr_address {} seeds
      in \<lparr>sc_seeds = deduped, sc_hash = seeds_digest sha256 deduped\<rparr>)"

definition seeds_command_verify :: "(bytes \<Rightarrow> bytes) \<Rightarrow> seeds_command \<Rightarrow> bool" where
  "seeds_command_verify sha256 sc \<longleftrightarrow> seeds_digest sha256 (sc_seeds sc) = sc_hash sc"

text \<open>
  The records of a registry, as every handler collects them from \<open>get_all_seeds\<close>; the
  clock is read once per record.
\<close>

definition registry_records :: "(nat \<Rightarrow> i64) \<Rightarrow> node_registry \<Rightarrow> seed_record list" where
  "registry_records clock reg =
     map (\<lambda>(i, s, na). seed_record_new (clock i) (show_sock s) na) (enumerate 0 (nr_get_all_seeds reg))"

text \<open>
  Registering the records of a received list whose socket text parses, as the handlers of
  the handshake do.
\<close>

definition register_record ::
  "(ip_addr \<Rightarrow> network_scope) \<Rightarrow> u64 \<Rightarrow> seed_record \<Rightarrow> node_registry \<Rightarrow> node_registry" where
  "register_record from_ip now s reg =
     (case parse_sock (sr_address s) of
        Some a \<Rightarrow> nr_register now (sr_node_address s) a (from_ip (sock_ip a)) reg
      | None \<Rightarrow> reg)"

definition register_records ::
  "(ip_addr \<Rightarrow> network_scope) \<Rightarrow> u64 \<Rightarrow> seed_record list \<Rightarrow> node_registry \<Rightarrow> node_registry" where
  "register_records from_ip now seeds reg = fold (register_record from_ip now) seeds reg"

subsection \<open>Sealed lists\<close>

locale sealed_set =
  fixes seal :: "'i list \<Rightarrow> 's"
    and items :: "'s \<Rightarrow> 'i list"
    and verify :: "'s \<Rightarrow> bool"
    and norm :: "'i list \<Rightarrow> 'i list"
  assumes verify_seal: "verify (seal xs)"
    and items_seal: "items (seal xs) = norm xs"
    and norm_subset: "set (norm xs) \<subseteq> set xs"
    and norm_norm: "norm (norm xs) = norm xs"
begin

lemma reseal: "items (seal (items (seal xs))) = items (seal xs)"
  by (simp add: items_seal norm_norm)

lemma seal_sound: "verify (seal xs) \<and> set (items (seal xs)) \<subseteq> set xs"
  using norm_subset [of xs] by (simp add: verify_seal items_seal)

text \<open>Sealing the union of two sealed lists keeps to what the two contained.\<close>

lemma seal_union: "set (items (seal (items (seal xs) @ items (seal ys)))) \<subseteq> set xs \<union> set ys"
  using norm_subset [of xs] norm_subset [of ys] norm_subset [of "norm xs @ norm ys"]
  by (auto simp: items_seal)

end

interpretation sealed_seeds:
  sealed_set "seeds_command_new sha256" sc_seeds "seeds_command_verify sha256" "dedup_by sr_address {}"
  for sha256 :: "bytes \<Rightarrow> bytes"
proof unfold_locales
  fix xs
  show "seeds_command_verify sha256 (seeds_command_new sha256 xs)"
    by (simp add: seeds_command_verify_def seeds_command_new_def Let_def)
  show "sc_seeds (seeds_command_new sha256 xs) = dedup_by sr_address {} xs"
    by (simp add: seeds_command_new_def Let_def)
  show "set (dedup_by sr_address {} xs) \<subseteq> set xs"
    by (rule dedup_by_set)
  show "dedup_by sr_address {} (dedup_by sr_address {} xs) = dedup_by sr_address {} xs"
    by (rule dedup_by_id) (simp_all add: dedup_by_distinct)
qed

subsection \<open>Lemmas\<close>

lemma map_sort_key_eq:
  "(\<And>x. x \<in> set xs \<Longrightarrow> g x = h (k x)) \<Longrightarrow> map g (sort_key k xs) = map h (sort (map k xs))"
proof -
  assume g: "\<And>x. x \<in> set xs \<Longrightarrow> g x = h (k x)"
  have "map g (sort_key k xs) = map h (map k (sort_key k xs))"
    using g by simp
  also have "map k (sort_key k xs) = sort (map k xs)"
    by (metis mset_map mset_sort properties_for_sort sorted_sort_key)
  finally show ?thesis .
qed

text \<open>
  When all records of a node carry the same timestamp the digest does not depend on the
  order of the records.
\<close>

lemma seeds_digest_perm:
  assumes "mset xs = mset ys"
    and "\<And>x y. x \<in> set xs \<Longrightarrow> y \<in> set xs \<Longrightarrow> sr_node_address x = sr_node_address y \<Longrightarrow>
           sr_first_seen x = sr_first_seen y"
  shows "seeds_digest sha256 xs = seeds_digest sha256 ys"
proof -
  define h where "h a = (case find (\<lambda>x. sr_node_address x = a) xs of
      Some x \<Rightarrow> record_bytes x | None \<Rightarrow> [])" for a
  have mem: "set ys = set xs"
    using assms(1) by (metis set_mset_mset)
  have h: "record_bytes x = h (sr_node_address x)" if x: "x \<in> set xs" for x
  proof -
    obtain y where f: "find (\<lambda>y. sr_node_address y = sr_node_address x) xs = Some y"
      using x by (cases "find (\<lambda>y. sr_node_address y = sr_node_address x) xs") (auto simp: find_None_iff)
    then have "y \<in> set xs" "sr_node_address y = sr_node_address x"
      by (auto simp: find_Some_iff)
    then show ?thesis
      using f assms(2) [of x y] x by (simp add: h_def record_bytes_def)
  qed
  have "map record_bytes (sort_key sr_node_address xs) = map h (sort (map sr_node_address xs))"
    by (rule map_sort_key_eq) (rule h)
  moreover have "map record_bytes (sort_key sr_node_address ys) = map h (sort (map sr_node_address ys))"
    by (rule map_sort_key_eq) (simp add: h mem)
  moreover have "sort (map sr_node_address xs) = sort (map sr_node_address ys)"
    using assms(1) by (intro sort_perm) simp
  ultimately show ?thesis by (simp add: seeds_digest_def)
qed

lemma map_enumerate: "map (\<lambda>(i, x). f x) (enumerate n xs) = map f xs"
  by (induction xs arbitrary: n) simp_all

lemma registry_records_addresses:
  "map sr_address (registry_records clock reg) = map (\<lambda>(s, na). show_sock s) (nr_get_all_seeds reg)"
proof -
  have "map sr_address (registry_records clock reg) =
      map (\<lambda>(i, x). (\<lambda>(s, na). show_sock s) x) (enumerate 0 (nr_get_all_seeds reg))"
    by (auto simp: registry_records_def seed_record_new_def)
  then show ?thesis by (simp only: map_enumerate)
qed

lemma set_registry_records:
  "sr_address ` set (registry_records clock reg) = show_sock ` fst ` set (nr_get_all_seeds reg)"
  using arg_cong [OF registry_records_addresses, of set clock reg]
  by (simp add: image_image split_def)

lemma length_registry_records [simp]:
  "length (registry_records clock reg) = length (nr_get_all_seeds reg)"
  by (simp add: registry_records_def)

lemma register_record_ok [intro]: "registry_ok reg \<Longrightarrow> registry_ok (register_record from_ip now s reg)"
  by (auto simp: register_record_def split: option.split)

lemma register_records_ok [intro]: "registry_ok reg \<Longrightarrow> registry_ok (register_records from_ip now ss reg)"
  unfolding register_records_def by (rule fold_keeps [where P = registry_ok]) auto

text \<open>The registrations of a list, as pairs that the registry's contract speaks of.\<close>

definition record_pairs :: "seed_record list \<Rightarrow> (string \<times> socket_addr) list" where
  "record_pairs ss = List.map_filter (\<lambda>s. map_option (Pair (sr_node_address s)) (parse_sock (sr_address s))) ss"

lemma register_records_fold:
  "register_records from_ip now ss reg =
     fold (\<lambda>(n, a). nr_register now n a (from_ip (sock_ip a))) (record_pairs ss) reg"
  unfolding register_records_def
  by (induction ss arbitrary: reg)
    (auto simp: record_pairs_def register_record_def map_filter_simps split: option.split)

lemma register_records_seeds:
  "registry_ok reg \<Longrightarrow>
     set (nr_get_all_seeds (register_records from_ip now ss reg)) =
       (\<lambda>(n, a). (a, n)) ` set (record_pairs ss) \<union> set (nr_get_all_seeds reg)"
  unfolding register_records_fold by (rule seeds.book_add_all)

lemma register_records_grows:
  "registry_ok reg \<Longrightarrow>
     length (nr_get_all_seeds reg) < length (nr_get_all_seeds (register_records from_ip now ss reg)) \<longleftrightarrow>
       (\<exists>(n, a) \<in> set (record_pairs ss). (a, n) \<notin> set (nr_get_all_seeds reg))"
  unfolding register_records_fold by (rule seeds.book_grows_iff)

lemma is_connected_register_records [simp]:
  "nr_is_connected b (register_records from_ip now ss reg) = nr_is_connected b reg"
  unfolding register_records_def
  by (induction ss arbitrary: reg) (auto simp: register_record_def split: option.split)

lemma insort_key_map:
  "(\<And>x. k (g x) = k x) \<Longrightarrow> insort_key k (g x) (map g xs) = map g (insort_key k x xs)"
  by (induction xs) simp_all

lemma sort_key_map: "(\<And>x. k (g x) = k x) \<Longrightarrow> sort_key k (map g xs) = map g (sort_key k xs)"
  by (induction xs) (simp_all add: insort_key_map)

subsection \<open>Properties\<close>

text \<open>
  Building a seeds command: the result always verifies, lists no socket address twice,
  covers exactly the socket addresses of the input, and lists records of the input in
  their order.
\<close>

theorem seeds_command_new_sound:
  "seeds_command_verify sha256 (seeds_command_new sha256 xs) \<and>
   distinct (map sr_address (sc_seeds (seeds_command_new sha256 xs))) \<and>
   sr_address ` set (sc_seeds (seeds_command_new sha256 xs)) = sr_address ` set xs \<and>
   subseq (sc_seeds (seeds_command_new sha256 xs)) xs"
  by (simp add: sealed_seeds.verify_seal sealed_seeds.items_seal dedup_by_distinct dedup_by_keys
      dedup_by_subseq)

text \<open>
  Two nodes that hold the same records in different order compute the same hash, provided
  the sockets are listed once and all records of one node carry one timestamp.
\<close>

theorem seeds_hash_order_independent:
  assumes "mset xs = mset ys" "distinct (map sr_address xs)"
    and "\<And>x y. x \<in> set xs \<Longrightarrow> y \<in> set xs \<Longrightarrow> sr_node_address x = sr_node_address y \<Longrightarrow>
           sr_first_seen x = sr_first_seen y"
  shows "sc_hash (seeds_command_new sha256 xs) = sc_hash (seeds_command_new sha256 ys)"
proof -
  have "distinct (map sr_address ys)"
    using assms(1,2) by (metis mset_eq_imp_distinct_iff mset_map)
  then have "dedup_by sr_address {} xs = xs" "dedup_by sr_address {} ys = ys"
    using assms(2) by (simp_all add: dedup_by_id)
  then have "sc_hash (seeds_command_new sha256 xs) = seeds_digest sha256 xs"
    "sc_hash (seeds_command_new sha256 ys) = seeds_digest sha256 ys"
    by (simp_all add: seeds_command_new_def Let_def)
  moreover have "seeds_digest sha256 xs = seeds_digest sha256 ys"
    by (rule seeds_digest_perm [OF assms(1)]) (rule assms(3))
  ultimately show ?thesis by simp
qed

theorem seeds_hash_order_independent_witness:
  "sc_hash (seeds_command_new id
     [seed_record_new 5 ''10.0.0.2:1'' ''b'', seed_record_new 5 ''10.0.0.1:1'' ''a'']) =
   sc_hash (seeds_command_new id
     [seed_record_new 5 ''10.0.0.1:1'' ''a'', seed_record_new 5 ''10.0.0.2:1'' ''b''])"
  by (rule seeds_hash_order_independent) (auto simp: seed_record_new_def)

text \<open>
  The hash of a seeds command does not cover the socket addresses: replacing the sockets of
  all records arbitrarily leaves the outcome of verification unchanged.
\<close>

theorem seeds_hash_ignores_sockets:
  "seeds_command_verify sha256 (sc\<lparr>sc_seeds := map (\<lambda>s. s\<lparr>sr_address := f s\<rparr>) (sc_seeds sc)\<rparr>) =
   seeds_command_verify sha256 sc"
proof -
  have "sort_key sr_node_address (map (\<lambda>s. s\<lparr>sr_address := f s\<rparr>) xs) =
      map (\<lambda>s. s\<lparr>sr_address := f s\<rparr>) (sort_key sr_node_address xs)" for xs :: "seed_record list"
    by (rule sort_key_map) simp
  then have "map record_bytes (sort_key sr_node_address (map (\<lambda>s. s\<lparr>sr_address := f s\<rparr>) xs)) =
      map record_bytes (sort_key sr_node_address xs)" for xs :: "seed_record list"
    by (simp add: record_bytes_def)
  then show ?thesis by (simp add: seeds_command_verify_def seeds_digest_def)
qed

end
