(* ===== verification/SeedSync.thy ===== *)
theory SeedSync
  imports Frame Seeds
begin

text \<open>
  Seed synchronisation (\<^verbatim>\<open>src/protocols/commands/seed_sync.rs\<close>): hashed seed sets
  derived from the registry, merging, the request, response and commit handlers, and the
  cycle that repeats synchronisation rounds until the hash is stable.

  What other tasks do to the global context while the code waits is a parameter: a
  function from the context before the wait to the context after it. Whether time is left
  at the k-th test of the loop is a parameter too.

  Shown here: hashes do not depend on the order of seeds, sets merge like sets, one
  exchange of request and response leaves both nodes with the same public IPv4 seeds, the
  cycle ends with a verified set of the current registry, and IPv6 seeds do not travel.
\<close>

record seed_info =
  si_ip :: string
  si_port :: u16
  si_node_id :: string
  si_is_intranet :: bool
  si_is_connectable :: bool
  si_success_count :: u32
  si_failure_count :: u32
  si_last_attempt_ts :: u64

record seed_set =
  ss_seeds :: "seed_info list"
  ss_pre_hash :: string
  ss_hash :: bytes
  ss_epoch :: u64
  ss_locked :: bool
  ss_sync_round :: u32

record seed_sync_request =
  rq_from_node_id :: string
  rq_seed_set :: seed_set
  rq_retry_count :: u32

record seed_sync_response =
  rs_seed_set :: seed_set
  rs_hash :: bytes

record seed_sync_commit =
  cm_hash :: bytes
  cm_seed_set :: seed_set
  cm_locked :: bool

record sync_env = frame_env +
  se_request :: "seed_sync_request codec"
  se_response :: "seed_sync_response codec"
  se_commit :: "seed_sync_commit codec"
  se_sha256 :: "bytes \<Rightarrow> bytes"
  se_from_ip :: "ip_addr \<Rightarrow> network_scope"

subsection \<open>Seed sets\<close>

definition default_pre_hash :: string where
  "default_pre_hash = replicate 64 (CHR ''0'')"

definition seed_info_new :: "string \<Rightarrow> u16 \<Rightarrow> string \<Rightarrow> bool \<Rightarrow> seed_info" where
  "seed_info_new ip port node_id is_intranet =
     \<lparr>si_ip = ip, si_port = port, si_node_id = node_id, si_is_intranet = is_intranet,
      si_is_connectable = True, si_success_count = 0, si_failure_count = 0,
      si_last_attempt_ts = 0\<rparr>"

definition seed_info_address :: "seed_info \<Rightarrow> string" where
  "seed_info_address s = si_ip s @ '':'' @ show_nat (unat (si_port s))"

definition seed_info_socket_addr :: "seed_info \<Rightarrow> socket_addr option" where
  "seed_info_socket_addr s = parse_sock (si_ip s @ '':'' @ show_nat (unat (si_port s)))"

definition compute_seed_hash :: "(bytes \<Rightarrow> bytes) \<Rightarrow> string \<Rightarrow> seed_info list \<Rightarrow> bytes" where
  "compute_seed_hash sha256 pre_hash seeds =
     sha256 (as_bytes pre_hash @ concat (map as_bytes (sort (map seed_info_address seeds))))"

definition with_pre_hash :: "(bytes \<Rightarrow> bytes) \<Rightarrow> seed_info list \<Rightarrow> u64 \<Rightarrow> string \<Rightarrow> seed_set" where
  "with_pre_hash sha256 seeds epoch pre_hash =
     \<lparr>ss_seeds = seeds, ss_pre_hash = pre_hash, ss_hash = compute_seed_hash sha256 pre_hash seeds,
      ss_epoch = epoch, ss_locked = False, ss_sync_round = 0\<rparr>"

definition seed_set_new :: "(bytes \<Rightarrow> bytes) \<Rightarrow> seed_info list \<Rightarrow> u64 \<Rightarrow> seed_set" where
  "seed_set_new sha256 seeds epoch =
     (let pre_hash = default_pre_hash in
      \<lparr>ss_seeds = seeds, ss_pre_hash = pre_hash, ss_hash = compute_seed_hash sha256 pre_hash seeds,
       ss_epoch = epoch, ss_locked = False, ss_sync_round = 0\<rparr>)"

definition seed_set_verify :: "(bytes \<Rightarrow> bytes) \<Rightarrow> seed_set \<Rightarrow> bool" where
  "seed_set_verify sha256 s \<longleftrightarrow> compute_seed_hash sha256 (ss_pre_hash s) (ss_seeds s) = ss_hash s"

definition recalculate_hash :: "(bytes \<Rightarrow> bytes) \<Rightarrow> seed_set \<Rightarrow> seed_set" where
  "recalculate_hash sha256 s = s\<lparr>ss_hash := compute_seed_hash sha256 (ss_pre_hash s) (ss_seeds s)\<rparr>"

definition seed_set_is_empty :: "seed_set \<Rightarrow> bool" where
  "seed_set_is_empty s \<longleftrightarrow> ss_seeds s = []"

definition seed_set_len :: "seed_set \<Rightarrow> nat" where
  "seed_set_len s = length (ss_seeds s)"

definition seed_set_contains :: "string \<Rightarrow> u16 \<Rightarrow> seed_set \<Rightarrow> bool" where
  "seed_set_contains ip port s \<longleftrightarrow> list_ex (\<lambda>x. si_ip x = ip \<and> si_port x = port) (ss_seeds s)"

definition ip_is_loopback :: "string \<Rightarrow> bool" where
  "ip_is_loopback ip = (case parse_ip ip of Some a \<Rightarrow> is_loopback a | None \<Rightarrow> False)"

definition public_seeds :: "seed_info list \<Rightarrow> seed_info list" where
  "public_seeds seeds = filter (\<lambda>s. \<not> ip_is_loopback (si_ip s)) seeds"

definition seed_set_merge :: "(bytes \<Rightarrow> bytes) \<Rightarrow> seed_set \<Rightarrow> seed_set \<Rightarrow> seed_set" where
  "seed_set_merge sha256 self other =
     (let merged = public_seeds (ss_seeds self);
          seen = set (map seed_info_address merged)
      in with_pre_hash sha256
           (merged @ dedup_by seed_info_address seen (public_seeds (ss_seeds other)))
           (max (ss_epoch self) (ss_epoch other)) (ss_pre_hash self))"

definition filter_loopback :: "(bytes \<Rightarrow> bytes) \<Rightarrow> seed_set \<Rightarrow> seed_set" where
  "filter_loopback sha256 s =
     with_pre_hash sha256 (public_seeds (ss_seeds s)) (ss_epoch s) (ss_pre_hash s)"

fun ip_is_private :: "ip_addr \<Rightarrow> bool" where
  "ip_is_private (V4 a) = v4_is_private a"
| "ip_is_private (V6 a) = False"

definition seed_info_of :: "socket_addr \<times> string \<Rightarrow> seed_info" where
  "seed_info_of p =
     seed_info_new (show_ip (sock_ip (fst p))) (sock_port (fst p)) (snd p)
       (ip_is_private (sock_ip (fst p)))"

definition derive_seed_set_from_registry :: "(bytes \<Rightarrow> bytes) \<Rightarrow> node_registry \<Rightarrow> seed_set" where
  "derive_seed_set_from_registry sha256 reg =
     seed_set_new sha256
       (map seed_info_of (filter (\<lambda>(a, _). sock_port a \<noteq> 0) (nr_get_all_seeds reg))) 0"

subsection \<open>Handlers\<close>

text \<open>
  The part the three handlers share: register the seeds whose socket parses, then append
  the sockets of the derived set to the node's peer list where they are missing.
\<close>

definition register_seed_info ::
  "(ip_addr \<Rightarrow> network_scope) \<Rightarrow> u64 \<Rightarrow> seed_info \<Rightarrow> node_registry \<Rightarrow> node_registry" where
  "register_seed_info from_ip now s reg =
     (case seed_info_socket_addr s of
        Some a \<Rightarrow> nr_register now (si_node_id s) a (from_ip (sock_ip a)) reg
      | None \<Rightarrow> reg)"

definition push_peer :: "seed_info \<Rightarrow> socket_addr list \<Rightarrow> socket_addr list" where
  "push_peer s peers =
     (case seed_info_socket_addr s of
        Some a \<Rightarrow> if a \<in> set peers then peers else peers @ [a]
      | None \<Rightarrow> peers)"

definition absorb_seeds :: "'z sync_env_scheme \<Rightarrow> u64 \<Rightarrow> seed_set \<Rightarrow> 'p global_ctx \<Rightarrow> 'p global_ctx" where
  "absorb_seeds se now sset g =
     (case g_node g of
        None \<Rightarrow> g
      | Some n \<Rightarrow>
          (let reg = fold (register_seed_info (se_from_ip se) now) (ss_seeds sset) (n_registry n);
               derived = derive_seed_set_from_registry (se_sha256 se) reg
           in g\<lparr>g_node := Some \<lparr>n_registry = reg,
                               n_peer_addrs = fold push_peer (ss_seeds derived) (n_peer_addrs n)\<rparr>\<rparr>))"

text \<open>The reply of the request handler, when a node is registered.\<close>

definition sync_response :: "'z sync_env_scheme \<Rightarrow> node_registry \<Rightarrow> seed_sync_response" where
  "sync_response se reg =
     (let filtered = filter_loopback (se_sha256 se) (derive_seed_set_from_registry (se_sha256 se) reg)
      in \<lparr>rs_seed_set = filtered, rs_hash = ss_hash filtered\<rparr>)"

definition seed_sync_request_handler ::
  "'z sync_env_scheme \<Rightarrow> 'p psk_ops \<Rightarrow> u64 \<Rightarrow> u64 \<Rightarrow> conn \<Rightarrow> p2p_command \<Rightarrow> 'p global_ctx \<Rightarrow>
   'p global_ctx \<times> bytes option" where
  "seed_sync_request_handler se psk now nonce c cmd g =
     (case dec (se_request se) (cmd_data cmd) of
        None \<Rightarrow> (g, None)
      | Some request \<Rightarrow>
          (let g' = absorb_seeds se now (rq_seed_set request) g
           in case g_node g' of
                None \<Rightarrow> (g', None)
              | Some n \<Rightarrow>
                  (g', case frame_send se psk (se_response se) nonce g' c
                              (Some (sync_response se (n_registry n))) ENode SeedSyncResponse False of
                         Inr sent \<Rightarrow> sent
                       | Inl e \<Rightarrow> None)))"

definition seed_sync_response_handler ::
  "'z sync_env_scheme \<Rightarrow> u64 \<Rightarrow> p2p_command \<Rightarrow> 'p global_ctx \<Rightarrow> 'p global_ctx" where
  "seed_sync_response_handler se now cmd g =
     (case dec (se_response se) (cmd_data cmd) of
        None \<Rightarrow> g
      | Some response \<Rightarrow> absorb_seeds se now (rs_seed_set response) g)"

definition seed_sync_commit_handler ::
  "'z sync_env_scheme \<Rightarrow> u64 \<Rightarrow> p2p_command \<Rightarrow> 'p global_ctx \<Rightarrow> 'p global_ctx" where
  "seed_sync_commit_handler se now cmd g =
     (case dec (se_commit se) (cmd_data cmd) of
        None \<Rightarrow> g
      | Some commit \<Rightarrow> absorb_seeds se now (cm_seed_set commit) g)"

text \<open>The broadcast writes one frame to every writable connection.\<close>

definition broadcast_seed_set_to_all_peers ::
  "'z sync_env_scheme \<Rightarrow> u64 \<Rightarrow> seed_set \<Rightarrow> 'p global_ctx \<Rightarrow> (socket_addr \<times> bytes) list" where
  "broadcast_seed_set_to_all_peers se nonce sset g =
     (case g_address g of
        None \<Rightarrow> []
      | Some acc \<Rightarrow>
          (case enc (se_request se) \<lparr>rq_from_node_id = show_sock (g_addr g), rq_seed_set = sset,
                                      rq_retry_count = ss_sync_round sset\<rparr> of
             None \<Rightarrow> []
           | Some cmd_bytes \<Rightarrow>
               (case frame_build se acc (p2p_command_new ENode SeedSyncRequest cmd_bytes) 1 nonce of
                  None \<Rightarrow> []
                | Some f \<Rightarrow>
                    (case enc (fe_frame se) f of
                       None \<Rightarrow> []
                     | Some bs \<Rightarrow>
                         map (\<lambda>e. (ce_addr e, bs)) (filter writable (conn_entries (g_connections g)))))))"

text \<open>Locking stores the set, marked as locked, in the context's slot for seed sets.\<close>

definition lock_seed_set_global :: "seed_set \<Rightarrow> seed_set option \<Rightarrow> seed_set option" where
  "lock_seed_set_global sset slot = Some (sset\<lparr>ss_locked := True\<rparr>)"

subsection \<open>The requesting side\<close>

definition local_seed_set :: "'z sync_env_scheme \<Rightarrow> 'p global_ctx \<Rightarrow> seed_set" where
  "local_seed_set se g =
     (case g_node g of
        Some n \<Rightarrow> derive_seed_set_from_registry (se_sha256 se) (n_registry n)
      | None \<Rightarrow> seed_set_new (se_sha256 se) [] 0)"

definition local_request :: "'z sync_env_scheme \<Rightarrow> 'p global_ctx \<Rightarrow> seed_sync_request" where
  "local_request se g =
     \<lparr>rq_from_node_id = show_sock (g_addr g), rq_seed_set = local_seed_set se g, rq_retry_count = 0\<rparr>"

text \<open>
  Both ways of sending a request return whether the exchange counts as a success, the bytes
  written, and the context after the wait (\<open>wait\<close> stands for the other tasks).
\<close>

definition send_seed_sync_via_existing_ctx ::
  "'z sync_env_scheme \<Rightarrow> 'p psk_ops \<Rightarrow> u64 \<Rightarrow> ('p global_ctx \<Rightarrow> 'p global_ctx) \<Rightarrow> conn \<Rightarrow>
   'p global_ctx \<Rightarrow> bool \<times> bytes option \<times> 'p global_ctx" where
  "send_seed_sync_via_existing_ctx se psk nonce wait c g =
     (case frame_send se psk (se_request se) nonce g c (Some (local_request se g)) ENode
             SeedSyncRequest False of
        Inl e \<Rightarrow> (False, None, g)
      | Inr sent \<Rightarrow>
          (let g' = wait g;
               merged = (case g_node g' of
                           Some n \<Rightarrow> derive_seed_set_from_registry (se_sha256 se) (n_registry n)
                         | None \<Rightarrow> local_seed_set se g)
           in (seed_set_verify (se_sha256 se) merged, sent, g')))"

definition send_seed_sync_request ::
  "'z sync_env_scheme \<Rightarrow> 'p psk_ops \<Rightarrow> u64 \<Rightarrow> ('p global_ctx \<Rightarrow> 'p global_ctx) \<Rightarrow> 'p \<Rightarrow> conn \<Rightarrow>
   'p global_ctx \<Rightarrow> bool \<times> bytes option \<times> 'p global_ctx" where
  "send_seed_sync_request se psk nonce wait p c g0 =
     (let g = g0\<lparr>g_psk := Some (snd (psk_create psk p))\<rparr>
      in case frame_send se psk (se_request se) nonce g c (Some (local_request se g)) ENode
                SeedSyncRequest False of
           Inl e \<Rightarrow> (False, None, g)
         | Inr sent \<Rightarrow>
             (let g' = wait g;
                  merged = (case g_node g' of
                              Some n \<Rightarrow> derive_seed_set_from_registry (se_sha256 se) (n_registry n)
                            | None \<Rightarrow> local_seed_set se g)
              in (seed_set_verify (se_sha256 se) merged, sent, g')))"

definition get_existing_connection_context ::
  "(ip_addr \<Rightarrow> network_scope) \<Rightarrow> 'p global_ctx \<Rightarrow> socket_addr \<Rightarrow> conn option" where
  "get_existing_connection_context from_ip g addr =
     (let ip = sock_ip addr in
      case map_of (g_connections g) (ip, from_ip ip) of
        None \<Rightarrow> None
      | Some b \<Rightarrow>
          (case map_of (bc_servers b) addr of
             Some e \<Rightarrow> ce_context e
           | None \<Rightarrow> (case map_of (bc_clients b) addr of Some e \<Rightarrow> ce_context e | None \<Rightarrow> None)))"

text \<open>
  \<open>dial\<close> is the connection manager's connect: the context of the new connection, or
  nothing when it fails.
\<close>

definition sync_once ::
  "'z sync_env_scheme \<Rightarrow> 'p psk_ops \<Rightarrow> u64 \<Rightarrow> ('p global_ctx \<Rightarrow> 'p global_ctx) \<Rightarrow>
   (socket_addr \<Rightarrow> conn option) \<Rightarrow> socket_addr \<Rightarrow> 'p global_ctx \<Rightarrow> bool \<times> bytes option \<times> 'p global_ctx" where
  "sync_once se psk nonce wait dial addr g =
     (case g_psk g of
        None \<Rightarrow> (False, None, g)
      | Some p \<Rightarrow>
          (case get_existing_connection_context (se_from_ip se) g addr of
             Some c \<Rightarrow> send_seed_sync_via_existing_ctx se psk nonce wait c g
           | None \<Rightarrow>
               (case dial addr of
                  Some c \<Rightarrow> send_seed_sync_request se psk nonce wait p c g
                | None \<Rightarrow> (False, None, g))))"

text \<open>Up to three attempts; \<open>once\<close> is one attempt, with its number.\<close>

function try_attempts :: "(nat \<Rightarrow> 'g \<Rightarrow> bool \<times> bytes option \<times> 'g) \<Rightarrow> nat \<Rightarrow> 'g \<Rightarrow> bool \<times> 'g" where
  "try_attempts once attempt g =
     (if 3 < attempt then (False, g)
      else case once attempt g of
             (ok, _, g') \<Rightarrow> if ok then (True, g') else try_attempts once (Suc attempt) g')"
  by pat_completeness auto
termination
  by (relation "measure (\<lambda>(_, attempt, _). 4 - attempt)") auto

definition try_sync_with_peer_global ::
  "'z sync_env_scheme \<Rightarrow> 'p psk_ops \<Rightarrow> (nat \<Rightarrow> u64) \<Rightarrow> (nat \<Rightarrow> 'p global_ctx \<Rightarrow> 'p global_ctx) \<Rightarrow>
   (nat \<Rightarrow> socket_addr \<Rightarrow> conn option) \<Rightarrow> socket_addr \<Rightarrow> 'p global_ctx \<Rightarrow> bool \<times> 'p global_ctx" where
  "try_sync_with_peer_global se psk nonce wait dial addr g =
     try_attempts (\<lambda>k. sync_once se psk (nonce k) (wait k) (dial k) addr) 1 g"

subsection \<open>The cycle\<close>

definition node_missing :: string where
  "node_missing = ''Node not registered in GlobalContext''"

text \<open>
  The loop of \<open>run_seed_sync_cycle\<close>: \<open>time_left k\<close> is the deadline test before
  round \<open>k + 1\<close>, and \<open>sync_peers k\<close> what the joined tasks of round \<open>k\<close>
  (one \<open>try_sync_with_peer_global\<close> per peer, interleaved with the handlers) make of
  the context.
\<close>

function cycle_loop ::
  "(bytes \<Rightarrow> bytes) \<Rightarrow> (nat \<Rightarrow> bool) \<Rightarrow> (nat \<Rightarrow> 'p global_ctx \<Rightarrow> 'p global_ctx) \<Rightarrow> nat \<Rightarrow>
   nat \<Rightarrow> bytes option \<Rightarrow> nat \<Rightarrow> 'p global_ctx \<Rightarrow> (string + seed_set) \<times> nat \<times> 'p global_ctx" where
  "cycle_loop sha256 time_left sync_peers max_rounds steady prev rnd g =
     (if time_left rnd \<and> rnd < max_rounds then
        (case g_node g of
           None \<Rightarrow> (Inl node_missing, Suc rnd, g)
         | Some _ \<Rightarrow>
             (let g' = sync_peers (Suc rnd) g
              in case g_node g' of
                   None \<Rightarrow> (Inl node_missing, Suc rnd, g')
                 | Some n \<Rightarrow>
                     (let h = ss_hash (derive_seed_set_from_registry sha256 (n_registry n))
                      in if prev = Some h then
                           (if 2 \<le> Suc steady
                            then (Inr (derive_seed_set_from_registry sha256 (n_registry n)), Suc rnd, g')
                            else cycle_loop sha256 time_left sync_peers max_rounds (Suc steady) prev (Suc rnd) g')
                         else cycle_loop sha256 time_left sync_peers max_rounds 0 (Some h) (Suc rnd) g')))
      else
        (Inr (case g_node g of
                Some n \<Rightarrow> derive_seed_set_from_registry sha256 (n_registry n)
              | None \<Rightarrow> seed_set_new sha256 [] 0), rnd, g))"
  by pat_completeness auto
termination
  by (relation "measure (\<lambda>(_, _, _, max_rounds, _, _, rnd, _). max_rounds - rnd)") auto

definition effective_max :: "u32 \<Rightarrow> nat" where
  "effective_max max_rounds = (if max_rounds = 0 then 10 else unat max_rounds)"

definition run_seed_sync_cycle ::
  "(bytes \<Rightarrow> bytes) \<Rightarrow> (nat \<Rightarrow> bool) \<Rightarrow> (nat \<Rightarrow> 'p global_ctx \<Rightarrow> 'p global_ctx) \<Rightarrow>
   socket_addr list \<Rightarrow> u32 \<Rightarrow> 'p global_ctx \<Rightarrow> (string + seed_set) \<times> nat \<times> 'p global_ctx" where
  "run_seed_sync_cycle sha256 time_left sync_peers peer_addrs max_rounds g =
     (if peer_addrs = [] then
        (Inr (case g_node g of
                Some n \<Rightarrow> derive_seed_set_from_registry sha256 (n_registry n)
              | None \<Rightarrow> seed_set_new sha256 [] 0), 0, g)
      else cycle_loop sha256 time_left sync_peers (effective_max max_rounds) 0 None 0 g)"

declare cycle_loop.simps [simp del] try_attempts.simps [simp del]

subsection \<open>Lemmas on seed sets\<close>

lemma verify_with_pre_hash [simp]: "seed_set_verify sha256 (with_pre_hash sha256 ss e p)"
  by (simp add: seed_set_verify_def with_pre_hash_def)

lemma verify_seed_set_new [simp]: "seed_set_verify sha256 (seed_set_new sha256 ss e)"
  by (simp add: seed_set_verify_def seed_set_new_def Let_def)

lemma verify_derive [simp]: "seed_set_verify sha256 (derive_seed_set_from_registry sha256 reg)"
  by (simp add: derive_seed_set_from_registry_def)

lemma ss_seeds_simps [simp]:
  "ss_seeds (with_pre_hash sha256 ss e p) = ss"
  "ss_seeds (seed_set_new sha256 ss e) = ss"
  "ss_pre_hash (with_pre_hash sha256 ss e p) = p"
  "ss_hash (with_pre_hash sha256 ss e p) = compute_seed_hash sha256 p ss"
  by (simp_all add: with_pre_hash_def seed_set_new_def Let_def)

lemma compute_seed_hash_perm:
  "mset (map seed_info_address xs) = mset (map seed_info_address ys) \<Longrightarrow>
     compute_seed_hash sha256 p xs = compute_seed_hash sha256 p ys"
  using sort_perm [of "map seed_info_address xs" "map seed_info_address ys"]
  by (simp add: compute_seed_hash_def)

interpretation sealed_set_new: sealed_set "\<lambda>ss. seed_set_new sha256 ss e" ss_seeds "seed_set_verify sha256" "\<lambda>ss. ss"
  for sha256 :: "bytes \<Rightarrow> bytes" and e :: u64
  by unfold_locales simp_all

interpretation sealed_filtered:
  sealed_set "\<lambda>ss. filter_loopback sha256 (seed_set_new sha256 ss e)" ss_seeds "seed_set_verify sha256" public_seeds
  for sha256 :: "bytes \<Rightarrow> bytes" and e :: u64
  by unfold_locales (simp_all add: filter_loopback_def public_seeds_def)

lemma seed_info_of_v4 [simp]:
  "seed_info_socket_addr (seed_info_of (SockV4 a p, n)) = Some (SockV4 a p)"
  using parse_show_sock_v4 [of a p]
  by (simp add: seed_info_socket_addr_def seed_info_of_def seed_info_new_def)

lemma seed_info_of_v6 [simp]: "seed_info_socket_addr (seed_info_of (SockV6 a p f s, n)) = None"
  using parse_sock_ipv6_colon [of a]
  by (simp add: seed_info_socket_addr_def seed_info_of_def seed_info_new_def del: show_ip.simps)

lemma seed_info_of_simps [simp]:
  "si_node_id (seed_info_of p) = snd p"
  "si_port (seed_info_of p) = sock_port (fst p)"
  "si_ip (seed_info_of p) = show_ip (sock_ip (fst p))"
  by (simp_all add: seed_info_of_def seed_info_new_def)

lemma seed_info_of_socket:
  "seed_info_socket_addr (seed_info_of (a, n)) = (case a of SockV4 _ _ \<Rightarrow> Some a | SockV6 _ _ _ _ \<Rightarrow> None)"
  by (cases a) simp_all

subsection \<open>Lemmas on the handlers\<close>

definition info_pairs :: "seed_info list \<Rightarrow> (string \<times> socket_addr) list" where
  "info_pairs ss = List.map_filter (\<lambda>s. map_option (Pair (si_node_id s)) (seed_info_socket_addr s)) ss"

lemma register_seed_info_fold:
  "fold (register_seed_info from_ip now) ss reg =
     fold (\<lambda>(n, a). nr_register now n a (from_ip (sock_ip a))) (info_pairs ss) reg"
  by (induction ss arbitrary: reg)
    (auto simp: info_pairs_def register_seed_info_def map_filter_simps split: option.split)

lemma set_info_pairs:
  "(n, a) \<in> set (info_pairs ss) \<longleftrightarrow> (\<exists>s \<in> set ss. si_node_id s = n \<and> seed_info_socket_addr s = Some a)"
  by (induction ss) (auto simp: info_pairs_def map_filter_simps split: option.splits)

text \<open>The seeds of the node in a context.\<close>

definition seeds_of :: "'p global_ctx \<Rightarrow> (socket_addr \<times> string) set" where
  "seeds_of g = (case g_registry g of Some r \<Rightarrow> set (nr_get_all_seeds r) | None \<Rightarrow> {})"

lemma gctx_ok_absorb: "gctx_ok g \<Longrightarrow> gctx_ok (absorb_seeds se now sset g)"
  by (auto simp: gctx_ok_def absorb_seeds_def register_seed_info_fold Let_def
      intro: seeds.ok_add_all split: option.split)

lemma seeds_of_absorb:
  assumes "gctx_ok g" "g_node g \<noteq> None"
  shows "seeds_of (absorb_seeds se now sset g) =
    {(a, n). (n, a) \<in> set (info_pairs (ss_seeds sset))} \<union> seeds_of g"
proof -
  obtain n where n: "g_node g = Some n" using assms(2) by auto
  then have "registry_ok (n_registry n)" using assms(1) by (simp add: gctx_ok_def)
  from seeds.book_add_all [OF this] show ?thesis
    by (force simp: seeds_of_def g_registry_def absorb_seeds_def n register_seed_info_fold Let_def)
qed

lemma absorb_frame [simp]:
  "g_address (absorb_seeds se now sset g) = g_address g"
  "g_psk (absorb_seeds se now sset g) = g_psk g"
  "g_addr (absorb_seeds se now sset g) = g_addr g"
  "g_connections (absorb_seeds se now sset g) = g_connections g"
  "(g_node (absorb_seeds se now sset g) = None) = (g_node g = None)"
  by (auto simp: absorb_seeds_def Let_def split: option.split)

text \<open>The sockets that travel: IPv4 with a port, and public ones in a response.\<close>

fun v4_with_port :: "socket_addr \<Rightarrow> bool" where
  "v4_with_port (SockV4 a p) = (p \<noteq> 0)"
| "v4_with_port (SockV6 a p f s) = False"

definition public_v4 :: "socket_addr \<Rightarrow> bool" where
  "public_v4 a \<longleftrightarrow> v4_with_port a \<and> \<not> is_loopback (sock_ip a)"

lemma seed_info_of_travels:
  "seed_info_socket_addr (seed_info_of (a, n)) = Some b \<and> sock_port a \<noteq> 0 \<longleftrightarrow> a = b \<and> v4_with_port b"
  by (cases a) auto

lemma set_derive:
  "set (ss_seeds (derive_seed_set_from_registry sha256 reg)) =
     seed_info_of ` {p \<in> set (nr_get_all_seeds reg). sock_port (fst p) \<noteq> 0}"
  by (auto simp: derive_seed_set_from_registry_def)

lemma info_pairs_derive:
  "(n, a) \<in> set (info_pairs (ss_seeds (derive_seed_set_from_registry sha256 reg))) \<longleftrightarrow>
     (a, n) \<in> set (nr_get_all_seeds reg) \<and> v4_with_port a"
proof -
  have "(n, a) \<in> set (info_pairs (ss_seeds (derive_seed_set_from_registry sha256 reg))) \<longleftrightarrow>
      (\<exists>b. (b, n) \<in> set (nr_get_all_seeds reg) \<and>
         seed_info_socket_addr (seed_info_of (b, n)) = Some a \<and> sock_port b \<noteq> 0)"
    unfolding set_info_pairs set_derive by auto
  then show ?thesis unfolding seed_info_of_travels by blast
qed

lemma ip_is_loopback_v4: "ip_is_loopback (show_ip (V4 a)) = is_loopback (V4 a)"
  using parse_show_ip_v4 [of a] by (simp add: ip_is_loopback_def)

lemma info_pairs_response:
  "(n, a) \<in> set (info_pairs (ss_seeds (rs_seed_set (sync_response se reg)))) \<longleftrightarrow>
     (a, n) \<in> set (nr_get_all_seeds reg) \<and> public_v4 a"
proof -
  have eq: "set (ss_seeds (rs_seed_set (sync_response se reg))) =
      seed_info_of ` {p \<in> set (nr_get_all_seeds reg). sock_port (fst p) \<noteq> 0 \<and>
        \<not> ip_is_loopback (show_ip (sock_ip (fst p)))}"
    unfolding sync_response_def Let_def filter_loopback_def public_seeds_def seed_sync_response.simps
      ss_seeds_simps set_filter set_derive
    by (auto simp del: show_ip.simps)
  have "(n, a) \<in> set (info_pairs (ss_seeds (rs_seed_set (sync_response se reg)))) \<longleftrightarrow>
      (\<exists>b. (b, n) \<in> set (nr_get_all_seeds reg) \<and> \<not> ip_is_loopback (show_ip (sock_ip b)) \<and>
         seed_info_socket_addr (seed_info_of (b, n)) = Some a \<and> sock_port b \<noteq> 0)"
    unfolding set_info_pairs eq by auto
  also have "\<dots> \<longleftrightarrow> (a, n) \<in> set (nr_get_all_seeds reg) \<and> v4_with_port a \<and>
      \<not> ip_is_loopback (show_ip (sock_ip a))"
    unfolding seed_info_of_travels by blast
  also have "\<dots> \<longleftrightarrow> (a, n) \<in> set (nr_get_all_seeds reg) \<and> public_v4 a"
  proof (cases a)
    case (SockV4 x p)
    then show ?thesis by (simp only: public_v4_def sock_ip.simps ip_is_loopback_v4)
  qed (simp add: public_v4_def)
  finally show ?thesis .
qed

lemma seeds_of_request:
  assumes "gctx_ok g" "g_node g \<noteq> None" "g_node g0 \<noteq> None"
  shows "seeds_of (absorb_seeds se now (rq_seed_set (local_request se g0)) g) =
    {(a, n). (a, n) \<in> seeds_of g0 \<and> v4_with_port a} \<union> seeds_of g"
  using assms(3) unfolding seeds_of_absorb [OF assms(1,2)]
  by (auto simp: local_request_def local_seed_set_def info_pairs_derive seeds_of_def g_registry_def)

lemma seeds_of_response:
  assumes "gctx_ok g" "g_node g \<noteq> None" "g_registry g0 = Some reg"
  shows "seeds_of (absorb_seeds se now (rs_seed_set (sync_response se reg)) g) =
    {(a, n). (a, n) \<in> seeds_of g0 \<and> public_v4 a} \<union> seeds_of g"
  unfolding seeds_of_absorb [OF assms(1,2)] using assms(3)
  by (auto simp: info_pairs_response seeds_of_def)

lemma request_handler_cases:
  assumes "dec (se_request se) (cmd_data cmd) = Some rq"
    and "seed_sync_request_handler se psk now nonce c cmd g = (g', Some bs)"
  shows "g' = absorb_seeds se now (rq_seed_set rq) g \<and>
    (\<exists>reg. g_registry g' = Some reg \<and>
       frame_send se psk (se_response se) nonce g' c (Some (sync_response se reg)) ENode
         SeedSyncResponse False = Inr (Some bs))"
proof -
  let ?g = "absorb_seeds se now (rq_seed_set rq) g"
  obtain n where n: "g_node ?g = Some n" and g': "g' = ?g"
    and s: "(case frame_send se psk (se_response se) nonce ?g c (Some (sync_response se (n_registry n)))
        ENode SeedSyncResponse False of Inr sent \<Rightarrow> sent | Inl e \<Rightarrow> None) = Some bs"
    using assms by (auto simp: seed_sync_request_handler_def Let_def split: option.splits)
  from s have "frame_send se psk (se_response se) nonce ?g c (Some (sync_response se (n_registry n)))
      ENode SeedSyncResponse False = Inr (Some bs)"
    by (auto split: sum.splits)
  then show ?thesis using n g' by (auto simp: g_registry_def)
qed

subsection \<open>Lemmas on the cycle\<close>

lemma cycle_loop_result:
  "rnd \<le> max_rounds \<Longrightarrow>
   (case cycle_loop sha256 time_left sync_peers max_rounds steady prev rnd g of (r, k, g') \<Rightarrow>
     k \<le> max_rounds \<and>
     (case r of
        Inl e \<Rightarrow> e = node_missing \<and> g_node g' = None
      | Inr s \<Rightarrow> seed_set_verify sha256 s \<and>
          s = (case g_node g' of Some n \<Rightarrow> derive_seed_set_from_registry sha256 (n_registry n)
               | None \<Rightarrow> seed_set_new sha256 [] 0)))"
proof (induction sha256 time_left sync_peers max_rounds steady prev rnd g rule: cycle_loop.induct)
  case (1 sha256 time_left sync_peers max_rounds steady prev rnd g)
  show ?case
  proof (cases "time_left rnd \<and> rnd < max_rounds \<and> g_node g \<noteq> None \<and> g_node (sync_peers (Suc rnd) g) \<noteq> None")
    case True
    then obtain n0 n where n: "g_node g = Some n0" "g_node (sync_peers (Suc rnd) g) = Some n" by auto
    let ?h = "ss_hash (derive_seed_set_from_registry sha256 (n_registry n))"
    show ?thesis
    proof (cases "prev = Some ?h")
      case eq: True
      show ?thesis
      proof (cases "2 \<le> Suc steady")
        case False
        then show ?thesis
          using 1(1) [of n0 "sync_peers (Suc rnd) g" n ?h] True n eq
          by (subst cycle_loop.simps) (simp add: Let_def)
      qed (use True n eq in \<open>simp add: cycle_loop.simps [of _ _ _ _ _ _ rnd] Let_def\<close>)
    next
      case neq: False
      then show ?thesis
        using 1(2) [of n0 "sync_peers (Suc rnd) g" n ?h] True n
        by (subst cycle_loop.simps) (simp add: Let_def)
    qed
  next
    case False
    then show ?thesis
      using "1.prems"
      by (subst cycle_loop.simps) (auto simp: Let_def split: option.splits)
  qed
qed

text \<open>A cycle that finds a node in its first round has one at its end, unless it reports it missing.\<close>

lemma cycle_loop_node:
  "cycle_loop sha256 time_left sync_peers max_rounds steady prev rnd g = (Inr s, k, g') \<Longrightarrow> g_node g \<noteq> None \<Longrightarrow>
   g_node g' \<noteq> None"
proof (induction sha256 time_left sync_peers max_rounds steady prev rnd g rule: cycle_loop.induct)
  case (1 sha256 time_left sync_peers max_rounds steady prev rnd g)
  then show ?case
    by (subst (asm) (3) cycle_loop.simps) (auto simp: Let_def split: if_splits option.splits)
qed

lemma cycle_loop_no_node:
  "g_node g = None \<Longrightarrow> cycle_loop sha256 time_left sync_peers max_rounds steady prev rnd g =
     (if time_left rnd \<and> rnd < max_rounds then (Inl node_missing, Suc rnd, g) else (Inr (seed_set_new sha256 [] 0), rnd, g))"
  by (simp add: cycle_loop.simps)

text \<open>The context after \<open>j\<close> rounds, and its seed hash.\<close>

primrec after_rounds :: "(nat \<Rightarrow> 'g \<Rightarrow> 'g) \<Rightarrow> 'g \<Rightarrow> nat \<Rightarrow> 'g" where
  "after_rounds f g 0 = g"
| "after_rounds f g (Suc j) = f (Suc j) (after_rounds f g j)"

definition seed_hash_of :: "(bytes \<Rightarrow> bytes) \<Rightarrow> 'p global_ctx \<Rightarrow> bytes option" where
  "seed_hash_of sha256 g =
     map_option (\<lambda>n. ss_hash (derive_seed_set_from_registry sha256 (n_registry n))) (g_node g)"

lemma cycle_loop_stops:
  assumes stable: "\<And>j. K \<le> j \<Longrightarrow>
      seed_hash_of sha256 (after_rounds sync_peers g0 j) = seed_hash_of sha256 (after_rounds sync_peers g0 K)"
  shows "g = after_rounds sync_peers g0 rnd \<Longrightarrow>
    (rnd = 0 \<and> 0 < K \<or> prev = seed_hash_of sha256 g \<and> 0 < rnd) \<Longrightarrow> steady < 2 \<Longrightarrow>
    rnd \<le> K \<or> rnd = Suc K \<and> steady = 1 \<Longrightarrow>
    fst (snd (cycle_loop sha256 time_left sync_peers max_rounds steady prev rnd g)) \<le> K + 2"
proof (induction "max_rounds - rnd" arbitrary: steady prev rnd g)
  case 0
  then show ?case by (subst cycle_loop.simps) auto
next
  case (Suc d)
  let ?g' = "sync_peers (Suc rnd) g"
  have g': "?g' = after_rounds sync_peers g0 (Suc rnd)" using Suc.prems(1) by simp
  show ?case
  proof (cases "time_left rnd \<and> g_node g \<noteq> None \<and> g_node ?g' \<noteq> None")
    case True
    then obtain n0 n where n: "g_node g = Some n0" "g_node ?g' = Some n" by auto
    let ?h = "ss_hash (derive_seed_set_from_registry sha256 (n_registry n))"
    have h: "seed_hash_of sha256 ?g' = Some ?h" using n by (simp add: seed_hash_of_def)
    have lt: "rnd < max_rounds" and d: "d = max_rounds - Suc rnd" using Suc(2) by auto
    have late: "prev = Some ?h" if "K \<le> rnd"
      using that Suc.prems(1,2) stable [of rnd] stable [of "Suc rnd"] h g' by auto
    show ?thesis
    proof (cases "prev = Some ?h")
      case eq: True
      show ?thesis
      proof (cases "steady = 1")
        case True
        then show ?thesis
          using \<open>time_left rnd \<and> _ \<and> _\<close> lt n eq Suc.prems(4)
          by (subst cycle_loop.simps) (auto simp: Let_def)
      next
        case False
        then have st: "steady = 0" using Suc.prems(3) by simp
        have "fst (snd (cycle_loop sha256 time_left sync_peers max_rounds (Suc steady) prev (Suc rnd) ?g')) \<le> K + 2"
          by (rule Suc.hyps(1) [OF d g']) (use h eq st Suc.prems(4) in auto)
        then show ?thesis
          using \<open>time_left rnd \<and> _ \<and> _\<close> lt n eq st
          by (subst cycle_loop.simps) (simp add: Let_def)
      qed
    next
      case neq: False
      then have "rnd < K" using late by fastforce
      then have "fst (snd (cycle_loop sha256 time_left sync_peers max_rounds 0 (Some ?h) (Suc rnd) ?g')) \<le> K + 2"
        by (intro Suc.hyps(1) [OF d g']) (use h in auto)
      then show ?thesis
        using \<open>time_left rnd \<and> _ \<and> _\<close> lt n neq
        by (subst cycle_loop.simps) (simp add: Let_def)
    qed
  next
    case False
    then show ?thesis
      using Suc.prems(4) by (subst cycle_loop.simps) (auto simp: Let_def split: option.splits)
  qed
qed

subsection \<open>Merging\<close>

lemma merge_seeds:
  "ss_seeds (seed_set_merge sha256 a b) =
     public_seeds (ss_seeds a) @
     dedup_by seed_info_address (seed_info_address ` set (public_seeds (ss_seeds a))) (public_seeds (ss_seeds b))"
  by (simp add: seed_set_merge_def Let_def)

lemma merge_addresses:
  "seed_info_address ` set (ss_seeds (seed_set_merge sha256 a b)) =
     seed_info_address ` set (public_seeds (ss_seeds a)) \<union> seed_info_address ` set (public_seeds (ss_seeds b))"
  by (auto simp: merge_seeds image_Un dedup_by_keys)

lemma merge_distinct:
  "distinct (map seed_info_address (public_seeds (ss_seeds a))) \<Longrightarrow>
     distinct (map seed_info_address (ss_seeds (seed_set_merge sha256 a b)))"
  by (auto simp: merge_seeds dedup_by_distinct) (metis (no_types, lifting) DiffD2 dedup_by_keys imageI)

lemma merge_no_loopback: "s \<in> set (ss_seeds (seed_set_merge sha256 a b)) \<Longrightarrow> \<not> ip_is_loopback (si_ip s)"
  using dedup_by_set [of seed_info_address _ "public_seeds (ss_seeds b)"]
  by (force simp: merge_seeds public_seeds_def)

subsection \<open>Properties\<close>

text \<open>
  C2. Two nodes converge by one exchange: node A sends its seeds in a request frame, B
  verifies and handles it and replies with a response frame, and A verifies and handles the
  reply. Afterwards both nodes list exactly the same public IPv4 seeds (port not zero, not
  loopback): those that A or B listed before.
\<close>

theorem sync_exchange_converges:
  assumes env: "frame_env_ok se" "codec_ok (se_request se)" "codec_ok (se_response se)"
    and a: "g_address ga = Some acc_a" "keypair (fe_crypto se) acc_a" "gctx_ok ga" "g_node ga \<noteq> None"
    and b: "g_address gb = Some acc_b" "keypair (fe_crypto se) acc_b" "gctx_ok gb" "g_node gb \<noteq> None"
    and request: "frame_send se psk (se_request se) n1 ga ca (Some (local_request se ga)) ENode
        SeedSyncRequest False = Inr (Some bs1)"
      "verify_bytes se bs1 = Some f1" "command_from_data se (fr_body f1) = Some cmd1"
    and response: "seed_sync_request_handler se psk t1 n2 cb cmd1 gb = (gb', Some bs2)"
      "verify_bytes se bs2 = Some f2" "command_from_data se (fr_body f2) = Some cmd2"
  shows "{(x, n). (x, n) \<in> seeds_of (seed_sync_response_handler se t2 cmd2 ga) \<and> public_v4 x} =
      {(x, n). (x, n) \<in> seeds_of gb' \<and> public_v4 x} \<and>
    {(x, n). (x, n) \<in> seeds_of gb' \<and> public_v4 x} =
      {(x, n). (x, n) \<in> seeds_of ga \<union> seeds_of gb \<and> public_v4 x}"
proof -
  have rq: "dec (se_request se) (cmd_data cmd1) = Some (local_request se ga)"
    using frame_send_delivers' [OF env(1,2) a(1,2) request] by simp
  obtain reg where gb': "gb' = absorb_seeds se t1 (rq_seed_set (local_request se ga)) gb"
    and reg: "g_registry gb' = Some reg"
    and snd: "frame_send se psk (se_response se) n2 gb' cb (Some (sync_response se reg)) ENode
        SeedSyncResponse False = Inr (Some bs2)"
    using request_handler_cases [OF rq response(1)] by blast
  have adr: "g_address gb' = Some acc_b" using gb' b(1) by simp
  have rs: "dec (se_response se) (cmd_data cmd2) = Some (sync_response se reg)"
    using frame_send_delivers' [OF env(1,3) adr b(2) snd response(2,3)] by simp
  have "seeds_of (seed_sync_response_handler se t2 cmd2 ga) =
      {(a, n). (a, n) \<in> seeds_of gb' \<and> public_v4 a} \<union> seeds_of ga"
    using seeds_of_response [OF a(3,4) reg] by (simp add: seed_sync_response_handler_def rs)
  moreover have "seeds_of gb' = {(a, n). (a, n) \<in> seeds_of ga \<and> v4_with_port a} \<union> seeds_of gb"
    unfolding gb' by (rule seeds_of_request [OF b(3,4) a(4)])
  ultimately show ?thesis by (auto simp: public_v4_def)
qed

text \<open>
  Merging keeps the sealed-set contract: the merged set verifies, contains no loopback
  seed, and covers exactly the non-loopback addresses of both sets.
\<close>

theorem merge_sound:
  "seed_set_verify sha256 (seed_set_merge sha256 a b) \<and>
   public_seeds (ss_seeds (seed_set_merge sha256 a b)) = ss_seeds (seed_set_merge sha256 a b) \<and>
   seed_info_address ` set (ss_seeds (seed_set_merge sha256 a b)) =
     seed_info_address ` (set (public_seeds (ss_seeds a)) \<union> set (public_seeds (ss_seeds b)))"
proof -
  have "public_seeds (ss_seeds (seed_set_merge sha256 a b)) = ss_seeds (seed_set_merge sha256 a b)"
    unfolding public_seeds_def by (rule filter_True) (auto dest: merge_no_loopback)
  moreover have "seed_set_verify sha256 (seed_set_merge sha256 a b)"
    by (simp add: seed_set_merge_def Let_def)
  ultimately show ?thesis
    using merge_addresses [of sha256 a b] by (simp add: image_Un)
qed

text \<open>
  Merging commutes as far as the hash goes: two sets over the same previous hash that list
  no address twice merge to the same hash and epoch in either order, so two nodes that
  merge each other's set agree.
\<close>

theorem merge_hash_commutes:
  assumes "distinct (map seed_info_address (public_seeds (ss_seeds a)))"
    and "distinct (map seed_info_address (public_seeds (ss_seeds b)))"
    and "ss_pre_hash a = ss_pre_hash b"
  shows "ss_hash (seed_set_merge sha256 a b) = ss_hash (seed_set_merge sha256 b a) \<and>
    ss_epoch (seed_set_merge sha256 a b) = ss_epoch (seed_set_merge sha256 b a)"
proof -
  let ?ab = "ss_seeds (seed_set_merge sha256 a b)" and ?ba = "ss_seeds (seed_set_merge sha256 b a)"
  have "mset (map seed_info_address ?ab) = mset (map seed_info_address ?ba)"
    using merge_distinct [OF assms(1), of sha256 b] merge_distinct [OF assms(2), of sha256 a]
    by (subst set_eq_iff_mset_eq_distinct [symmetric]) (auto simp: merge_addresses simp del: set_map simp flip: image_set)
  then have "compute_seed_hash sha256 (ss_pre_hash a) ?ab = compute_seed_hash sha256 (ss_pre_hash a) ?ba"
    by (rule compute_seed_hash_perm)
  then show ?thesis
    using assms(3) by (simp add: seed_set_merge_def Let_def max.commute with_pre_hash_def)
qed

text \<open>
  C25. A synchronisation cycle ends, after at most the allowed number of rounds, whatever the
  peers and the clock do, with one of three results: the report that the node is missing from
  the context; a verified seed set, the one of the registry at the end; or, only where there
  was no node from the start and not one round was run because there are no peers or no time is
  left, the empty seed set.
\<close>

theorem sync_cycle_result:
  "case run_seed_sync_cycle sha256 time_left sync_peers peers max_rounds g of (r, k, g') \<Rightarrow>
     k \<le> effective_max max_rounds \<and>
     (case r of
        Inl e \<Rightarrow> e = node_missing \<and> g_node g' = None
      | Inr s \<Rightarrow> seed_set_verify sha256 s \<and>
          (case g_node g' of
             Some n \<Rightarrow> s = derive_seed_set_from_registry sha256 (n_registry n)
           | None \<Rightarrow> s = seed_set_new sha256 [] 0 \<and> g' = g \<and> k = 0 \<and> \<not> (peers \<noteq> [] \<and> time_left 0)))"
proof -
  have pos: "0 < effective_max max_rounds" by (simp add: effective_max_def unat_gt_0)
  show ?thesis
  proof (cases "peers = [] \<or> g_node g = None")
    case True
    then show ?thesis
      using pos by (auto simp: run_seed_sync_cycle_def cycle_loop_no_node split: option.splits)
  next
    case False
    obtain r k g' where run: "run_seed_sync_cycle sha256 time_left sync_peers peers max_rounds g = (r, k, g')"
      by (metis prod_cases3)
    then have loop: "cycle_loop sha256 time_left sync_peers (effective_max max_rounds) 0 None 0 g = (r, k, g')"
      using False by (simp add: run_seed_sync_cycle_def)
    have "g_node g' \<noteq> None" if "r = Inr s" for s
      using cycle_loop_node [OF loop [unfolded that]] False by blast
    then show ?thesis
      using cycle_loop_result [of 0 "effective_max max_rounds" sha256 time_left sync_peers 0 None g]
      by (auto simp: run loop split: option.splits sum.splits)
  qed
qed

text \<open>
  C10. The cycle detects convergence: when the hash of the node's seeds no longer changes from
  round \<open>K\<close> on, the cycle ends after round \<open>K + 2\<close> at the latest, however many
  rounds and however much time it is allowed.
\<close>

theorem sync_cycle_stops_when_stable:
  assumes "0 < K"
    and "\<And>j. K \<le> j \<Longrightarrow>
      seed_hash_of sha256 (after_rounds sync_peers g j) = seed_hash_of sha256 (after_rounds sync_peers g K)"
  shows "fst (snd (run_seed_sync_cycle sha256 time_left sync_peers peers max_rounds g)) \<le> K + 2"
proof -
  have "fst (snd (cycle_loop sha256 time_left sync_peers m 0 None 0 g)) \<le> K + 2" for m
    by (rule cycle_loop_stops [where ?g0.0 = g]) (erule assms(2), simp_all add: assms(1))
  then show ?thesis by (simp add: run_seed_sync_cycle_def)
qed

text \<open>
  IPv6 seeds do not travel: the seed information derived for an IPv6 socket never yields a
  socket address again, so a receiver registers nothing for it.
\<close>

theorem ipv6_seeds_lost:
  "seed_info_socket_addr (seed_info_of (SockV6 a p fl sid, n)) = None \<and>
   register_seed_info from_ip now (seed_info_of (SockV6 a p fl sid, n)) reg = reg"
  by (simp add: register_seed_info_def)

subsection \<open>Witnesses\<close>

definition demo_reg :: "string \<Rightarrow> u8 \<Rightarrow> node_registry" where
  "demo_reg n d = nr_register 1 n (SockV4 (Ipv4 10 0 0 d) 7) Intranet nr_new"

definition demo_node_ctx :: "string \<Rightarrow> u8 \<Rightarrow> nat global_ctx" where
  "demo_node_ctx n d =
     \<lparr>g_addr = SockV4 (Ipv4 10 0 0 d) 7,
      g_local_node = \<lparr>an_id = [d], an_version = 1, an_port = 7, an_ips = []\<rparr>,
      g_address = Some \<lparr>acc_string = n, acc_private_key = [d], acc_public_key = [d]\<rparr>,
      g_psk = None, g_node = Some \<lparr>n_registry = demo_reg n d, n_peer_addrs = []\<rparr>,
      g_connections = []\<rparr>"

text \<open>Codecs that know exactly the two messages of the exchange; the hash is the identity.\<close>

definition demo_request :: seed_sync_request where
  "demo_request = \<lparr>rq_from_node_id = show_sock (SockV4 (Ipv4 10 0 0 1) 7),
     rq_seed_set = derive_seed_set_from_registry id (demo_reg ''A'' 1), rq_retry_count = 0\<rparr>"

definition demo_both :: node_registry where
  "demo_both = nr_register 2 ''A'' (SockV4 (Ipv4 10 0 0 1) 7) Extranet (demo_reg ''B'' 2)"

definition demo_response :: seed_sync_response where
  "demo_response =
     (let s = filter_loopback id (derive_seed_set_from_registry id demo_both)
      in \<lparr>rs_seed_set = s, rs_hash = ss_hash s\<rparr>)"

definition demo_f :: "string \<Rightarrow> u8 \<Rightarrow> u8 \<Rightarrow> p2p_frame" where
  "demo_f n d x = \<lparr>fr_body = frame_body_new 1 n [d] 5 1 [x], fr_signature = [d, x]\<rparr>"

definition demo_sync :: sync_env where
  "demo_sync =
     \<lparr>fe_body = pair_codec [(fr_body (demo_f ''A'' 1 1), [1]), (fr_body (demo_f ''B'' 2 2), [2])],
      fe_cmd = pair_codec [(p2p_command_new ENode SeedSyncRequest [8], [1]),
                           (p2p_command_new ENode SeedSyncResponse [9], [2])],
      fe_frame = pair_codec [(demo_f ''A'' 1 1, [1]), (demo_f ''B'' 2 2, [2])],
      fe_msg = pair_codec [], fe_crypto = demo_crypto,
      se_request = pair_codec [(demo_request, [8])], se_response = pair_codec [(demo_response, [9])],
      se_commit = pair_codec [], se_sha256 = id, se_from_ip = (\<lambda>_. Extranet)\<rparr>"

lemma demo_sync_ok:
  "frame_env_ok demo_sync" "codec_ok (se_request demo_sync)" "codec_ok (se_response demo_sync)"
  by (simp_all add: demo_sync_def frame_env_ok_def codec_ok_pairs)

lemma demo_ctx_ok: "gctx_ok (demo_node_ctx n d)" "g_node (demo_node_ctx n d) \<noteq> None"
  by (auto simp: gctx_ok_def demo_node_ctx_def demo_reg_def nr_new_def)

lemma demo_acc:
  "g_address (demo_node_ctx n d) = Some \<lparr>acc_string = n, acc_private_key = [d], acc_public_key = [d]\<rparr>"
  "keypair (fe_crypto demo_sync) \<lparr>acc_string = n, acc_private_key = [d], acc_public_key = [d]\<rparr>"
  by (simp_all add: demo_node_ctx_def keypair_def demo_sync_def demo_crypto_def)

lemma demo_local_request: "local_request demo_sync (demo_node_ctx ''A'' 1) = demo_request"
  by (simp add: local_request_def local_seed_set_def demo_node_ctx_def demo_request_def demo_sync_def
      del: show_sock.simps)

lemma demo_send_request:
  "frame_send demo_sync demo_psk (se_request demo_sync) 5 (demo_node_ctx ''A'' 1) demo_conn
     (Some (local_request demo_sync (demo_node_ctx ''A'' 1))) ENode SeedSyncRequest False = Inr (Some [1])"
  unfolding demo_local_request
  by (simp add: frame_send_def demo_node_ctx_def demo_sync_def pair_codec_def frame_build_def
      frame_sign_def demo_f_def frame_body_new_def demo_crypto_def demo_conn_def)

lemma demo_verify:
  "verify_bytes demo_sync [1] = Some (demo_f ''A'' 1 1)"
  "verify_bytes demo_sync [2] = Some (demo_f ''B'' 2 2)"
  by (simp_all add: verify_bytes_def frame_verify_def signature_valid_def demo_sync_def pair_codec_def
      demo_f_def frame_body_new_def demo_crypto_def)

lemma demo_commands:
  "command_from_data demo_sync (fr_body (demo_f ''A'' 1 1)) = Some (p2p_command_new ENode SeedSyncRequest [8])"
  "command_from_data demo_sync (fr_body (demo_f ''B'' 2 2)) = Some (p2p_command_new ENode SeedSyncResponse [9])"
  by (simp_all add: command_from_data_def demo_sync_def pair_codec_def demo_f_def frame_body_new_def)

lemma demo_absorbed:
  "g_node (absorb_seeds demo_sync 2 (rq_seed_set demo_request) (demo_node_ctx ''B'' 2)) =
     Some \<lparr>n_registry = demo_both,
           n_peer_addrs = [SockV4 (Ipv4 10 0 0 2) 7, SockV4 (Ipv4 10 0 0 1) 7]\<rparr>"
proof -
  have a: "nr_get_all_seeds (demo_reg ''A'' 1) = [(SockV4 (Ipv4 10 0 0 1) 7, ''A'')]"
    by (simp add: demo_reg_def nr_get_all_seeds_def nr_register_def nr_new_def seed_direction_def
        entry_new_def)
  have b: "nr_get_all_seeds demo_both =
      [(SockV4 (Ipv4 10 0 0 2) 7, ''B''), (SockV4 (Ipv4 10 0 0 1) 7, ''A'')]"
    by (simp add: demo_both_def demo_reg_def nr_get_all_seeds_def nr_register_def nr_new_def
        seed_direction_def entry_new_def)
  have r: "fold (register_seed_info (se_from_ip demo_sync) 2) (ss_seeds (rq_seed_set demo_request))
      (demo_reg ''B'' 2) = demo_both"
    by (simp add: demo_request_def derive_seed_set_from_registry_def a register_seed_info_def
        demo_both_def demo_sync_def)
  show ?thesis
    by (simp add: absorb_seeds_def demo_node_ctx_def r Let_def derive_seed_set_from_registry_def b
        push_peer_def)
qed

lemma demo_reply:
  "seed_sync_request_handler demo_sync demo_psk 2 5 demo_conn
     (p2p_command_new ENode SeedSyncRequest [8]) (demo_node_ctx ''B'' 2) =
   (absorb_seeds demo_sync 2 (rq_seed_set demo_request) (demo_node_ctx ''B'' 2), Some [2])"
proof -
  have d: "dec (se_request demo_sync) (cmd_data (p2p_command_new ENode SeedSyncRequest [8])) = Some demo_request"
    by (simp add: demo_sync_def pair_codec_def p2p_command_new_def)
  have s: "sync_response demo_sync demo_both = demo_response"
    by (simp add: sync_response_def demo_response_def demo_sync_def)
  have "frame_send demo_sync demo_psk (se_response demo_sync) 5
      (absorb_seeds demo_sync 2 (rq_seed_set demo_request) (demo_node_ctx ''B'' 2)) demo_conn
      (Some demo_response) ENode SeedSyncResponse False = Inr (Some [2])"
    by (simp add: frame_send_def demo_acc(1) demo_sync_def pair_codec_def frame_build_def
        frame_sign_def demo_f_def frame_body_new_def demo_crypto_def demo_conn_def p2p_command_new_def)
  then show ?thesis
    by (simp add: seed_sync_request_handler_def d demo_absorbed Let_def s)
qed

theorem sync_exchange_converges_witness:
  "{(x, n). (x, n) \<in> seeds_of (seed_sync_response_handler demo_sync 3
        (p2p_command_new ENode SeedSyncResponse [9]) (demo_node_ctx ''A'' 1)) \<and> public_v4 x} =
   {(x, n). (x, n) \<in> seeds_of (demo_node_ctx ''A'' 1) \<union> seeds_of (demo_node_ctx ''B'' 2) \<and> public_v4 x}"
  using sync_exchange_converges [OF demo_sync_ok demo_acc demo_ctx_ok demo_acc demo_ctx_ok
      demo_send_request demo_verify(1) demo_commands(1) demo_reply demo_verify(2) demo_commands(2)]
  by simp

theorem merge_hash_commutes_witness:
  "ss_hash (seed_set_merge id (seed_set_new id [seed_info_new ''10.0.0.1'' 7 ''A'' True] 3)
       (seed_set_new id [seed_info_new ''10.0.0.2'' 7 ''B'' True] 4)) =
   ss_hash (seed_set_merge id (seed_set_new id [seed_info_new ''10.0.0.2'' 7 ''B'' True] 4)
       (seed_set_new id [seed_info_new ''10.0.0.1'' 7 ''A'' True] 3))"
proof -
  have "distinct (map f (public_seeds [x]))" for f :: "seed_info \<Rightarrow> string" and x
    by (simp add: public_seeds_def)
  then show ?thesis
    using merge_hash_commutes [of "seed_set_new id [seed_info_new ''10.0.0.1'' 7 ''A'' True] 3"
        "seed_set_new id [seed_info_new ''10.0.0.2'' 7 ''B'' True] 4" id]
    by (simp add: seed_set_new_def)
qed

theorem sync_cycle_stops_when_stable_witness:
  "fst (snd (run_seed_sync_cycle id (\<lambda>_. True) (\<lambda>_ g. g) [SockV4 (Ipv4 10 0 0 2) 7] 100
     (demo_node_ctx ''A'' 1))) \<le> 1 + 2"
proof (rule sync_cycle_stops_when_stable)
  have "after_rounds (\<lambda>_ g. g) x j = x" for x :: "nat global_ctx" and j
    by (induction j) simp_all
  then show "seed_hash_of id (after_rounds (\<lambda>_ g. g) (demo_node_ctx ''A'' 1) j) =
      seed_hash_of id (after_rounds (\<lambda>_ g. g) (demo_node_ctx ''A'' 1) 1)" for j
    by simp
qed simp

end
