(* ===== verification/Handshake.thy ===== *)
theory Handshake
  imports Frame Seeds
begin

text \<open>
  The online handshake and seed gossip (\<^verbatim>\<open>src/protocols/commands/online.rs\<close> and
  \<^verbatim>\<open>ack.rs\<close>): the handlers of \<^verbatim>\<open>OnLine\<close> and \<^verbatim>\<open>OnLineAck\<close>, the seed
  broadcast, dialling a new peer, and the task that releases the slot of a closed
  connection.

  A handler maps the connection and the global context to their new values and a list of
  effects: what is written, what is called on the connection manager, and which tasks are
  spawned. The bodies of the spawned tasks are definitions of their own. One clock reading
  stamps the registry calls of one run of a handler.
\<close>

record online_command =
  on_session_id :: bytes
  on_node :: aex_node
  on_key :: bytes
  on_intranet_ips :: "string list"
  on_wan_ips :: "string list"
  on_seeds :: "seeds_command option"

record online_ack_command =
  oa_session_id :: bytes
  oa_address :: string
  oa_node :: aex_node
  oa_key :: bytes
  oa_intranet_ips :: "string list"
  oa_wan_ips :: "string list"
  oa_seeds :: "seeds_command option"

record peer_online_event =
  po_addr :: string
  po_intranet_ips :: "string list"
  po_wan_ips :: "string list"

record peer_offline_event =
  pf_addr :: string

record 'p hs_env = frame_env +
  hs_online :: "online_command codec"
  hs_ack :: "online_ack_command codec"
  hs_sha256 :: "bytes \<Rightarrow> bytes"
  hs_from_ip :: "ip_addr \<Rightarrow> network_scope"
  hs_from_system :: "u16 \<Rightarrow> bytes \<Rightarrow> nat \<Rightarrow> aex_node"
  hs_psk :: "'p psk_ops"

datatype side = Client | Server

datatype effect =
    Sent bytes
  | Broadcast "(socket_addr \<times> bytes) list"
  | UpdateNode side socket_addr aex_node
  | MarkActive socket_addr bool
  | RemoveConnection socket_addr bool
  | SpawnConnect socket_addr string
  | SpawnBroadcast seeds_command
  | SpawnReturnConnect socket_addr online_command
  | PublishOnline peer_online_event
  | PublishOffline peer_offline_event
  | SpawnNodeSync string
  | SpawnCleanup string socket_addr

definition zero_key :: bytes where
  "zero_key = replicate 32 0"

subsection \<open>Shared pieces\<close>

definition bucket :: "('p, 'z) hs_env_scheme \<Rightarrow> 'p global_ctx \<Rightarrow> socket_addr \<Rightarrow> bi_conn option" where
  "bucket he g a = map_of (g_connections g) (sock_ip a, hs_from_ip he (sock_ip a))"

text \<open>The addresses a node announces, by scope.\<close>

definition announced_ips :: "network_scope \<Rightarrow> aex_node \<Rightarrow> string list" where
  "announced_ips sc node = map (\<lambda>(_, ip). show_ip ip) (filter (\<lambda>(s, _). s = sc) (an_ips node))"

definition all_seeds_command ::
  "('p, 'z) hs_env_scheme \<Rightarrow> (nat \<Rightarrow> i64) \<Rightarrow> 'p global_ctx \<Rightarrow> seeds_command" where
  "all_seeds_command he clock g =
     (case g_node g of
        Some n \<Rightarrow> seeds_command_new (hs_sha256 he) (registry_records clock (n_registry n))
      | None \<Rightarrow> seeds_command_new (hs_sha256 he) [])"

text \<open>
  The test before a seed's node is dialled: not already connected, not this node itself,
  and only the node with the smaller address dials.
\<close>

definition dial_target :: "account option \<Rightarrow> node_registry \<Rightarrow> seed_record \<Rightarrow> socket_addr option" where
  "dial_target acc reg s =
     (if nr_is_connected (sr_node_address s) reg then None
      else if (case acc of Some a \<Rightarrow> sr_node_address s = acc_string a | None \<Rightarrow> False) then None
      else if (case acc of Some a \<Rightarrow> sr_node_address s < acc_string a | None \<Rightarrow> False) then None
      else parse_sock (sr_address s))"

definition dial_effects :: "account option \<Rightarrow> node_registry \<Rightarrow> seed_record \<Rightarrow> effect list" where
  "dial_effects acc reg s =
     (case dial_target acc reg s of Some a \<Rightarrow> [SpawnConnect a (sr_node_address s)] | None \<Rightarrow> [])"

subsection \<open>Seed gossip\<close>

definition gossip_update ::
  "('p, 'z) hs_env_scheme \<Rightarrow> 'p global_ctx \<Rightarrow> socket_addr \<Rightarrow> aex_node \<Rightarrow> effect list" where
  "gossip_update he g a node =
     (case bucket he g a of
        None \<Rightarrow> []
      | Some b \<Rightarrow>
          if a \<in> set (hkeys (bc_servers b)) then [UpdateNode Server a node]
          else if a \<in> set (hkeys (bc_clients b)) then [UpdateNode Client a node]
          else [])"

text \<open>One gossiped seed: register its node if it is unknown, then decide whether to dial it.\<close>

definition gossip_seed ::
  "('p, 'z) hs_env_scheme \<Rightarrow> u64 \<Rightarrow> account option \<Rightarrow> seed_record \<Rightarrow>
   node_registry \<times> effect list \<Rightarrow> node_registry \<times> effect list" where
  "gossip_seed he now acc s st =
     (case st of (reg, effs) \<Rightarrow>
        (let reg' = (if \<not> nr_is_registered (sr_node_address s) reg
                     then register_record (hs_from_ip he) now s reg else reg)
         in (reg', effs @ dial_effects acc reg' s)))"

definition gossip_seeds ::
  "('p, 'z) hs_env_scheme \<Rightarrow> u64 \<Rightarrow> (nat \<Rightarrow> i64) \<Rightarrow> account option \<Rightarrow> seed_record list \<Rightarrow>
   node_registry \<Rightarrow> node_registry \<times> effect list" where
  "gossip_seeds he now clock acc ss reg =
     (case fold (gossip_seed he now acc) ss (reg, []) of (reg', effs) \<Rightarrow>
        (reg', effs @
           (if length (nr_get_all_seeds reg) < length (nr_get_all_seeds reg')
            then [SpawnBroadcast (seeds_command_new (hs_sha256 he) (registry_records clock reg'))]
            else [])))"

definition online_gossip ::
  "('p, 'z) hs_env_scheme \<Rightarrow> u64 \<Rightarrow> (nat \<Rightarrow> i64) \<Rightarrow> string \<Rightarrow> online_command \<Rightarrow> conn \<Rightarrow>
   'p global_ctx \<Rightarrow> 'p global_ctx \<times> effect list" where
  "online_gossip he now clock from online c g =
     (let upd = gossip_update he g (c_addr c) (on_node online);
          listen = sock_new (sock_ip (c_addr c)) (an_port (on_node online));
          g1 = on_registry (nr_register now from listen (hs_from_ip he (sock_ip listen))) g
      in case on_seeds online of
           None \<Rightarrow> (g1, upd)
         | Some peer_seeds \<Rightarrow>
             if \<not> seeds_command_verify (hs_sha256 he) peer_seeds then (g1, upd)
             else (case g_registry g1 of
                     None \<Rightarrow> (g1, upd)
                   | Some reg \<Rightarrow>
                       (case gossip_seeds he now clock (g_address g1) (sc_seeds peer_seeds) reg of
                          (reg', effs) \<Rightarrow> (on_registry (\<lambda>_. reg') g1, upd @ effs))))"

subsection \<open>The online handler\<close>

text \<open>Claim the connection slot of the peer and record its listening socket.\<close>

definition online_register ::
  "('p, 'z) hs_env_scheme \<Rightarrow> u64 \<Rightarrow> string \<Rightarrow> online_command \<Rightarrow> conn \<Rightarrow> 'p global_ctx \<Rightarrow>
   bool \<times> 'p global_ctx" where
  "online_register he now from online c g =
     (case g_registry g of
        None \<Rightarrow> (False, g)
      | Some reg \<Rightarrow>
          (case nr_try_connect now from reg of (fresh, reg1) \<Rightarrow>
             (let listen = sock_new (sock_ip (c_addr c)) (an_port (on_node online));
                  reg2 = nr_register_with_direction now from listen (hs_from_ip he (sock_ip listen))
                           Inbound reg1
              in (\<not> fresh, on_registry (\<lambda>_. reg2) g))))"

definition online_update ::
  "('p, 'z) hs_env_scheme \<Rightarrow> 'p global_ctx \<Rightarrow> socket_addr \<Rightarrow> aex_node \<Rightarrow> effect list" where
  "online_update he g a node =
     (case bucket he g a of
        None \<Rightarrow> []
      | Some b \<Rightarrow>
          if a \<in> set (hkeys (bc_clients b)) then [UpdateNode Client a node]
          else if a \<in> set (hkeys (bc_servers b)) then [UpdateNode Server a node]
          else [])"

text \<open>
  The key exchange of the responder: the same call on first and on return connections. An
  error ends the handler, and an existing key is answered with the zero key.
\<close>

definition online_exchange ::
  "('p, 'z) hs_env_scheme \<Rightarrow> bool \<Rightarrow> string \<Rightarrow> string \<Rightarrow> online_command \<Rightarrow> 'p \<Rightarrow> bytes option \<times> 'p" where
  "online_exchange he is_return from local_addr online p =
     (case psk_establish_begins (hs_psk he) p (as_bytes from) (as_bytes local_addr) (on_key online) of
        (Inr (Some pk), p') \<Rightarrow> (Some pk, p')
      | (Inr None, p') \<Rightarrow> (Some zero_key, p')
      | (Inl e, p') \<Rightarrow> (None, p'))"

definition online_merge ::
  "('p, 'z) hs_env_scheme \<Rightarrow> u64 \<Rightarrow> online_command \<Rightarrow> 'p global_ctx \<Rightarrow> 'p global_ctx" where
  "online_merge he now online g =
     (case on_seeds online of
        None \<Rightarrow> g
      | Some peer_seeds \<Rightarrow>
          if seeds_command_verify (hs_sha256 he) peer_seeds
          then on_registry (register_records (hs_from_ip he) now (sc_seeds peer_seeds)) g
          else g)"

definition online_ack ::
  "('p, 'z) hs_env_scheme \<Rightarrow> (nat \<Rightarrow> i64) \<Rightarrow> account \<Rightarrow> bytes \<Rightarrow> online_command \<Rightarrow> 'p global_ctx \<Rightarrow>
   online_ack_command" where
  "online_ack he clock acc key online g =
     \<lparr>oa_session_id = on_session_id online, oa_address = acc_string acc, oa_node = g_local_node g,
      oa_key = key, oa_intranet_ips = announced_ips Intranet (g_local_node g),
      oa_wan_ips = announced_ips Extranet (g_local_node g),
      oa_seeds = Some (all_seeds_command he clock g)\<rparr>"

text \<open>The return connection: skipped when an outbound connection to the peer exists.\<close>

definition already_outbound ::
  "('p, 'z) hs_env_scheme \<Rightarrow> 'p global_ctx \<Rightarrow> socket_addr \<Rightarrow> socket_addr \<Rightarrow> bool" where
  "already_outbound he g peer_sock peer_addr =
     (case bucket he g peer_addr of
        Some b \<Rightarrow> peer_sock \<in> set (hkeys (bc_servers b)) \<or> peer_addr \<in> set (hkeys (bc_servers b))
      | None \<Rightarrow> False)"

definition online_return ::
  "('p, 'z) hs_env_scheme \<Rightarrow> online_command \<Rightarrow> conn \<Rightarrow> 'p \<Rightarrow> 'p global_ctx \<Rightarrow> 'p global_ctx \<times> effect list" where
  "online_return he online c p g =
     (let peer_addr = sock_new (sock_ip (c_addr c)) (an_port (on_node online))
      in if already_outbound he g (c_addr c) peer_addr then (g, [])
         else (case psk_create (hs_psk he) p of
                 ((session_id, eph), p') \<Rightarrow>
                   (g\<lparr>g_psk := Some p'\<rparr>,
                    [SpawnReturnConnect peer_addr
                       \<lparr>on_session_id = session_id, on_node = g_local_node g, on_key = eph,
                        on_intranet_ips = [], on_wan_ips = [], on_seeds = None\<rparr>])))"

text \<open>After the acknowledgement: return connection, broadcast, event, data sync and cleanup task.\<close>

definition online_finish ::
  "('p, 'z) hs_env_scheme \<Rightarrow> (nat \<Rightarrow> i64) \<Rightarrow> string \<Rightarrow> online_command \<Rightarrow> conn \<Rightarrow> 'p \<Rightarrow>
   'p global_ctx \<Rightarrow> 'p global_ctx \<times> effect list" where
  "online_finish he clock from online c p g =
     (case online_return he online c p g of (g', effs) \<Rightarrow>
        (g', effs @
           [SpawnBroadcast (all_seeds_command he clock g'),
            PublishOnline \<lparr>po_addr = from, po_intranet_ips = on_intranet_ips online,
                           po_wan_ips = on_wan_ips online\<rparr>,
            SpawnNodeSync from,
            SpawnCleanup from (c_addr c)]))"

definition online_session ::
  "('p, 'z) hs_env_scheme \<Rightarrow> u64 \<Rightarrow> (nat \<Rightarrow> i64) \<Rightarrow> u64 \<Rightarrow> string \<Rightarrow> online_command \<Rightarrow> conn \<Rightarrow>
   'p global_ctx \<Rightarrow> conn \<times> 'p global_ctx \<times> effect list" where
  "online_session he now clock nonce from online c0 g0 =
     (case online_register he now from online c0 g0 of (is_return, g1) \<Rightarrow>
      (let c = c0\<lparr>c_peer := Some from\<rparr>;
           upd = online_update he g1 (c_addr c) (on_node online)
       in case g_psk g1 of
            None \<Rightarrow> (c, g1, upd)
          | Some p \<Rightarrow>
              (case g_address g1 of
                 None \<Rightarrow> (c, g1, upd)
               | Some acc \<Rightarrow>
                   (case online_exchange he is_return from (acc_string acc) online p of (key, p1) \<Rightarrow>
                    (let g2 = g1\<lparr>g_psk := Some p1\<rparr>
                     in case key of
                          None \<Rightarrow> (c, g2, upd)
                        | Some k \<Rightarrow>
                            (let g3 = online_merge he now online g2;
                                 ack = online_ack he clock acc k online g3
                             in case frame_send he (hs_psk he) (hs_ack he) nonce g3 c (Some ack) ENode
                                       OnLineAck False of
                                  Inl e \<Rightarrow> (c, g3, upd)
                                | Inr sent \<Rightarrow>
                                    (case online_finish he clock from online c p1 g3 of (g4, effs) \<Rightarrow>
                                       (c, g4, upd @ (case sent of Some bs \<Rightarrow> [Sent bs] | None \<Rightarrow> []) @ effs))))))))"

definition online_handler ::
  "('p, 'z) hs_env_scheme \<Rightarrow> u64 \<Rightarrow> (nat \<Rightarrow> i64) \<Rightarrow> u64 \<Rightarrow> p2p_frame \<Rightarrow> p2p_command \<Rightarrow> conn \<Rightarrow>
   'p global_ctx \<Rightarrow> conn \<times> 'p global_ctx \<times> effect list" where
  "online_handler he now clock nonce f cmd c g =
     (case dec (hs_online he) (cmd_data cmd) of
        None \<Rightarrow> (c, g, [])
      | Some online \<Rightarrow>
          if on_session_id online = [] then
            (case online_gossip he now clock (fb_address (fr_body f)) online c g of
               (g', effs) \<Rightarrow> (c, g', effs))
          else online_session he now clock nonce (fb_address (fr_body f)) online c g)"

subsection \<open>The acknowledgement handler\<close>

definition ack_exchange ::
  "('p, 'z) hs_env_scheme \<Rightarrow> string \<Rightarrow> string \<Rightarrow> online_ack_command \<Rightarrow> 'p \<Rightarrow> 'p" where
  "ack_exchange he from local_addr ack p =
     (if list_all (\<lambda>b. b = 0) (oa_key ack) then p
      else snd (psk_establish_ends (hs_psk he) p (oa_session_id ack) (as_bytes from)
                  (as_bytes local_addr) (oa_key ack)))"

definition ack_register ::
  "('p, 'z) hs_env_scheme \<Rightarrow> u64 \<Rightarrow> online_ack_command \<Rightarrow> conn \<Rightarrow> 'p global_ctx \<Rightarrow> 'p global_ctx" where
  "ack_register he now ack c g =
     on_registry
       (\<lambda>reg. nr_register_with_direction now (oa_address ack) (c_addr c)
                (hs_from_ip he (sock_ip (c_addr c))) Outbound
                (snd (nr_try_connect now (oa_address ack) reg))) g"

definition ack_update ::
  "('p, 'z) hs_env_scheme \<Rightarrow> 'p global_ctx \<Rightarrow> socket_addr \<Rightarrow> aex_node \<Rightarrow> effect list" where
  "ack_update he g a node =
     (case bucket he g a of
        Some b \<Rightarrow> if a \<in> set (hkeys (bc_servers b)) then [UpdateNode Server a node] else []
      | None \<Rightarrow> [])"

text \<open>The sockets announced in an acknowledgement: each public address with the connection's port.\<close>

definition announced_seed :: "socket_addr \<Rightarrow> string \<Rightarrow> socket_addr option" where
  "announced_seed peer_addr ip =
     (if (case parse_ip ip of Some a \<Rightarrow> is_loopback a | None \<Rightarrow> False) then None
      else Some (case parse_sock (ip @ '':'' @ show_nat (unat (sock_port peer_addr))) of
                   Some a \<Rightarrow> a
                 | None \<Rightarrow> peer_addr))"

definition ack_announced ::
  "u64 \<Rightarrow> online_ack_command \<Rightarrow> socket_addr \<Rightarrow> node_registry \<Rightarrow> node_registry" where
  "ack_announced now ack peer_addr reg =
     fold (\<lambda>ip r. case announced_seed peer_addr ip of
                    Some a \<Rightarrow> snd (nr_add_seed now (oa_address ack) a r)
                  | None \<Rightarrow> r)
       (oa_intranet_ips ack @ oa_wan_ips ack) reg"

definition ack_seeds ::
  "('p, 'z) hs_env_scheme \<Rightarrow> u64 \<Rightarrow> (nat \<Rightarrow> i64) \<Rightarrow> account option \<Rightarrow> seed_record list \<Rightarrow>
   node_registry \<Rightarrow> node_registry \<times> effect list" where
  "ack_seeds he now clock acc ss reg =
     (let reg' = register_records (hs_from_ip he) now ss reg
      in (reg',
          (if length (nr_get_all_seeds reg) < length (nr_get_all_seeds reg')
           then [SpawnBroadcast (seeds_command_new (hs_sha256 he) (registry_records clock reg'))]
           else []) @
          concat (map (dial_effects acc reg') ss)))"

definition ack_consensus ::
  "('p, 'z) hs_env_scheme \<Rightarrow> u64 \<Rightarrow> (nat \<Rightarrow> i64) \<Rightarrow> online_ack_command \<Rightarrow> 'p global_ctx \<Rightarrow>
   'p global_ctx \<times> effect list" where
  "ack_consensus he now clock ack g =
     (case oa_seeds ack of
        None \<Rightarrow> (g, [])
      | Some sc \<Rightarrow>
          if \<not> seeds_command_verify (hs_sha256 he) sc then (g, [])
          else (case g_registry g of
                  None \<Rightarrow> (g, [])
                | Some reg \<Rightarrow>
                    (case ack_seeds he now clock (g_address g) (sc_seeds sc) reg of
                       (reg', effs) \<Rightarrow> (on_registry (\<lambda>_. reg') g, effs))))"

definition onlineack_handler ::
  "('p, 'z) hs_env_scheme \<Rightarrow> u64 \<Rightarrow> (nat \<Rightarrow> i64) \<Rightarrow> p2p_frame \<Rightarrow> p2p_command \<Rightarrow> conn \<Rightarrow>
   'p global_ctx \<Rightarrow> conn \<times> 'p global_ctx \<times> effect list" where
  "onlineack_handler he now clock f cmd c0 g0 =
     (case dec (hs_ack he) (cmd_data cmd) of
        None \<Rightarrow> (c0, g0, [])
      | Some ack \<Rightarrow>
          (case g_psk g0 of
             None \<Rightarrow> (c0, g0, [])
           | Some p \<Rightarrow>
               (case g_address g0 of
                  None \<Rightarrow> (c0, g0, [])
                | Some acc \<Rightarrow>
                    (let g1 = g0\<lparr>g_psk := Some (ack_exchange he (fb_address (fr_body f)) (acc_string acc) ack p)\<rparr>;
                         g2 = ack_register he now ack c0 g1;
                         c = c0\<lparr>c_peer := Some (oa_address ack)\<rparr>;
                         upd = ack_update he g2 (c_addr c) (oa_node ack);
                         g3 = on_registry (ack_announced now ack (c_addr c)) g2
                     in case ack_consensus he now clock ack g3 of
                          (g4, effs) \<Rightarrow> (c, g4, upd @ [MarkActive (c_addr c) False] @ effs)))))"

subsection \<open>Broadcast and dialling\<close>

definition broadcast_seeds_to_peers ::
  "('p, 'z) hs_env_scheme \<Rightarrow> u64 \<Rightarrow> seeds_command \<Rightarrow> 'p global_ctx \<Rightarrow> (socket_addr \<times> bytes) list" where
  "broadcast_seeds_to_peers he nonce sc g =
     (case g_address g of
        None \<Rightarrow> []
      | Some acc \<Rightarrow>
          (case enc (hs_online he)
                  \<lparr>on_session_id = [], on_node = hs_from_system he 0 (an_id (g_local_node g)) 1,
                   on_key = zero_key, on_intranet_ips = [], on_wan_ips = [], on_seeds = Some sc\<rparr> of
             None \<Rightarrow> []
           | Some cmd_bytes \<Rightarrow>
               (case frame_build he acc (p2p_command_new ENode OnLine cmd_bytes) 1 nonce of
                  None \<Rightarrow> []
                | Some f \<Rightarrow>
                    (case enc (fe_frame he) f of
                       None \<Rightarrow> []
                     | Some bs \<Rightarrow>
                         map (\<lambda>e. (ce_addr e, bs)) (filter writable (conn_entries (g_connections g)))))))"

text \<open>
  \<open>dial\<close> is the connection manager: the new connection's context, or nothing. The
  result is whether the connection was made, what was written on it, and the context.
\<close>

definition connect_to_new_peer ::
  "('p, 'z) hs_env_scheme \<Rightarrow> (nat \<Rightarrow> i64) \<Rightarrow> u64 \<Rightarrow> (socket_addr \<Rightarrow> conn option) \<Rightarrow> socket_addr \<Rightarrow>
   'p global_ctx \<Rightarrow> bool \<times> bytes option \<times> 'p global_ctx" where
  "connect_to_new_peer he clock nonce dial addr g =
     (case g_psk g of
        None \<Rightarrow> (False, None, g)
      | Some p \<Rightarrow>
          (case psk_create (hs_psk he) p of ((session_id, key), p') \<Rightarrow>
             (let g' = g\<lparr>g_psk := Some p'\<rparr>;
                  cmd = \<lparr>on_session_id = session_id, on_node = g_local_node g', on_key = key,
                         on_intranet_ips = announced_ips Intranet (g_local_node g'),
                         on_wan_ips = announced_ips Extranet (g_local_node g'),
                         on_seeds = Some (all_seeds_command he clock g')\<rparr>
              in case dial addr of
                   None \<Rightarrow> (False, None, g')
                 | Some c \<Rightarrow>
                     (True,
                      case frame_send he (hs_psk he) (hs_online he) nonce g' c (Some cmd) ENode OnLine False of
                        Inr sent \<Rightarrow> sent
                      | Inl e \<Rightarrow> None,
                      g'))))"

text \<open>The spawned task: dial, and mark the seed's node connected on success.\<close>

definition spawned_connect ::
  "('p, 'z) hs_env_scheme \<Rightarrow> (nat \<Rightarrow> i64) \<Rightarrow> u64 \<Rightarrow> (socket_addr \<Rightarrow> conn option) \<Rightarrow> socket_addr \<Rightarrow>
   string \<Rightarrow> 'p global_ctx \<Rightarrow> 'p global_ctx \<times> bytes option" where
  "spawned_connect he clock nonce dial addr node_addr g =
     (case connect_to_new_peer he clock nonce dial addr g of (ok, sent, g') \<Rightarrow>
        (if ok then on_registry (nr_mark_connected node_addr True) g' else g', sent))"

text \<open>The spawned return connection: dial and send the command.\<close>

definition return_connect ::
  "('p, 'z) hs_env_scheme \<Rightarrow> u64 \<Rightarrow> (socket_addr \<Rightarrow> conn option) \<Rightarrow> socket_addr \<Rightarrow> online_command \<Rightarrow>
   'p global_ctx \<Rightarrow> bytes option" where
  "return_connect he nonce dial addr cmd g =
     (case dial addr of
        None \<Rightarrow> None
      | Some c \<Rightarrow>
          (case frame_send he (hs_psk he) (hs_online he) nonce g c (Some cmd) ENode OnLine False of
             Inr sent \<Rightarrow> sent
           | Inl e \<Rightarrow> None))"

text \<open>
  One poll of the cleanup task: nothing while the connection is listed; otherwise the slot
  of the node is released, the offline event is published and the task ends.
\<close>

definition still_connected :: "('p, 'z) hs_env_scheme \<Rightarrow> 'p global_ctx \<Rightarrow> socket_addr \<Rightarrow> bool" where
  "still_connected he g a =
     (case bucket he g a of
        Some b \<Rightarrow> a \<in> set (hkeys (bc_clients b)) \<or> a \<in> set (hkeys (bc_servers b))
      | None \<Rightarrow> False)"

definition cleanup_poll ::
  "('p, 'z) hs_env_scheme \<Rightarrow> string \<Rightarrow> socket_addr \<Rightarrow> 'p global_ctx \<Rightarrow> ('p global_ctx \<times> effect list) option" where
  "cleanup_poll he node_id a g =
     (if still_connected he g a then None
      else Some (on_registry (nr_disconnect node_id) g, [PublishOffline \<lparr>pf_addr = node_id\<rparr>]))"

text \<open>\<^verbatim>\<open>offline.rs\<close>: the connection is removed from the manager.\<close>

definition offline_handler :: "conn \<Rightarrow> effect list" where
  "offline_handler c = [RemoveConnection (c_addr c) True]"

subsection \<open>The registry stays well formed\<close>

lemma gctx_ok_psk [simp]: "gctx_ok (g\<lparr>g_psk := p\<rparr>) = gctx_ok g"
  by (simp add: gctx_ok_def)

lemma g_registry_psk [simp]: "g_registry (g\<lparr>g_psk := p\<rparr>) = g_registry g"
  by (simp add: g_registry_def)

lemma gossip_seed_ok: "registry_ok (fst st) \<Longrightarrow> registry_ok (fst (gossip_seed he now acc s st))"
  by (cases st) (auto simp: gossip_seed_def Let_def)

lemma gossip_fold_ok: "registry_ok (fst st) \<Longrightarrow> registry_ok (fst (fold (gossip_seed he now acc) ss st))"
  by (rule fold_keeps [where P = "\<lambda>st. registry_ok (fst st)"]) (auto intro: gossip_seed_ok)

lemma gossip_seeds_ok: "registry_ok reg \<Longrightarrow> registry_ok (fst (gossip_seeds he now clock acc ss reg))"
  using gossip_fold_ok [of "(reg, [])" he now acc ss] by (auto simp: gossip_seeds_def split: prod.split)

lemma online_gossip_ok: "gctx_ok g \<Longrightarrow> gctx_ok (fst (online_gossip he now clock from online c g))"
proof -
  assume ok: "gctx_ok g"
  define listen where "listen = sock_new (sock_ip (c_addr c)) (an_port (on_node online))"
  define g1 where "g1 = on_registry (nr_register now from listen (hs_from_ip he (sock_ip listen))) g"
  have g1: "gctx_ok g1" unfolding g1_def by (rule gctx_ok_on_registry [OF ok]) auto
  then have reg: "g_registry g1 = Some reg \<Longrightarrow> registry_ok reg" for reg
    by (simp add: gctx_ok_iff)
  have "gossip_seeds he now clock acc ss r = (r', e) \<Longrightarrow> g_registry g1 = Some r \<Longrightarrow> gctx_ok (on_registry (\<lambda>_. r') g1)"
    for acc ss r r' e
    using gossip_seeds_ok [of r he now clock acc ss] reg [of r]
    by (intro gctx_ok_on_registry [OF g1]) auto
  then show ?thesis
    using g1 unfolding online_gossip_def Let_def listen_def [symmetric] g1_def [symmetric]
    by (auto split: option.split prod.split)
qed

lemma online_register_ok: "gctx_ok g \<Longrightarrow> gctx_ok (snd (online_register he now from online c g))"
proof -
  assume ok: "gctx_ok g"
  have "registry_ok reg2" if "g_registry g = Some reg"
    "reg2 = nr_register_with_direction now from l sc Inbound (snd (nr_try_connect now from reg))" for reg reg2 l sc
    using ok that by (auto simp: gctx_ok_iff)
  then show ?thesis
    using ok by (auto simp: online_register_def Let_def split: option.split prod.split
        intro!: gctx_ok_on_registry) (metis snd_conv)
qed

lemma online_merge_ok: "gctx_ok g \<Longrightarrow> gctx_ok (online_merge he now online g)"
  by (auto simp: online_merge_def intro!: gctx_ok_on_registry split: option.split)

lemma online_return_ok: "gctx_ok g \<Longrightarrow> gctx_ok (fst (online_return he online c p g))"
  by (auto simp: online_return_def Let_def split: prod.split)

lemma online_finish_ok: "gctx_ok g \<Longrightarrow> gctx_ok (fst (online_finish he clock from online c p g))"
  using online_return_ok [of g he online c p] by (auto simp: online_finish_def split: prod.split)

lemma online_session_ok:
  assumes "gctx_ok g"
  shows "gctx_ok (fst (snd (online_session he now clock nonce from online c g)))"
proof -
  obtain ret g1 where r: "online_register he now from online c g = (ret, g1)" by fastforce
  have g1: "gctx_ok g1" using online_register_ok [OF assms, of he now "from" online c] r by simp
  have g3: "gctx_ok (online_merge he now online (g1\<lparr>g_psk := q\<rparr>))" for q
    by (rule online_merge_ok) (simp add: g1)
  have g4: "online_finish he clock from online c' q (online_merge he now online (g1\<lparr>g_psk := q'\<rparr>)) = (g', e) \<Longrightarrow>
      gctx_ok g'" for c' q q' g' e
    using online_finish_ok [OF g3, of he clock "from" online c' q q'] by simp
  show ?thesis
    unfolding online_session_def r Let_def
    by (auto simp: g1 g3 dest: g4 split: option.split prod.split sum.split)
qed

lemma ack_announced_ok: "registry_ok reg \<Longrightarrow> registry_ok (ack_announced now ack a reg)"
  unfolding ack_announced_def
  by (rule fold_keeps [where P = registry_ok]) (auto split: option.split)

lemma ack_consensus_ok: "gctx_ok g \<Longrightarrow> gctx_ok (fst (ack_consensus he now clock ack g))"
  by (auto simp: ack_consensus_def ack_seeds_def Let_def gctx_ok_iff split: option.splits prod.splits
      intro!: gctx_ok_on_registry)

lemma onlineack_ok:
  assumes "gctx_ok g"
  shows "gctx_ok (fst (snd (onlineack_handler he now clock f cmd c g)))"
proof -
  have "gctx_ok (fst (ack_consensus he now clock ack
      (on_registry (ack_announced now ack a) (ack_register he now ack c (g\<lparr>g_psk := q\<rparr>)))))" for ack a q
    unfolding ack_register_def
    by (rule ack_consensus_ok, rule gctx_ok_on_registry, rule gctx_ok_on_registry)
      (auto simp: assms intro: ack_announced_ok)
  then show ?thesis
    using assms by (auto simp: onlineack_handler_def Let_def split: option.split prod.split)
      (metis fst_conv)
qed

subsection \<open>Dialling\<close>

lemma dial_effects_Spawn:
  "e \<in> set (dial_effects acc reg s) \<longleftrightarrow>
     (\<exists>a. e = SpawnConnect a (sr_node_address s) \<and> dial_target acc reg s = Some a)"
  by (auto simp: dial_effects_def split: option.split)

lemma dial_target_Some:
  "dial_target acc reg s = Some a \<Longrightarrow> parse_sock (sr_address s) = Some a \<and>
     \<not> nr_is_connected (sr_node_address s) reg \<and>
     (\<forall>me. acc = Some me \<longrightarrow> acc_string me < sr_node_address s)"
  by (auto simp: dial_target_def not_less split: if_splits option.splits intro: le_neq_trans)

text \<open>An effect that dials only nodes with a greater address than this node's.\<close>

definition dials_up :: "account option \<Rightarrow> effect \<Rightarrow> bool" where
  "dials_up acc e \<longleftrightarrow> (\<exists>a n. e = SpawnConnect a n \<and> (\<forall>me. acc = Some me \<longrightarrow> acc_string me < n))"

lemma dial_effects_up: "e \<in> set (dial_effects acc reg s) \<Longrightarrow> dials_up acc e"
  using dial_target_Some by (auto simp: dial_effects_Spawn dials_up_def)

lemma gossip_fold_up:
  "\<forall>e \<in> set (snd st). dials_up acc e \<Longrightarrow>
     \<forall>e \<in> set (snd (fold (gossip_seed he now acc) ss st)). dials_up acc e"
proof (rule fold_keeps [where P = "\<lambda>st. \<forall>e \<in> set (snd st). dials_up acc e"])
  fix x and st :: "node_registry \<times> effect list"
  assume "\<forall>e \<in> set (snd st). dials_up acc e"
  then show "\<forall>e \<in> set (snd (gossip_seed he now acc x st)). dials_up acc e"
    by (cases st) (auto simp: gossip_seed_def Let_def dest: dial_effects_up)
qed

lemma gossip_seeds_effects:
  "e \<in> set (snd (gossip_seeds he now clock acc ss reg)) \<Longrightarrow> dials_up acc e \<or> (\<exists>sc. e = SpawnBroadcast sc)"
  using gossip_fold_up [of "(reg, [])" acc he now ss]
  by (auto simp: gossip_seeds_def split: prod.splits if_splits)

lemma no_dial_update [simp]:
  "SpawnConnect a n \<notin> set (gossip_update he g x node)"
  "SpawnConnect a n \<notin> set (online_update he g x node)"
  "SpawnConnect a n \<notin> set (ack_update he g x node)"
  by (auto simp: gossip_update_def online_update_def ack_update_def split: option.split)

lemma no_dial_finish [simp]: "SpawnConnect a n \<notin> set (snd (online_finish he clock from online c p g))"
  by (auto simp: online_finish_def online_return_def Let_def split: prod.split)

lemma gossip_seeds_dials:
  "gossip_seeds he now clock acc ss reg = (reg', effs) \<Longrightarrow> SpawnConnect a n \<in> set effs \<Longrightarrow>
     acc = Some me \<Longrightarrow> acc_string me < n"
  using gossip_seeds_effects [of "SpawnConnect a n" he now clock acc ss reg] by (auto simp: dials_up_def)

lemma online_gossip_dials:
  "SpawnConnect a n \<in> set (snd (online_gossip he now clock from online c g)) \<Longrightarrow>
     g_address g = Some me \<Longrightarrow> acc_string me < n"
  by (auto simp: online_gossip_def Let_def split: option.splits prod.splits if_splits
      dest: gossip_seeds_dials)

lemma online_session_dials:
  "SpawnConnect a n \<notin> set (snd (snd (online_session he now clock nonce from online c g)))"
proof -
  have "online_finish he clock from online c' p g' = (g'', effs) \<Longrightarrow> SpawnConnect a n \<notin> set effs"
    for c' p g' g'' effs
    using no_dial_finish [of a n he clock "from" online c' p g'] by simp
  then show ?thesis
    by (auto simp: online_session_def Let_def split: option.splits prod.splits sum.splits)
qed

lemma online_handler_dials:
  "SpawnConnect a n \<in> set (snd (snd (online_handler he now clock nonce f cmd c g))) \<Longrightarrow>
     g_address g = Some me \<Longrightarrow> acc_string me < n"
  using online_gossip_dials [of a n he now clock "fb_address (fr_body f)" _ c g me]
    online_session_dials [of a n he now clock nonce "fb_address (fr_body f)"]
  by (auto simp: online_handler_def split: option.splits if_splits prod.splits)

lemma onlineack_handler_dials:
  "SpawnConnect a n \<in> set (snd (snd (onlineack_handler he now clock f cmd c g))) \<Longrightarrow>
     g_address g = Some me \<Longrightarrow> acc_string me < n"
  by (auto simp: onlineack_handler_def ack_consensus_def ack_register_def ack_seeds_def Let_def
      split: option.splits if_splits prod.splits dest!: dial_effects_up simp: dials_up_def)

subsection \<open>Gossip\<close>

lemma map_default_new: "k \<notin> set (hkeys m) \<Longrightarrow> AList.map_default k v f m = m @ [(k, v)]"
  by (induction m) auto

lemma register_record_new:
  assumes "\<not> nr_is_registered (sr_node_address s) reg" "parse_sock (sr_address s) = Some a"
  shows "length (nr_get_all_seeds (register_record from_ip now s reg)) = Suc (length (nr_get_all_seeds reg))"
    and "nr_get_node_count (register_record from_ip now s reg) = Suc (nr_get_node_count reg)"
    and "set (hkeys (register_record from_ip now s reg)) = insert (sr_node_address s) (set (hkeys reg))"
  using assms map_default_new [of "sr_node_address s" reg]
  by (simp_all add: nr_is_registered_def register_record_def nr_register_def nr_get_all_seeds_def
      nr_get_node_count_def seed_direction_def entry_new_def)

lemma register_record_none: "parse_sock (sr_address s) = None \<Longrightarrow> register_record from_ip now s reg = reg"
  by (simp add: register_record_def)

text \<open>What a gossiped list teaches the registry: the unknown nodes whose socket parses.\<close>

lemma gossip_fold_learns:
  "case fold (gossip_seed he now acc) ss (reg, effs) of (reg', _) \<Rightarrow>
     set (hkeys reg') = set (hkeys reg) \<union> {sr_node_address s | s. s \<in> set ss \<and> parse_sock (sr_address s) \<noteq> None} \<and>
     length (nr_get_all_seeds reg') + nr_get_node_count reg =
       length (nr_get_all_seeds reg) + nr_get_node_count reg'"
proof (induction ss arbitrary: reg effs)
  case (Cons s ss)
  let ?new = "\<not> nr_is_registered (sr_node_address s) reg"
  define reg1 where "reg1 = (if ?new then register_record (hs_from_ip he) now s reg else reg)"
  have step: "gossip_seed he now acc s (reg, effs) = (reg1, effs @ dial_effects acc reg1 s)"
    by (simp add: gossip_seed_def Let_def reg1_def)
  have keys: "set (hkeys reg1) = set (hkeys reg) \<union>
      (if parse_sock (sr_address s) \<noteq> None then {sr_node_address s} else {})"
    by (cases "parse_sock (sr_address s)"; cases ?new)
      (auto simp: reg1_def register_record_new(3) register_record_none nr_is_registered_def simp del: set_map)
  have count: "length (nr_get_all_seeds reg1) + nr_get_node_count reg =
      length (nr_get_all_seeds reg) + nr_get_node_count reg1"
    by (cases "parse_sock (sr_address s)"; cases ?new)
      (auto simp: reg1_def register_record_new register_record_none)
  show ?case
    using Cons.IH [of reg1 "effs @ dial_effects acc reg1 s"] keys count
    by (auto simp: step simp del: set_map split: prod.splits)
qed simp

lemma node_count_card: "registry_ok reg \<Longrightarrow> nr_get_node_count reg = card (set (hkeys reg))"
  by (metis distinct_card length_map nr_get_node_count_def registry_ok_def)

lemma no_broadcast_gossip_fold:
  "SpawnBroadcast sc \<notin> set (snd (fold (gossip_seed he now acc) ss (reg, [])))"
  using gossip_fold_up [of "(reg, [])" acc he now ss] by (auto simp: dials_up_def)

lemma gossip_seeds_broadcast:
  assumes ok: "registry_ok reg"
  shows "(\<exists>sc. SpawnBroadcast sc \<in> set (snd (gossip_seeds he now clock acc ss reg))) \<longleftrightarrow>
    (\<exists>s \<in> set ss. \<not> nr_is_registered (sr_node_address s) reg \<and> parse_sock (sr_address s) \<noteq> None)"
proof -
  obtain reg' effs where f: "fold (gossip_seed he now acc) ss (reg, []) = (reg', effs)" by fastforce
  have ok': "registry_ok reg'" using gossip_fold_ok [of "(reg, [])" he now acc ss] ok f by simp
  let ?L = "{sr_node_address s | s. s \<in> set ss \<and> parse_sock (sr_address s) \<noteq> None}"
  have keys: "set (hkeys reg') = set (hkeys reg) \<union> ?L"
    and cnt: "length (nr_get_all_seeds reg') + nr_get_node_count reg =
       length (nr_get_all_seeds reg) + nr_get_node_count reg'"
    using gossip_fold_learns [where he = he and now = now and acc = acc and ss = ss and reg = reg and effs = "[]"] f by (simp_all del: set_map)
  have "length (nr_get_all_seeds reg) < length (nr_get_all_seeds reg') \<longleftrightarrow>
      card (set (hkeys reg)) < card (set (hkeys reg'))"
    using cnt by (simp add: node_count_card ok ok' del: set_map) linarith
  also have "\<dots> \<longleftrightarrow> \<not> ?L \<subseteq> set (hkeys reg)"
    unfolding keys by (rule card_less_union) simp_all
  finally have "length (nr_get_all_seeds reg) < length (nr_get_all_seeds reg') \<longleftrightarrow> \<not> ?L \<subseteq> set (hkeys reg)" .
  then show ?thesis
    using no_broadcast_gossip_fold [of _ he now acc ss reg] f
    by (auto simp: gossip_seeds_def nr_is_registered_def simp del: set_map)
qed

lemma gossip_seeds_keys:
  "set (hkeys (fst (gossip_seeds he now clock acc ss reg))) =
     set (hkeys reg) \<union> {sr_node_address s | s. s \<in> set ss \<and> parse_sock (sr_address s) \<noteq> None}"
  using gossip_fold_learns [where he = he and now = now and acc = acc and ss = ss and reg = reg and effs = "[]"]
  by (simp add: gossip_seeds_def del: set_map split: prod.splits)

lemma is_registered_register [simp]:
  "nr_is_registered n (nr_register now k a sc reg) \<longleftrightarrow> n = k \<or> nr_is_registered n reg"
  by (simp add: nr_is_registered_def nr_register_def set_hkeys_map_default del: set_map)

lemma no_broadcast_update [simp]: "SpawnBroadcast sc \<notin> set (gossip_update he g x node)"
  by (auto simp: gossip_update_def split: option.split)

subsection \<open>Sessions\<close>

text \<open>A seed keeps its directions under later registrations.\<close>

lemma map_default_keeps_direction:
  "(a, ds) \<in> set m \<Longrightarrow> \<exists>ds'. ds \<subseteq> ds' \<and> (a, ds') \<in> set (AList.map_default k {d} (insert d) m)"
  by (induction m) auto

lemma mem_with_direction: "a \<in> set (map fst (filter (\<lambda>(_, ds). P ds) m)) \<longleftrightarrow> (\<exists>ds. (a, ds) \<in> set m \<and> P ds)"
  by (induction m) auto

lemma inbound_iff:
  "a \<in> set (nr_get_inbound_seeds n reg) \<longleftrightarrow>
     (\<exists>e ds. map_of reg n = Some e \<and> (a, ds) \<in> set (ne_seeds e) \<and> Inbound \<in> ds)"
  by (cases "map_of reg n")
    (simp_all add: nr_get_inbound_seeds_def nr_seeds_with_direction_def mem_with_direction del: set_map)

lemma inbound_register:
  "a \<in> set (nr_get_inbound_seeds n reg) \<Longrightarrow> a \<in> set (nr_get_inbound_seeds n (nr_register now k b sc reg))"
  using map_default_keeps_direction
  by (fastforce simp: inbound_iff nr_register_def map_laws seed_direction_def)

lemma inbound_register_records:
  "a \<in> set (nr_get_inbound_seeds n reg) \<Longrightarrow>
     a \<in> set (nr_get_inbound_seeds n (register_records from_ip now ss reg))"
  unfolding register_records_def
  by (rule fold_keeps [where P = "\<lambda>r. a \<in> set (nr_get_inbound_seeds n r)"])
    (auto simp: register_record_def intro: inbound_register split: option.split)

lemma map_default_has: "\<exists>ds. (k, ds) \<in> set (AList.map_default k {d} (insert d) m) \<and> d \<in> ds"
  by (induction m) auto

lemma inbound_register_with_direction:
  "a \<in> set (nr_get_inbound_seeds n (nr_register_with_direction now n a sc Inbound reg))"
  using map_default_has [of a Inbound]
  by (auto simp: inbound_iff nr_register_with_direction_def map_laws seed_direction_def split: option.split)

text \<open>The peer of a context: its slot is taken and its listening socket recorded.\<close>

definition peer_accepted :: "string \<Rightarrow> socket_addr \<Rightarrow> 'p global_ctx \<Rightarrow> bool" where
  "peer_accepted n a g \<longleftrightarrow>
     (\<exists>reg. g_registry g = Some reg \<and> nr_is_connected n reg \<and> a \<in> set (nr_get_inbound_seeds n reg))"

definition listen_addr :: "conn \<Rightarrow> online_command \<Rightarrow> socket_addr" where
  "listen_addr c online = sock_new (sock_ip (c_addr c)) (an_port (on_node online))"

lemma accepted_register:
  assumes "g_registry g \<noteq> None"
  shows "peer_accepted from (listen_addr c online) (snd (online_register he now from online c g))"
proof -
  obtain reg where reg: "g_registry g = Some reg" using assms by auto
  obtain fresh reg1 where t: "nr_try_connect now from reg = (fresh, reg1)" by fastforce
  have "nr_is_connected from reg1" using is_connected_try_connect [of "from" now "from" reg] t by simp
  then show ?thesis
    using reg t inbound_register_with_direction
    by (auto simp: online_register_def peer_accepted_def listen_addr_def Let_def)
qed

lemma accepted_psk [simp]: "peer_accepted n a (g\<lparr>g_psk := q\<rparr>) = peer_accepted n a g"
  by (simp add: peer_accepted_def)

lemma accepted_merge: "peer_accepted n a g \<Longrightarrow> peer_accepted n a (online_merge he now online g)"
  by (auto simp: peer_accepted_def online_merge_def inbound_register_records split: option.split)

lemma accepted_finish:
  "peer_accepted n a g \<Longrightarrow> peer_accepted n a (fst (online_finish he clock from online c p g))"
  by (auto simp: online_finish_def online_return_def Let_def split: prod.split)

lemma accepted_session:
  assumes "g_registry g \<noteq> None"
  shows "peer_accepted from (listen_addr c online) (fst (snd (online_session he now clock nonce from online c g)))"
proof -
  obtain ret g1 where r: "online_register he now from online c g = (ret, g1)" by fastforce
  have g1: "peer_accepted from (listen_addr c online) g1"
    using accepted_register [OF assms, of "from" c online he now] r by simp
  have g3: "peer_accepted from (listen_addr c online) (online_merge he now online (g1\<lparr>g_psk := q\<rparr>))" for q
    by (rule accepted_merge) (simp add: g1)
  have g4: "online_finish he clock from online c' q (online_merge he now online (g1\<lparr>g_psk := q'\<rparr>)) = (g', e) \<Longrightarrow>
      peer_accepted from (listen_addr c online) g'" for c' q q' g' e
    using accepted_finish [OF g3, of he clock "from" online c' q q'] by simp
  show ?thesis
    unfolding online_session_def r Let_def
    by (auto simp: g1 g3 dest: g4 split: option.split prod.split sum.split)
qed

lemma session_peer: "c_peer (fst (online_session he now clock nonce from online c g)) = Some from"
  by (auto simp: online_session_def Let_def split: option.split prod.split sum.split)

lemma merge_frame [simp]: "g_address (online_merge he now online g) = g_address g"
  by (auto simp: online_merge_def split: option.split)

lemma register_frame [simp]: "g_address (snd (online_register he now from online c g)) = g_address g"
  by (auto simp: online_register_def Let_def split: option.split prod.split)

lemma no_sent [simp]:
  "Sent bs \<notin> set (online_update he g x node)"
  "Sent bs \<notin> set (snd (online_finish he clock from online c p g))"
  by (auto simp: online_update_def online_finish_def online_return_def Let_def
      split: option.split prod.split)

lemma session_sent:
  assumes "Sent bs \<in> set (snd (snd (online_session he now clock nonce from online c g)))"
    and "g_address g = Some acc"
  shows "\<exists>q k. frame_send he (hs_psk he) (hs_ack he) nonce
      (online_merge he now online (snd (online_register he now from online c g)\<lparr>g_psk := Some q\<rparr>))
      (c\<lparr>c_peer := Some from\<rparr>)
      (Some (online_ack he clock acc k online
        (online_merge he now online (snd (online_register he now from online c g)\<lparr>g_psk := Some q\<rparr>))))
      ENode OnLineAck False = Inr (Some bs)"
proof -
  obtain ret g1 where r: "online_register he now from online c g = (ret, g1)" by fastforce
  have adr: "g_address g1 = Some acc"
    using register_frame [of he now "from" online c g] assms(2) r by simp
  have fin: "online_finish he clock from online c' q g' = (g'', e) \<Longrightarrow> Sent bs \<notin> set e" for c' q g' g'' e
    using no_sent(2) [of bs he clock "from" online c' q g'] by simp
  show ?thesis
    using assms(1) unfolding online_session_def r Let_def
    by (auto simp: adr dest: fin split: option.splits prod.splits sum.splits)
qed

lemma all_seeds_command_cover:
  "g_registry g = Some reg \<Longrightarrow>
     sr_address ` set (sc_seeds (all_seeds_command he clock g)) = show_sock ` fst ` set (nr_get_all_seeds reg)"
proof -
  assume "g_registry g = Some reg"
  then obtain n where n: "g_node g = Some n" "reg = n_registry n" by (auto simp: g_registry_def)
  show ?thesis
    by (simp only: n all_seeds_command_def option.case sealed_seeds.items_seal dedup_by_keys
        set_registry_records Diff_empty)
qed

lemma all_seeds_command_verify: "seeds_command_verify (hs_sha256 he) (all_seeds_command he clock g)"
  by (auto simp: all_seeds_command_def sealed_seeds.verify_seal split: option.split)

lemma accepted_seed: "peer_accepted n a g \<Longrightarrow> g_registry g = Some reg \<Longrightarrow> a \<in> fst ` set (nr_get_all_seeds reg)"
proof -
  assume "peer_accepted n a g" "g_registry g = Some reg"
  then obtain e ds where "map_of reg n = Some e" "(a, ds) \<in> set (ne_seeds e)"
    by (auto simp: peer_accepted_def inbound_iff)
  then have "(a, n) \<in> set (nr_get_all_seeds reg)"
    by (force simp: mem_all_seeds dest: map_of_SomeD)
  then show ?thesis by force
qed

subsection \<open>Properties\<close>

text \<open>
  Neither handler of the handshake damages the registry: from a well-formed registry the
  online handler and the acknowledgement handler lead to a well-formed one, whatever frame
  and command arrive.
\<close>

theorem handshake_keeps_registry:
  assumes "gctx_ok g"
  shows "gctx_ok (fst (snd (online_handler he now clock nonce f cmd c g))) \<and>
    gctx_ok (fst (snd (onlineack_handler he now clock f cmd c g)))"
  by (auto simp: online_handler_def assms online_session_ok online_gossip_ok onlineack_ok
      split: option.split prod.split)

text \<open>
  C4. Two nodes never dial each other because of the seeds that a handshake, an acknowledgement
  or gossip brought: when the online handler or the acknowledgement handler of node A spawns a
  connection to a node B named in a seed list, A has the smaller address, so A is not B, and
  neither of these handlers of B, on whatever frame, spawns such a connection to A. The return
  connection of a handshake, and what a tick dials, follow other rules.
\<close>

theorem dial_exclusive:
  assumes "g_address ga = Some a" "g_address gb = Some b"
    and "SpawnConnect x (acc_string b) \<in> set (snd (snd (online_handler he now clock nonce f cmd c ga))) \<union>
      set (snd (snd (onlineack_handler he now clock f cmd c ga)))"
  shows "acc_string a < acc_string b \<and>
    SpawnConnect y (acc_string a) \<notin> set (snd (snd (online_handler he' now' clock' nonce' f' cmd' c' gb))) \<union>
      set (snd (snd (onlineack_handler he' now' clock' f' cmd' c' gb)))"
proof
  show lt: "acc_string a < acc_string b"
    using assms(1,3) by (auto dest: online_handler_dials onlineack_handler_dials)
  have "acc_string b < acc_string a"
    if "SpawnConnect y (acc_string a) \<in> set (snd (snd (online_handler he' now' clock' nonce' f' cmd' c' gb))) \<union>
      set (snd (snd (onlineack_handler he' now' clock' f' cmd' c' gb)))"
    using that assms(2) by (auto dest: online_handler_dials onlineack_handler_dials)
  then show "SpawnConnect y (acc_string a) \<notin> set (snd (snd (online_handler he' now' clock' nonce' f' cmd' c' gb))) \<union>
      set (snd (snd (onlineack_handler he' now' clock' f' cmd' c' gb)))"
    using lt by force
qed

text \<open>
  A verified gossip message makes the node broadcast exactly when it names a node, with a socket
  that parses, that was neither registered nor the sender.
\<close>

lemma gossip_rebroadcast_iff_new:
  assumes "dec (hs_online he) (cmd_data cmd) = Some online" "on_session_id online = []"
    and "on_seeds online = Some sc" "seeds_command_verify (hs_sha256 he) sc"
    and "g_registry g = Some reg" "registry_ok reg"
  shows "(\<exists>b. SpawnBroadcast b \<in> set (snd (snd (online_handler he now clock nonce f cmd c g)))) \<longleftrightarrow>
    (\<exists>s \<in> set (sc_seeds sc). sr_node_address s \<noteq> fb_address (fr_body f) \<and>
       \<not> nr_is_registered (sr_node_address s) reg \<and> parse_sock (sr_address s) \<noteq> None)"
proof -
  let ?listen = "sock_new (sock_ip (c_addr c)) (an_port (on_node online))"
  let ?r1 = "nr_register now (fb_address (fr_body f)) ?listen (hs_from_ip he (sock_ip ?listen)) reg"
  have "registry_ok ?r1" using assms(6) by auto
  from gossip_seeds_broadcast [OF this, of he now clock "g_address g" "sc_seeds sc"] show ?thesis
    using assms(1-5) by (auto simp: online_handler_def online_gossip_def Let_def split: prod.split)
qed

text \<open>The nodes that a message names, and those that a node knows.\<close>

definition gossip_names :: "online_command \<Rightarrow> string set" where
  "gossip_names online = (case on_seeds online of Some sc \<Rightarrow> sr_node_address ` set (sc_seeds sc) | None \<Rightarrow> {})"

definition known_nodes :: "'p global_ctx \<Rightarrow> string set" where
  "known_nodes g = (case g_registry g of Some reg \<Rightarrow> set (hkeys reg) | None \<Rightarrow> {})"

text \<open>
  A network of nodes \<open>I\<close>: in any order, a node handles a gossip message that names nodes of
  \<open>N\<close> only, or calls a method of its registry. Counted are the messages that are passed on.
\<close>

inductive gossip_run ::
  "('i \<Rightarrow> ('p, 'z) hs_env_scheme) \<Rightarrow> 'i set \<Rightarrow> string set \<Rightarrow> ('i \<Rightarrow> 'p global_ctx) \<Rightarrow> ('i \<Rightarrow> 'p global_ctx) \<Rightarrow> nat \<Rightarrow> bool"
  for he I N G0 where
  gossip_start: "gossip_run he I N G0 G0 0"
| gossip_heard: "gossip_run he I N G0 G n \<Longrightarrow> i \<in> I \<Longrightarrow>
    dec (hs_online (he i)) (cmd_data cmd) = Some online \<Longrightarrow> on_session_id online = [] \<Longrightarrow> gossip_names online \<subseteq> N \<Longrightarrow>
    online_handler (he i) now clock nonce f cmd c (G i) = (c', g', effs) \<Longrightarrow>
    gossip_run he I N G0 (G(i := g')) (if \<exists>b. SpawnBroadcast b \<in> set effs then Suc n else n)"
| gossip_other: "gossip_run he I N G0 G n \<Longrightarrow> i \<in> I \<Longrightarrow> g_registry (G i) = Some reg \<Longrightarrow>
    registry_step reg ev reg' \<Longrightarrow> g_registry g' = Some reg' \<Longrightarrow> gossip_run he I N G0 (G(i := g')) n"

lemma known_nodes_keys: "g_registry g = Some reg \<Longrightarrow> known_nodes g = set (hkeys reg)"
  by (simp add: known_nodes_def)

lemma gossip_step:
  assumes "gctx_ok g" "dec (hs_online he) (cmd_data cmd) = Some online" "on_session_id online = []"
    and "online_handler he now clock nonce f cmd c g = (c', g', effs)"
  shows "gctx_ok g'" "known_nodes g \<subseteq> known_nodes g'"
    "SpawnBroadcast b \<in> set effs \<Longrightarrow> \<exists>x \<in> gossip_names online. x \<notin> known_nodes g \<and> x \<in> known_nodes g'"
proof -
  have run: "online_gossip he now clock (fb_address (fr_body f)) online c g = (g', effs)"
    using assms(2-4) by (auto simp: online_handler_def split: prod.splits)
  show "gctx_ok g'" using online_gossip_ok [OF assms(1)] run by (metis fst_conv)
  have "known_nodes g \<subseteq> known_nodes g' \<and> ((\<exists>b. SpawnBroadcast b \<in> set effs) \<longrightarrow>
    (\<exists>x \<in> gossip_names online. x \<notin> known_nodes g \<and> x \<in> known_nodes g'))"
  proof (cases "g_registry g")
    case None
    then show ?thesis using run
      by (auto simp: online_gossip_def Let_def known_nodes_def split: option.splits if_splits)
  next
    case (Some reg)
    let ?listen = "sock_new (sock_ip (c_addr c)) (an_port (on_node online))"
    let ?r1 = "nr_register now (fb_address (fr_body f)) ?listen (hs_from_ip he (sock_ip ?listen)) reg"
    have r1: "set (hkeys reg) \<subseteq> set (hkeys ?r1)" by (rule registry_step_keeps [OF step_register])
    have ok: "registry_ok ?r1" using assms(1) Some by (auto simp: gctx_ok_def g_registry_def split: option.splits)
    show ?thesis
    proof (cases "\<exists>sc. on_seeds online = Some sc \<and> seeds_command_verify (hs_sha256 he) sc")
      case False
      then show ?thesis using run r1 Some
        by (auto simp: online_gossip_def Let_def known_nodes_def simp del: set_map split: option.splits if_splits)
    next
      case True
      then obtain sc where sc: "on_seeds online = Some sc" "seeds_command_verify (hs_sha256 he) sc" by blast
      obtain reg' effs' where s: "gossip_seeds he now clock (g_address g) (sc_seeds sc) ?r1 = (reg', effs')" by fastforce
      then have "g_registry g' = Some reg'" "effs = gossip_update he g (c_addr c) (on_node online) @ effs'"
        using run sc Some by (auto simp: online_gossip_def Let_def)
      moreover have "set (hkeys reg') = set (hkeys ?r1) \<union>
          {sr_node_address s | s. s \<in> set (sc_seeds sc) \<and> parse_sock (sr_address s) \<noteq> None}"
        using gossip_seeds_keys [of he now clock "g_address g" "sc_seeds sc" ?r1] s by simp
      ultimately show ?thesis
        using gossip_seeds_broadcast [OF ok, of he now clock "g_address g" "sc_seeds sc"] s sc(1) r1 Some
        by (auto simp: known_nodes_def gossip_names_def nr_is_registered_def simp del: set_map)
    qed
  qed
  then show "known_nodes g \<subseteq> known_nodes g'"
    "SpawnBroadcast b \<in> set effs \<Longrightarrow> \<exists>x \<in> gossip_names online. x \<notin> known_nodes g \<and> x \<in> known_nodes g'"
    by blast+
qed

lemma gossip_run_measure:
  assumes run: "gossip_run he I N G0 G n" and fin: "finite I" "finite N" and ok: "\<And>i. i \<in> I \<Longrightarrow> gctx_ok (G0 i)"
  shows "(\<forall>i \<in> I. gctx_ok (G i)) \<and>
    n + (\<Sum>i \<in> I. card (N - known_nodes (G i))) \<le> (\<Sum>i \<in> I. card (N - known_nodes (G0 i)))"
  using run
proof induction
  case gossip_start
  then show ?case using ok by simp
next
  case (gossip_heard G n i cmd online now clock nonce f c c' g' effs)
  note step = gossip_step [OF _ gossip_heard.hyps(3,4,6)]
  have ok_i: "gctx_ok (G i)" using gossip_heard by blast
  have split: "(\<Sum>j \<in> I. card (N - known_nodes (H j))) =
      card (N - known_nodes (H i)) + (\<Sum>j \<in> I - {i}. card (N - known_nodes (H j)))" for H :: "'a \<Rightarrow> 'b global_ctx"
    by (rule sum.remove [OF fin(1) gossip_heard.hyps(2)])
  have less: "card (N - known_nodes g') < card (N - known_nodes (G i))" if "SpawnBroadcast b \<in> set effs" for b
    using step(2,3) [OF ok_i] that gossip_heard.hyps(5) fin(2) by (intro psubset_card_mono) auto
  have "card (N - known_nodes g') \<le> card (N - known_nodes (G i))"
    using step(2) [OF ok_i] fin(2) by (intro card_mono) auto
  then have "(if \<exists>b. SpawnBroadcast b \<in> set effs then Suc n else n) + card (N - known_nodes g') \<le>
      n + card (N - known_nodes (G i))"
    using less by (auto simp: Suc_le_eq)
  then show ?case
    using gossip_heard.IH step(1) [OF ok_i] by (simp add: split)
next
  case (gossip_other G n i reg ev reg' g')
  have "card (N - known_nodes g') \<le> card (N - known_nodes (G i))"
    using registry_step_keeps [OF gossip_other.hyps(4)] fin(2) gossip_other.hyps(3,5)
    by (intro card_mono) (auto simp: known_nodes_keys simp del: set_map)
  moreover have "(\<Sum>j \<in> I. card (N - known_nodes (H j))) =
      card (N - known_nodes (H i)) + (\<Sum>j \<in> I - {i}. card (N - known_nodes (H j)))" for H :: "'a \<Rightarrow> 'b global_ctx"
    by (rule sum.remove [OF fin(1) gossip_other.hyps(2)])
  moreover have "gctx_ok g'"
    using gossip_other.IH gossip_other.hyps(2,3,5) registry_step_ok [OF gossip_other.hyps(4)]
    by (fastforce simp: gctx_ok_def g_registry_def split: option.splits)
  ultimately show ?case using gossip_other.IH by simp
qed

text \<open>
  C9. Gossip dies out. In a network of finitely many nodes, as long as gossip names nodes of a
  finite set only, and whatever messages arrive at whatever nodes in whatever order, with any
  calls of registry methods in between, the number of gossip messages that are passed on (that
  make their receiver broadcast) is at most the number of names that were unknown at the start,
  summed over the nodes: each one teaches its receiver a node of the set.
\<close>

theorem gossip_dies_out:
  assumes "gossip_run he I N G0 G n" "finite I" "finite N" "\<And>i. i \<in> I \<Longrightarrow> gctx_ok (G0 i)"
  shows "n \<le> (\<Sum>i \<in> I. card (N - known_nodes (G0 i)))"
  using gossip_run_measure [OF assms] by linarith

text \<open>
  A handshake that reaches a node with a registry leaves the sender accepted: its slot is
  taken, the socket it listens on (its address on the connection with its announced port)
  is among its inbound seeds, and the connection is labelled with its address.
\<close>

theorem online_accepts_peer:
  assumes "dec (hs_online he) (cmd_data cmd) = Some online" "on_session_id online \<noteq> []"
    and "g_registry g \<noteq> None"
  shows "peer_accepted (fb_address (fr_body f)) (listen_addr c online)
      (fst (snd (online_handler he now clock nonce f cmd c g))) \<and>
    c_peer (fst (online_handler he now clock nonce f cmd c g)) = Some (fb_address (fr_body f))"
  by (simp add: online_handler_def assms accepted_session session_peer)

text \<open>
  C8. The acknowledgement that the handler writes is one its receiver can use: the bytes
  verify, the command of the frame is an acknowledgement and decodes, repeats the session id,
  names the responder, and carries a seed list that verifies and contains the initiator's own
  listening socket.
\<close>

theorem online_ack_received:
  assumes "frame_env_ok he" "codec_ok (hs_ack he)" "keypair (fe_crypto he) acc"
    and "g_address g = Some acc" "g_registry g \<noteq> None"
    and "dec (hs_online he) (cmd_data cmd) = Some online" "on_session_id online \<noteq> []"
    and "Sent bs \<in> set (snd (snd (online_handler he now clock nonce f cmd c g)))"
  shows "\<exists>f' cmd' ack sc. verify_bytes he bs = Some f' \<and> command_from_data he (fr_body f') = Some cmd' \<and>
    fb_address (fr_body f') = acc_string acc \<and> cmd_entity cmd' = ENode \<and> cmd_action cmd' = OnLineAck \<and>
    dec (hs_ack he) (cmd_data cmd') = Some ack \<and>
    oa_session_id ack = on_session_id online \<and> oa_address ack = acc_string acc \<and>
    oa_seeds ack = Some sc \<and> seeds_command_verify (hs_sha256 he) sc \<and>
    show_sock (listen_addr c online) \<in> sr_address ` set (sc_seeds sc)"
proof -
  let ?from = "fb_address (fr_body f)"
  have "Sent bs \<in> set (snd (snd (online_session he now clock nonce ?from online c g)))"
    using assms(6-8) by (simp add: online_handler_def)
  from session_sent [OF this assms(4)] obtain q k where
    snd: "frame_send he (hs_psk he) (hs_ack he) nonce
      (online_merge he now online (snd (online_register he now ?from online c g)\<lparr>g_psk := Some q\<rparr>))
      (c\<lparr>c_peer := Some ?from\<rparr>)
      (Some (online_ack he clock acc k online
        (online_merge he now online (snd (online_register he now ?from online c g)\<lparr>g_psk := Some q\<rparr>))))
      ENode OnLineAck False = Inr (Some bs)" (is "frame_send _ _ _ _ ?g3 _ _ _ _ _ = _")
    by blast
  have adr: "g_address ?g3 = Some acc" by (simp add: assms(4))
  have acc3: "peer_accepted ?from (listen_addr c online) ?g3"
    by (rule accepted_merge) (simp add: accepted_register [OF assms(5)])
  then obtain reg where reg: "g_registry ?g3 = Some reg" by (auto simp: peer_accepted_def)
  have "show_sock (listen_addr c online) \<in> sr_address ` set (sc_seeds (all_seeds_command he clock ?g3))"
    unfolding all_seeds_command_cover [OF reg] by (rule imageI) (rule accepted_seed [OF acc3 reg])
  then show ?thesis
    using frame_send_delivers [OF assms(1,2) adr assms(3) snd] all_seeds_command_verify
    by (fastforce simp: online_ack_def)
qed

text \<open>
  When a connection is gone, the cleanup task ends, releases the slot of its node, so that
  the next attempt to connect to that node gets it, and announces the node offline; while
  the connection is listed it does nothing.
\<close>

theorem cleanup_releases_slot:
  "case cleanup_poll he n a g of
     None \<Rightarrow> still_connected he g a
   | Some (g', effs) \<Rightarrow> \<not> still_connected he g a \<and> effs = [PublishOffline \<lparr>pf_addr = n\<rparr>] \<and>
       (case g_registry g' of
          Some reg' \<Rightarrow> fst (nr_try_connect now n reg') \<and>
            (\<exists>reg. g_registry g = Some reg \<and> nr_get_all_seeds reg' = nr_get_all_seeds reg)
        | None \<Rightarrow> g_registry g = None)"
proof -
  have "nr_get_all_seeds (nr_disconnect n reg) = nr_get_all_seeds reg" for reg
    by (rule all_seeds_disconnect)
  then show ?thesis
    by (auto simp: cleanup_poll_def try_connect_result split: option.split)
qed

subsection \<open>Witnesses\<close>

definition demo_record :: seed_record where
  "demo_record = seed_record_new 3 (show_sock (SockV4 (Ipv4 10 0 0 2) 7)) ''B''"

definition demo_seeds :: seeds_command where
  "demo_seeds = seeds_command_new id [demo_record]"

definition demo_gossip :: online_command where
  "demo_gossip = \<lparr>on_session_id = [], on_node = \<lparr>an_id = [3], an_version = 1, an_port = 0, an_ips = []\<rparr>,
     on_key = zero_key, on_intranet_ips = [], on_wan_ips = [], on_seeds = Some demo_seeds\<rparr>"

definition demo_hello :: online_command where
  "demo_hello = \<lparr>on_session_id = [5], on_node = \<lparr>an_id = [3], an_version = 1, an_port = 7, an_ips = []\<rparr>,
     on_key = replicate 32 4, on_intranet_ips = [], on_wan_ips = [], on_seeds = None\<rparr>"

definition demo_me :: account where
  "demo_me = \<lparr>acc_string = ''A'', acc_private_key = [1], acc_public_key = [1]\<rparr>"

definition demo_hs_ctx :: "nat global_ctx" where
  "demo_hs_ctx = \<lparr>g_addr = SockV4 (Ipv4 10 0 0 1) 7,
     g_local_node = \<lparr>an_id = [1], an_version = 1, an_port = 7, an_ips = []\<rparr>,
     g_address = Some demo_me, g_psk = Some 0,
     g_node = Some \<lparr>n_registry = nr_new, n_peer_addrs = []\<rparr>, g_connections = []\<rparr>"

definition demo_peer :: conn where
  "demo_peer = \<lparr>c_addr = SockV4 (Ipv4 10 0 0 3) 900, c_peer = None, c_writer = True\<rparr>"

definition demo_incoming :: p2p_frame where
  "demo_incoming = \<lparr>fr_body = frame_body_new 1 ''C'' [3] 5 1 [1], fr_signature = []\<rparr>"

text \<open>The registry after the greeting of node C, and the acknowledgement it is answered with.\<close>

definition demo_greeted :: node_registry where
  "demo_greeted =
     [(''C'', \<lparr>ne_address = ''C'', ne_seeds = [(SockV4 (Ipv4 10 0 0 3) 7, {Inbound})],
              ne_is_connected = True, ne_scope = Intranet, ne_last_seen = 1\<rparr>)]"

definition demo_ack :: online_ack_command where
  "demo_ack = \<lparr>oa_session_id = [5], oa_address = ''A'',
     oa_node = \<lparr>an_id = [1], an_version = 1, an_port = 7, an_ips = []\<rparr>, oa_key = zero_key,
     oa_intranet_ips = [], oa_wan_ips = [],
     oa_seeds = Some (seeds_command_new id (registry_records int demo_greeted))\<rparr>"

definition demo_ack_frame :: p2p_frame where
  "demo_ack_frame = \<lparr>fr_body = frame_body_new 1 ''A'' [1] 5 1 [9], fr_signature = [1, 3]\<rparr>"

definition demo_hs :: "nat hs_env" where
  "demo_hs =
     \<lparr>fe_body = pair_codec [(fr_body demo_ack_frame, [3])],
      fe_cmd = pair_codec [(p2p_command_new ENode OnLineAck [2], [9])],
      fe_frame = pair_codec [(demo_ack_frame, [4])], fe_msg = pair_codec [], fe_crypto = demo_crypto,
      hs_online = pair_codec [(demo_gossip, [1]), (demo_hello, [2])],
      hs_ack = pair_codec [(demo_ack, [2])], hs_sha256 = id, hs_from_ip = (\<lambda>_. Intranet),
      hs_from_system = (\<lambda>port nid v. \<lparr>an_id = nid, an_version = v, an_port = port, an_ips = []\<rparr>),
      hs_psk = demo_psk\<rparr>"

lemma demo_hs_ok: "frame_env_ok demo_hs" "codec_ok (hs_ack demo_hs)" "keypair (fe_crypto demo_hs) demo_me"
  by (simp_all add: demo_hs_def frame_env_ok_def codec_ok_pairs keypair_def demo_crypto_def demo_me_def)

lemma demo_hs_ctx_simps:
  "gctx_ok demo_hs_ctx" "g_address demo_hs_ctx = Some demo_me" "g_registry demo_hs_ctx = Some nr_new"
  "registry_ok nr_new"
  by (simp_all add: gctx_ok_def demo_hs_ctx_def nr_new_def g_registry_def)

lemma demo_decoded:
  "dec (hs_online demo_hs) (cmd_data (p2p_command_new ENode OnLine [1])) = Some demo_gossip"
  "dec (hs_online demo_hs) (cmd_data (p2p_command_new ENode OnLine [2])) = Some demo_hello"
  by (simp_all add: demo_hs_def pair_codec_def p2p_command_new_def)

lemma demo_record_simps:
  "sr_node_address demo_record = ''B''"
  "parse_sock (sr_address demo_record) = Some (SockV4 (Ipv4 10 0 0 2) 7)"
  using parse_show_sock_v4 by (simp_all add: demo_record_def seed_record_new_def del: show_sock.simps)

lemma demo_seeds_simps:
  "sc_seeds demo_seeds = [demo_record]" "seeds_command_verify (hs_sha256 demo_hs) demo_seeds"
  by (simp_all add: demo_seeds_def sealed_seeds.items_seal demo_hs_def sealed_seeds.verify_seal [of id])

theorem handshake_keeps_registry_witness:
  "gctx_ok (fst (snd (online_handler demo_hs 1 int 5 demo_incoming
     (p2p_command_new ENode OnLine [2]) demo_peer demo_hs_ctx)))"
  using handshake_keeps_registry [OF demo_hs_ctx_simps(1)] by blast

lemma demo_dials:
  "SpawnConnect (SockV4 (Ipv4 10 0 0 2) 7) ''B'' \<in> set (snd (snd (online_handler demo_hs 1 int 5
     demo_incoming (p2p_command_new ENode OnLine [1]) demo_peer demo_hs_ctx)))"
proof -
  have lt: "\<not> ''B'' < ''A''" by code_simp
  have reg: "\<not> nr_is_registered ''B'' nr_new" by (simp add: nr_is_registered_def nr_new_def)
  have n: "\<not> nr_is_connected ''B'' (register_record sc now demo_record (nr_register now ''C'' x y nr_new))"
    for sc now x y
    using demo_record_simps
    by (simp add: register_record_def) (simp add: nr_is_connected_def nr_new_def)
  show ?thesis
    using n reg lt demo_hs_ctx_simps demo_seeds_simps demo_record_simps
    by (simp add: online_handler_def demo_decoded demo_gossip_def online_gossip_def Let_def
        gossip_seeds_def gossip_seed_def demo_incoming_def frame_body_new_def dial_effects_def
        dial_target_def demo_me_def)
qed

theorem dial_exclusive_witness:
  "SpawnConnect (SockV4 (Ipv4 10 0 0 1) 7) ''A'' \<notin>
     set (snd (snd (onlineack_handler demo_hs 1 int demo_incoming (p2p_command_new ENode OnLineAck [2]) demo_peer
       (demo_hs_ctx\<lparr>g_address := Some (demo_me\<lparr>acc_string := ''B''\<rparr>)\<rparr>))))"
proof -
  let ?b = "demo_me\<lparr>acc_string := ''B''\<rparr>"
  have "g_address (demo_hs_ctx\<lparr>g_address := Some ?b\<rparr>) = Some ?b" by simp
  moreover have "SpawnConnect (SockV4 (Ipv4 10 0 0 2) 7) (acc_string ?b) \<in>
      set (snd (snd (online_handler demo_hs 1 int 5 demo_incoming (p2p_command_new ENode OnLine [1]) demo_peer demo_hs_ctx))) \<union>
      set (snd (snd (onlineack_handler demo_hs 1 int demo_incoming (p2p_command_new ENode OnLine [1]) demo_peer demo_hs_ctx)))"
    using demo_dials by simp
  ultimately show ?thesis
    using dial_exclusive [OF demo_hs_ctx_simps(2), of "demo_hs_ctx\<lparr>g_address := Some ?b\<rparr>" ?b
        "SockV4 (Ipv4 10 0 0 2) 7" demo_hs 1 int 5 demo_incoming "p2p_command_new ENode OnLine [1]" demo_peer
        "SockV4 (Ipv4 10 0 0 1) 7" demo_hs 1 int 5 demo_incoming "p2p_command_new ENode OnLineAck [2]" demo_peer]
    by (simp add: demo_me_def)
qed

lemma demo_rebroadcasts:
  "\<exists>b. SpawnBroadcast b \<in> set (snd (snd (online_handler demo_hs 1 int 5 demo_incoming
     (p2p_command_new ENode OnLine [1]) demo_peer demo_hs_ctx)))"
proof -
  have "\<exists>s \<in> set (sc_seeds demo_seeds). sr_node_address s \<noteq> fb_address (fr_body demo_incoming) \<and>
      \<not> nr_is_registered (sr_node_address s) nr_new \<and> parse_sock (sr_address s) \<noteq> None"
    by (simp add: demo_seeds_simps demo_record_simps demo_incoming_def frame_body_new_def
        nr_is_registered_def nr_new_def)
  then show ?thesis
    using gossip_rebroadcast_iff_new [OF demo_decoded(1) _ _ demo_seeds_simps(2) demo_hs_ctx_simps(3,4)]
    by (simp add: demo_gossip_def)
qed

text \<open>One node and one name: one message is passed on, and the bound is one.\<close>

theorem gossip_dies_out_witness:
  "\<exists>G. gossip_run (\<lambda>_ :: unit. demo_hs) {()} {''B''} (\<lambda>_. demo_hs_ctx) G 1 \<and>
     1 \<le> (\<Sum>i \<in> {()}. card ({''B''} - known_nodes demo_hs_ctx)) \<and>
     (\<Sum>i \<in> {()}. card ({''B''} - known_nodes demo_hs_ctx)) = 1"
proof -
  let ?G = "\<lambda>_ :: unit. demo_hs_ctx" and ?cmd = "p2p_command_new ENode OnLine [1]"
  obtain c' g' effs where h: "online_handler demo_hs 1 int 5 demo_incoming ?cmd demo_peer demo_hs_ctx = (c', g', effs)"
    by (metis prod_cases3)
  have names: "on_session_id demo_gossip = []" "gossip_names demo_gossip \<subseteq> {''B''}"
    by (simp_all add: demo_gossip_def gossip_names_def demo_seeds_simps demo_record_simps)
  have sent: "(\<exists>b. SpawnBroadcast b \<in> set effs) = True" using demo_rebroadcasts unfolding h by simp
  have "gossip_run (\<lambda>_ :: unit. demo_hs) {()} {''B''} ?G ?G 0" by (rule gossip_start)
  from gossip_heard [where i = "()", OF this _ demo_decoded(1) names h]
  have "gossip_run (\<lambda>_ :: unit. demo_hs) {()} {''B''} ?G (?G(() := g')) 1" unfolding sent by simp
  moreover from this have "1 \<le> (\<Sum>i \<in> {()}. card ({''B''} - known_nodes demo_hs_ctx))"
    by (rule gossip_dies_out) (simp_all add: demo_hs_ctx_simps(1))
  moreover have "known_nodes demo_hs_ctx = {}" by (simp add: known_nodes_keys [OF demo_hs_ctx_simps(3)] nr_new_def)
  ultimately show ?thesis by auto
qed

theorem online_accepts_peer_witness:
  "peer_accepted ''C'' (SockV4 (Ipv4 10 0 0 3) 7) (fst (snd (online_handler demo_hs 1 int 5 demo_incoming
     (p2p_command_new ENode OnLine [2]) demo_peer demo_hs_ctx)))"
  using online_accepts_peer [OF demo_decoded(2), of demo_hs_ctx demo_incoming demo_peer 1 int 5]
  by (simp add: demo_hello_def demo_hs_ctx_simps demo_incoming_def frame_body_new_def listen_addr_def
      demo_peer_def)

lemma demo_sends_ack:
  "Sent [4] \<in> set (snd (snd (online_handler demo_hs 1 int 5 demo_incoming
     (p2p_command_new ENode OnLine [2]) demo_peer demo_hs_ctx)))"
proof -
  have r: "online_register demo_hs 1 ''C'' demo_hello demo_peer demo_hs_ctx =
      (False, on_registry (\<lambda>_. demo_greeted) demo_hs_ctx)"
    by (simp add: online_register_def demo_hs_ctx_simps nr_try_connect_def nr_new_def demo_peer_def
        demo_hello_def demo_hs_def nr_register_with_direction_def seed_direction_def demo_greeted_def)
  have k: "online_exchange demo_hs ret a b demo_hello p = (Some zero_key, p)" for ret a b p
    by (simp add: online_exchange_def demo_hs_def demo_psk_def)
  have m: "online_merge demo_hs 1 demo_hello g = g" for g
    by (simp add: online_merge_def demo_hello_def)
  have s: "frame_send demo_hs (hs_psk demo_hs) (hs_ack demo_hs) 5 g c (Some demo_ack) ENode OnLineAck
      False = Inr (Some [4])" if "g_address g = Some demo_me" "c_writer c" for g c
    using that
    by (simp add: frame_send_def demo_hs_def pair_codec_def frame_build_def frame_sign_def demo_me_def
        demo_ack_frame_def frame_body_new_def demo_crypto_def)
  have a: "online_ack demo_hs int demo_me zero_key demo_hello
      (on_registry (\<lambda>_. demo_greeted) demo_hs_ctx\<lparr>g_psk := q\<rparr>) = demo_ack" for q
    by (simp add: online_ack_def demo_ack_def demo_hello_def demo_hs_ctx_def announced_ips_def
        all_seeds_command_def on_registry_def demo_me_def demo_hs_def)
  have p: "g_psk demo_hs_ctx = Some 0" by (simp add: demo_hs_ctx_def)
  have h: "on_session_id demo_hello = [5]" by (simp add: demo_hello_def)
  have w: "c_writer demo_peer" by (simp add: demo_peer_def)
  show ?thesis
    by (simp add: online_handler_def demo_decoded demo_incoming_def frame_body_new_def h online_session_def
        r k m s a p w demo_hs_ctx_simps Let_def split: prod.split)
qed

theorem online_ack_received_witness:
  "\<exists>f' cmd' ack sc. verify_bytes demo_hs [4] = Some f' \<and> command_from_data demo_hs (fr_body f') = Some cmd' \<and>
     dec (hs_ack demo_hs) (cmd_data cmd') = Some ack \<and> oa_session_id ack = [5] \<and>
     oa_seeds ack = Some sc \<and> seeds_command_verify id sc \<and>
     show_sock (SockV4 (Ipv4 10 0 0 3) 7) \<in> sr_address ` set (sc_seeds sc)"
proof -
  have l: "listen_addr demo_peer demo_hello = SockV4 (Ipv4 10 0 0 3) 7"
    by (simp add: listen_addr_def demo_peer_def demo_hello_def)
  have h: "on_session_id demo_hello = [5]" "hs_sha256 demo_hs = id" "g_registry demo_hs_ctx \<noteq> None"
    by (simp_all add: demo_hello_def demo_hs_def demo_hs_ctx_simps)
  show ?thesis
    using online_ack_received [OF demo_hs_ok demo_hs_ctx_simps(2) h(3) demo_decoded(2) _ demo_sends_ack]
    unfolding l h by blast
qed

end
