(* ===== verification/Ring.thy ===== *)
theory Ring
  imports Handshake
begin

text \<open>
  The witness ring (\<^verbatim>\<open>src/protocols/commands/tick.rs\<close>): ticks carry the sender's
  seeds and a hash of its ring; a node that finds its own ring hash repeated in enough
  consecutive agreeing ticks locks the ring and distributes a reward. The slots that the
  handler keeps in the global context are the record \<open>ring_slots\<close>.

  Shown here: nodes with the same seeds compute the same ring hash, the reward handed out
  per lock is exact and bounded, nothing is handed out without agreement, and where the
  routing of ticks does not fit the router's table.
\<close>

record tick_command =
  tk_daily_epoch :: u64
  tk_slot :: u64
  tk_challenge :: bytes
  tk_seeds :: "seeds_command option"
  tk_ring_hash :: bytes

record witness_entry =
  we_address :: string
  we_seed_addr :: string
  we_weight :: u64
  we_status :: string
  we_last_tick_ts :: u64
  we_rank :: u32

record balance_entry =
  be_address :: string
  be_balance :: u64
  be_updated_at :: u64

record ring_slots =
  rg_hash :: "bytes option"
  rg_count :: "u32 option"
  rg_witnesses :: "witness_entry list option"
  rg_balances :: "balance_entry list option"

record 'p tick_env = "'p hs_env" +
  te_tick :: "tick_command codec"

subsection \<open>The ring and its hash\<close>

definition compute_witness_ring_hash :: "(bytes \<Rightarrow> bytes) \<Rightarrow> seed_record list \<Rightarrow> bytes" where
  "compute_witness_ring_hash sha256 seeds = sha256 (concat (map as_bytes (sort (map sr_address seeds))))"

definition get_witness_ring_from_registry :: "(nat \<Rightarrow> i64) \<Rightarrow> node_registry \<Rightarrow> seed_record list" where
  "get_witness_ring_from_registry clock reg =
     map (\<lambda>(i, s, na). seed_record_new (clock i) (show_sock s) na) (enumerate 0 (nr_get_all_seeds reg))"

definition get_witness_ring :: "(nat \<Rightarrow> i64) \<Rightarrow> 'p global_ctx \<Rightarrow> seed_record list" where
  "get_witness_ring clock g =
     (case g_node g of Some n \<Rightarrow> get_witness_ring_from_registry clock (n_registry n) | None \<Rightarrow> [])"

definition build_tick_command ::
  "('p, 'z) tick_env_scheme \<Rightarrow> (nat \<Rightarrow> i64) \<Rightarrow> 'p global_ctx \<Rightarrow> tick_command" where
  "build_tick_command te clock g =
     (let seed_records = (case g_node g of
                            Some n \<Rightarrow> get_witness_ring_from_registry clock (n_registry n)
                          | None \<Rightarrow> [])
      in \<lparr>tk_daily_epoch = 0, tk_slot = 0, tk_challenge = [],
          tk_seeds = (if seed_records = [] then None
                      else Some (seeds_command_new (hs_sha256 te) seed_records)),
          tk_ring_hash = compute_witness_ring_hash (hs_sha256 te) seed_records\<rparr>)"

subsection \<open>Receiving the ring of a peer\<close>

definition register_unlisted ::
  "(ip_addr \<Rightarrow> network_scope) \<Rightarrow> u64 \<Rightarrow> string set \<Rightarrow> seed_record \<Rightarrow> node_registry \<Rightarrow> node_registry" where
  "register_unlisted from_ip now local_addrs s reg =
     (if sr_address s \<notin> local_addrs then register_record from_ip now s reg else reg)"

definition tick_dial :: "node_registry \<Rightarrow> seed_record \<Rightarrow> effect list" where
  "tick_dial reg s =
     (if \<not> nr_is_connected (sr_node_address s) reg
      then (case parse_sock (sr_address s) of Some a \<Rightarrow> [SpawnConnect a (sr_node_address s)] | None \<Rightarrow> [])
      else [])"

definition sync_witness_ring ::
  "('p, 'z) tick_env_scheme \<Rightarrow> u64 \<Rightarrow> seeds_command \<Rightarrow> 'p global_ctx \<Rightarrow> 'p global_ctx \<times> effect list" where
  "sync_witness_ring te now sc g =
     (case g_registry g of
        None \<Rightarrow> (g, [])
      | Some reg \<Rightarrow>
          (let local_addrs = show_sock ` fst ` set (nr_get_all_seeds reg);
               reg' = fold (register_unlisted (hs_from_ip te) now local_addrs) (sc_seeds sc) reg
           in (on_registry (\<lambda>_. reg') g, concat (map (tick_dial reg') (sc_seeds sc)))))"

subsection \<open>Locking\<close>

text \<open>Replace the first entry with the same key, or append.\<close>

fun upsert :: "('a \<Rightarrow> 'k) \<Rightarrow> 'a \<Rightarrow> 'a list \<Rightarrow> 'a list" where
  "upsert key x [] = [x]"
| "upsert key x (y # ys) = (if key y = key x then x # ys else y # upsert key x ys)"

definition ring_witness :: "u64 \<Rightarrow> nat \<times> seed_record \<Rightarrow> witness_entry" where
  "ring_witness now p =
     \<lparr>we_address = sr_node_address (snd p), we_seed_addr = sr_address (snd p), we_weight = 1,
      we_status = ''active'', we_last_tick_ts = now, we_rank = word_of_nat (fst p)\<rparr>"

fun credit :: "u64 \<Rightarrow> u64 \<Rightarrow> string \<Rightarrow> balance_entry list \<Rightarrow> balance_entry list" where
  "credit now amount a [] = [\<lparr>be_address = a, be_balance = amount, be_updated_at = now\<rparr>]"
| "credit now amount a (b # bs) =
     (if be_address b = a then b\<lparr>be_balance := be_balance b + amount\<rparr> # bs
      else b # credit now amount a bs)"

definition per_witness :: "nat \<Rightarrow> u64" where
  "per_witness n = (if 0 < n then 1000 div word_of_nat n else 0)"

definition or_empty :: "'a list option \<Rightarrow> 'a list" where
  "or_empty x = (case x of Some v \<Rightarrow> v | None \<Rightarrow> [])"

definition lock_witness_ring :: "u64 \<Rightarrow> seed_record list \<Rightarrow> bytes \<Rightarrow> ring_slots \<Rightarrow> ring_slots" where
  "lock_witness_ring now ring hash s =
     s\<lparr>rg_witnesses := (if ring = [] then rg_witnesses s
                        else Some (fold (\<lambda>p. upsert we_address (ring_witness now p)) (enumerate 0 ring)
                                     (or_empty (rg_witnesses s)))),
       rg_hash := Some hash,
       rg_balances := Some (fold (\<lambda>seed. credit now (per_witness (length ring)) (sr_node_address seed)) ring
                              (or_empty (rg_balances s)))\<rparr>"

text \<open>Counting agreeing ticks: whether the ring is stable now, and the new slots.\<close>

definition note_agreement :: "bytes \<Rightarrow> ring_slots \<Rightarrow> bool \<times> ring_slots" where
  "note_agreement local_hash s =
     (if rg_hash s = Some local_hash then
        (let new_count = (case rg_count s of Some n \<Rightarrow> n | None \<Rightarrow> 0) + 1
         in (2 \<le> new_count, s\<lparr>rg_count := Some new_count\<rparr>))
      else (False, s\<lparr>rg_count := Some 1, rg_hash := Some local_hash\<rparr>))"

definition tick_agreement :: "u64 \<Rightarrow> seed_record list \<Rightarrow> bytes \<Rightarrow> bytes \<Rightarrow> ring_slots \<Rightarrow> ring_slots" where
  "tick_agreement now ring local_hash tick_hash s =
     (if local_hash = tick_hash then
        (case note_agreement local_hash s of (now_stable, s') \<Rightarrow>
           if now_stable then lock_witness_ring now ring local_hash s' else s')
      else s)"

subsection \<open>The handler\<close>

definition tick_response :: "tick_command \<Rightarrow> seeds_command \<Rightarrow> tick_command" where
  "tick_response tick merged =
     \<lparr>tk_daily_epoch = tk_daily_epoch tick, tk_slot = tk_slot tick, tk_challenge = [],
      tk_seeds = Some merged, tk_ring_hash = sc_hash merged\<rparr>"

definition tick_handler ::
  "('p, 'z) tick_env_scheme \<Rightarrow> u64 \<Rightarrow> (nat \<Rightarrow> i64) \<Rightarrow> u64 \<Rightarrow> u64 \<Rightarrow> p2p_command \<Rightarrow> conn \<Rightarrow>
   'p global_ctx \<Rightarrow> ring_slots \<Rightarrow> 'p global_ctx \<times> ring_slots \<times> effect list" where
  "tick_handler te now clock nonce1 nonce2 cmd c g s =
     (case dec (te_tick te) (cmd_data cmd) of
        None \<Rightarrow> (g, s, [])
      | Some tick \<Rightarrow>
          (case (case tk_seeds tick of
                   None \<Rightarrow> (g, [])
                 | Some sc \<Rightarrow> if seeds_command_verify (hs_sha256 te) sc
                              then sync_witness_ring te now sc g else (g, [])) of
             (g', dials) \<Rightarrow>
               (let ring = get_witness_ring clock g';
                    local_hash = compute_witness_ring_hash (hs_sha256 te) ring;
                    merged = seeds_command_new (hs_sha256 te) ring;
                    written = broadcast_seeds_to_peers te nonce1 merged g';
                    s' = tick_agreement now ring local_hash (tk_ring_hash tick) s;
                    reply = (case frame_send te (hs_psk te) (te_tick te) nonce2 g' c
                                    (Some (tick_response tick merged)) ENode TickAck False of
                               Inr (Some bs) \<Rightarrow> [Sent bs]
                             | _ \<Rightarrow> [])
                in (g', s', dials @ [Broadcast written] @ reply))))"

definition send_tick ::
  "('p, 'z) tick_env_scheme \<Rightarrow> (nat \<Rightarrow> i64) \<Rightarrow> u64 \<Rightarrow> conn \<Rightarrow> 'p global_ctx \<Rightarrow> send_error + bytes option" where
  "send_tick te clock nonce c g =
     frame_send te (hs_psk te) (te_tick te) nonce g c (Some (build_tick_command te clock g)) ENode Tick False"

subsection \<open>Lemmas\<close>

lemma ring_records: "get_witness_ring_from_registry clock reg = registry_records clock reg"
  by (simp add: get_witness_ring_from_registry_def registry_records_def)

lemma ring_hash_perm:
  "mset (map sr_address xs) = mset (map sr_address ys) \<Longrightarrow>
     compute_witness_ring_hash sha256 xs = compute_witness_ring_hash sha256 ys"
  using sort_perm [of "map sr_address xs" "map sr_address ys"] by (simp add: compute_witness_ring_hash_def)

lemma register_unlisted_ok: "registry_ok reg \<Longrightarrow> registry_ok (register_unlisted from_ip now L s reg)"
  by (auto simp: register_unlisted_def)

lemma sync_witness_ring_ok: "gctx_ok g \<Longrightarrow> gctx_ok (fst (sync_witness_ring te now sc g))"
proof -
  assume ok: "gctx_ok g"
  have "registry_ok reg \<Longrightarrow> registry_ok (fold (register_unlisted f now L) ss reg)" for reg f L ss
    by (rule fold_keeps [where P = registry_ok]) (auto intro: register_unlisted_ok)
  then show ?thesis
    using ok by (auto simp: sync_witness_ring_def Let_def gctx_ok_iff split: option.split)
qed

text \<open>
  A tick dials every node that its seeds name, parse and that is not connected: unlike the
  handlers of a handshake it compares no addresses, so two nodes may dial each other and a node
  that finds its own address in the list dials itself.
\<close>

lemma connected_register_unlisted:
  "nr_is_connected n (register_unlisted from_ip now L s reg) = nr_is_connected n reg"
  by (simp add: register_unlisted_def register_record_def split: option.split)

lemma tick_dials_every_seed:
  assumes "g_registry g = Some reg" "s \<in> set (sc_seeds sc)" "parse_sock (sr_address s) = Some a"
    and "\<not> nr_is_connected (sr_node_address s) reg"
  shows "SpawnConnect a (sr_node_address s) \<in> set (snd (sync_witness_ring te now sc g))"
proof -
  have "nr_is_connected n (fold (register_unlisted from_ip now L) ss r) = nr_is_connected n r" for n from_ip L ss r
    by (induction ss arbitrary: r) (simp_all add: connected_register_unlisted)
  then show ?thesis using assms by (force simp: sync_witness_ring_def tick_dial_def Let_def)
qed

lemma credit_total:
  "sum_list (map be_balance (credit now amount a bs)) = sum_list (map be_balance bs) + amount"
  by (induction now amount a bs rule: credit.induct) (simp_all add: ac_simps)

lemma credit_all_total:
  "sum_list (map be_balance (fold (\<lambda>x. credit now amount (f x)) xs bs)) =
     sum_list (map be_balance bs) + of_nat (length xs) * amount"
  by (induction xs arbitrary: bs) (simp_all add: credit_total algebra_simps)

lemma credit_addresses: "set (map be_address (credit now amount a bs)) = insert a (set (map be_address bs))"
  by (induction now amount a bs rule: credit.induct) auto

lemma credit_distinct: "distinct (map be_address bs) \<Longrightarrow> distinct (map be_address (credit now amount a bs))"
proof (induction now amount a bs rule: credit.induct)
  case (2 now amount a b bs)
  then show ?case
    using credit_addresses [of now amount a bs] by (auto simp del: set_map)
qed simp

lemma upsert_keys: "set (map key (upsert key x xs)) = insert (key x) (set (map key xs))"
  by (induction key x xs rule: upsert.induct) auto

lemma upsert_distinct: "distinct (map key xs) \<Longrightarrow> distinct (map key (upsert key x xs))"
proof (induction key x xs rule: upsert.induct)
  case (2 key x y ys)
  then show ?case
    using upsert_keys [of key x ys] by (auto simp del: set_map)
qed simp

lemma per_witness_bound:
  assumes "0 < n" "n < 2 ^ 64"
  shows "n * unat (per_witness n) \<le> 1000"
proof -
  have "unat (word_of_nat n :: u64) = n" using assms by (simp add: unat_of_nat)
  then have "unat (per_witness n) = 1000 div n"
    using assms(1) by (simp add: per_witness_def unat_div)
  then show ?thesis by simp
qed

lemma tick_agreement_balances:
  "rg_balances (tick_agreement now ring h h' s) =
     (if h = h' \<and> rg_hash s = Some h \<and> 2 \<le> (case rg_count s of Some n \<Rightarrow> n | None \<Rightarrow> 0) + 1
      then Some (fold (\<lambda>seed. credit now (per_witness (length ring)) (sr_node_address seed)) ring
             (or_empty (rg_balances s)))
      else rg_balances s)"
  by (simp add: tick_agreement_def note_agreement_def lock_witness_ring_def Let_def)

lemma mset_records:
  assumes "registry_ok r1" "registry_ok r2" "set (nr_get_all_seeds r1) = set (nr_get_all_seeds r2)"
  shows "mset (map sr_address (registry_records c1 r1)) = mset (map sr_address (registry_records c2 r2))"
proof -
  have "mset (nr_get_all_seeds r1) = mset (nr_get_all_seeds r2)"
    using assms by (simp add: set_eq_iff_mset_eq_distinct distinct_all_seeds)
  then show ?thesis by (simp add: registry_records_addresses)
qed

subsection \<open>Properties\<close>

text \<open>
  C26. Nodes agree on the ring: two well-formed registries that list the same seeds have the
  same ring hash, in whatever order their maps are visited and whatever their clocks read.
\<close>

theorem ring_hash_agreement:
  assumes "registry_ok r1" "registry_ok r2" "set (nr_get_all_seeds r1) = set (nr_get_all_seeds r2)"
  shows "compute_witness_ring_hash sha256 (get_witness_ring_from_registry c1 r1) =
    compute_witness_ring_hash sha256 (get_witness_ring_from_registry c2 r2)"
  unfolding ring_records by (rule ring_hash_perm) (rule mset_records [OF assms])

theorem ring_hash_agreement_witness:
  "compute_witness_ring_hash id (get_witness_ring_from_registry int
     (nr_register 1 ''B'' (SockV4 (Ipv4 10 0 0 2) 7) Intranet
       (nr_register 1 ''A'' (SockV4 (Ipv4 10 0 0 1) 7) Intranet nr_new))) =
   compute_witness_ring_hash id (get_witness_ring_from_registry int
     (nr_register 2 ''A'' (SockV4 (Ipv4 10 0 0 1) 7) Extranet
       (nr_register 2 ''B'' (SockV4 (Ipv4 10 0 0 2) 7) Extranet nr_new)))"
proof (rule ring_hash_agreement)
  have ok: "registry_ok nr_new" by (simp add: nr_new_def)
  show "registry_ok (nr_register 1 ''B'' (SockV4 (Ipv4 10 0 0 2) 7) Intranet
       (nr_register 1 ''A'' (SockV4 (Ipv4 10 0 0 1) 7) Intranet nr_new))"
    "registry_ok (nr_register 2 ''A'' (SockV4 (Ipv4 10 0 0 1) 7) Extranet
       (nr_register 2 ''B'' (SockV4 (Ipv4 10 0 0 2) 7) Extranet nr_new))"
    by (intro nr_register_ok ok)+
  show "set (nr_get_all_seeds (nr_register 1 ''B'' (SockV4 (Ipv4 10 0 0 2) 7) Intranet
       (nr_register 1 ''A'' (SockV4 (Ipv4 10 0 0 1) 7) Intranet nr_new))) =
     set (nr_get_all_seeds (nr_register 2 ''A'' (SockV4 (Ipv4 10 0 0 1) 7) Extranet
       (nr_register 2 ''B'' (SockV4 (Ipv4 10 0 0 2) 7) Extranet nr_new)))"
    by (simp add: all_seeds_register ok nr_register_ok insert_commute)
qed

text \<open>
  C11. Locking a ring of \<open>n\<close> records hands out exactly \<open>n\<close> times the share, in 64-bit
  arithmetic, the shares sum to at most 1000, and no address gets a second balance or
  witness entry.
\<close>

theorem lock_reward_exact:
  assumes "0 < length ring" "length ring < 2 ^ 64"
    and "distinct (map be_address (or_empty (rg_balances s)))"
    and "distinct (map we_address (or_empty (rg_witnesses s)))"
  shows "sum_list (map be_balance (or_empty (rg_balances (lock_witness_ring now ring h s)))) =
      sum_list (map be_balance (or_empty (rg_balances s))) + of_nat (length ring) * per_witness (length ring) \<and>
    length ring * unat (per_witness (length ring)) \<le> 1000 \<and>
    distinct (map be_address (or_empty (rg_balances (lock_witness_ring now ring h s)))) \<and>
    distinct (map we_address (or_empty (rg_witnesses (lock_witness_ring now ring h s))))"
proof -
  have "distinct (map be_address (fold (\<lambda>x. credit now a (f x)) xs bs))"
    if "distinct (map be_address bs)" for a and f :: "seed_record \<Rightarrow> string" and xs bs
    by (rule fold_keeps [where P = "\<lambda>bs. distinct (map be_address bs)"]) (auto intro: credit_distinct that)
  moreover have "distinct (map we_address (fold (\<lambda>p. upsert we_address (f p)) ps ws))"
    if "distinct (map we_address ws)" for f :: "nat \<times> seed_record \<Rightarrow> witness_entry" and ps ws
    by (rule fold_keeps [where P = "\<lambda>ws. distinct (map we_address ws)"]) (auto intro: upsert_distinct that)
  ultimately show ?thesis
    using assms credit_all_total [of now "per_witness (length ring)" sr_node_address ring]
      per_witness_bound [OF assms(1,2)]
    by (auto simp: lock_witness_ring_def or_empty_def [of "Some _"])
qed

theorem lock_reward_exact_witness:
  "sum_list (map be_balance (or_empty (rg_balances (lock_witness_ring 9
      [seed_record_new 1 ''x'' ''A'', seed_record_new 1 ''y'' ''B'', seed_record_new 1 ''z'' ''C''] [7]
      \<lparr>rg_hash = None, rg_count = None, rg_witnesses = None,
       rg_balances = Some [\<lparr>be_address = ''A'', be_balance = 5, be_updated_at = 1\<rparr>]\<rparr>)))) = 5 + 999"
  using lock_reward_exact [of "[seed_record_new 1 ''x'' ''A'', seed_record_new 1 ''y'' ''B'', seed_record_new 1 ''z'' ''C'']"
      "\<lparr>rg_hash = None, rg_count = None, rg_witnesses = None,
       rg_balances = Some [\<lparr>be_address = ''A'', be_balance = 5, be_updated_at = 1\<rparr>]\<rparr>" 9 "[7]"]
  by (simp add: or_empty_def per_witness_def)

text \<open>
  C12. A tick changes balances only on agreement: the hash it carries is the hash of the ring
  that the receiver has after merging the tick's seeds, and the hash remembered from an
  earlier agreeing tick.
\<close>

theorem tick_pays_only_on_agreement:
  assumes "tick_handler te now clock n1 n2 cmd c g s = (g', s', effs)"
    and "rg_balances s' \<noteq> rg_balances s"
  shows "\<exists>tick. dec (te_tick te) (cmd_data cmd) = Some tick \<and>
    tk_ring_hash tick = compute_witness_ring_hash (hs_sha256 te) (get_witness_ring clock g') \<and>
    rg_hash s = Some (tk_ring_hash tick) \<and> rg_count s \<noteq> None"
proof -
  obtain tick where t: "dec (te_tick te) (cmd_data cmd) = Some tick"
    using assms by (cases "dec (te_tick te) (cmd_data cmd)") (auto simp: tick_handler_def)
  let ?h = "compute_witness_ring_hash (hs_sha256 te) (get_witness_ring clock g')"
  have "s' = tick_agreement now (get_witness_ring clock g') ?h (tk_ring_hash tick) s"
    using assms(1) by (auto simp: tick_handler_def t Let_def split: prod.splits)
  then have "?h = tk_ring_hash tick \<and> rg_hash s = Some ?h \<and>
      2 \<le> (case rg_count s of Some n \<Rightarrow> n | None \<Rightarrow> 0) + (1 :: u32)"
    using assms(2) by (simp add: tick_agreement_balances split: if_splits)
  moreover have "\<not> (2 :: u32) \<le> 0 + 1" by (simp add: word_le_nat_alt)
  ultimately show ?thesis using t by (cases "rg_count s") auto
qed

text \<open>
  The second agreeing tick in a row locks the ring and pays; the first does not. Every
  further agreeing tick pays the whole reward again: the counter is not reset by locking.
\<close>

theorem tick_payment_schedule:
  assumes "rg_hash s \<noteq> Some h" "0 < ring_size" "length ring = ring_size"
  shows "rg_balances (tick_agreement t1 ring h h s) = rg_balances s \<and>
    sum_list (map be_balance (or_empty (rg_balances (tick_agreement t2 ring h h (tick_agreement t1 ring h h s))))) =
      sum_list (map be_balance (or_empty (rg_balances s))) + of_nat ring_size * per_witness ring_size \<and>
    sum_list (map be_balance (or_empty (rg_balances
        (tick_agreement t3 ring h h (tick_agreement t2 ring h h (tick_agreement t1 ring h h s)))))) =
      sum_list (map be_balance (or_empty (rg_balances s))) + 2 * (of_nat ring_size * per_witness ring_size)"
proof -
  let ?s1 = "tick_agreement t1 ring h h s"
  let ?s2 = "tick_agreement t2 ring h h ?s1"
  have s1: "rg_balances ?s1 = rg_balances s" "rg_hash ?s1 = Some h" "rg_count ?s1 = Some 1"
    using assms(1) by (simp_all add: tick_agreement_def note_agreement_def)
  have s2: "rg_hash ?s2 = Some h" "rg_count ?s2 = Some 2"
    using s1 by (simp_all add: tick_agreement_def [of t2] note_agreement_def lock_witness_ring_def)
  have pay: "sum_list (map be_balance (or_empty (rg_balances (tick_agreement t ring h h s')))) =
      sum_list (map be_balance (or_empty (rg_balances s'))) + of_nat ring_size * per_witness ring_size"
    if "rg_hash s' = Some h" "rg_count s' = Some n" "2 \<le> n + 1" for t s' n
    using that assms(3) by (simp add: tick_agreement_balances credit_all_total or_empty_def [of "Some _"])
  show ?thesis
    using s1(1) pay [OF s1(2,3), of t2] pay [OF s2, of t3] by simp
qed

theorem tick_payment_schedule_witness:
  "rg_balances (tick_agreement 1 [seed_record_new 1 ''x'' ''A''] [7] [7]
     \<lparr>rg_hash = None, rg_count = None, rg_witnesses = None, rg_balances = None\<rparr>) = None"
  using tick_payment_schedule [of "\<lparr>rg_hash = None, rg_count = None, rg_witnesses = None, rg_balances = None\<rparr>"
      "[7]" 1 "[seed_record_new 1 ''x'' ''A'']" 1]
  by simp

text \<open>
  The ticks a node sends reach no handler: the frame that \<open>send_tick\<close> writes verifies at
  the receiver, but its command has no entry in the table that \<open>register\<close> builds (ticks
  are sent under the node entity and registered under the witness entity).
\<close>

theorem sent_tick_not_dispatched:
  assumes "frame_env_ok te" "codec_ok (te_tick te)" "g_address g = Some acc" "keypair (fe_crypto te) acc"
    and "send_tick te clock nonce c g = Inr (Some bs)"
    and "verify_bytes te bs = Some f" "command_from_data te (fr_body f) = Some cmd"
  shows "dispatch map_of (register handlers_on []) cmd = None"
proof -
  have "cmd_entity cmd = ENode" "cmd_action cmd = Tick"
    using frame_send_delivers' [OF assms(1-4) assms(5) [unfolded send_tick_def] assms(6,7)] by auto
  then show ?thesis
    by (simp add: handlers.dispatch_register routes_def)
qed

subsection \<open>Witnesses\<close>

definition demo_ring_reg :: node_registry where
  "demo_ring_reg = nr_register 1 ''B'' (SockV4 (Ipv4 10 0 0 2) 7) Intranet nr_new"

definition demo_ring_ctx :: "nat global_ctx" where
  "demo_ring_ctx = demo_hs_ctx\<lparr>g_node := Some \<lparr>n_registry = demo_ring_reg, n_peer_addrs = []\<rparr>\<rparr>"

definition demo_ring_hash :: bytes where
  "demo_ring_hash = compute_witness_ring_hash id (registry_records int demo_ring_reg)"

definition demo_tick :: tick_command where
  "demo_tick = \<lparr>tk_daily_epoch = 0, tk_slot = 0, tk_challenge = [],
     tk_seeds = Some (seeds_command_new id (registry_records int demo_ring_reg)),
     tk_ring_hash = demo_ring_hash\<rparr>"

definition demo_tick_frame :: p2p_frame where
  "demo_tick_frame = \<lparr>fr_body = frame_body_new 1 ''A'' [1] 5 1 [9], fr_signature = [1, 3]\<rparr>"

definition demo_te :: "nat tick_env" where
  "demo_te =
     \<lparr>fe_body = pair_codec [(fr_body demo_tick_frame, [3])],
      fe_cmd = pair_codec [(p2p_command_new ENode Tick [6], [9])],
      fe_frame = pair_codec [(demo_tick_frame, [4])], fe_msg = pair_codec [], fe_crypto = demo_crypto,
      hs_online = pair_codec [], hs_ack = pair_codec [], hs_sha256 = id, hs_from_ip = (\<lambda>_. Intranet),
      hs_from_system = (\<lambda>port nid v. \<lparr>an_id = nid, an_version = v, an_port = port, an_ips = []\<rparr>),
      hs_psk = demo_psk, te_tick = pair_codec [(demo_tick, [6])]\<rparr>"

definition demo_slots :: ring_slots where
  "demo_slots = \<lparr>rg_hash = Some demo_ring_hash, rg_count = Some 1, rg_witnesses = None, rg_balances = None\<rparr>"

lemma demo_build_tick: "build_tick_command demo_te int demo_ring_ctx = demo_tick"
proof -
  have "nr_get_all_seeds demo_ring_reg \<noteq> []"
    by (simp add: demo_ring_reg_def nr_get_all_seeds_def nr_register_def nr_new_def seed_direction_def
        entry_new_def)
  then have "registry_records int demo_ring_reg \<noteq> []"
    using length_registry_records [of int demo_ring_reg] by (metis length_0_conv)
  then show ?thesis
    by (simp add: build_tick_command_def demo_ring_ctx_def demo_hs_ctx_def ring_records demo_tick_def
        demo_ring_hash_def demo_te_def Let_def)
qed

theorem sent_tick_not_dispatched_witness:
  "dispatch map_of (register handlers_on []) (p2p_command_new ENode Tick [6]) = None"
proof -
  have env: "frame_env_ok demo_te" "codec_ok (te_tick demo_te)" "keypair (fe_crypto demo_te) demo_me"
    "g_address demo_ring_ctx = Some demo_me"
    by (simp_all add: demo_te_def frame_env_ok_def codec_ok_pairs keypair_def demo_crypto_def demo_me_def
        demo_ring_ctx_def demo_hs_ctx_def)
  have s: "send_tick demo_te int 5 demo_peer demo_ring_ctx = Inr (Some [4])"
    unfolding send_tick_def demo_build_tick
    by (simp add: frame_send_def env demo_te_def pair_codec_def frame_build_def frame_sign_def demo_me_def
        demo_tick_frame_def frame_body_new_def demo_crypto_def demo_peer_def)
  have v: "verify_bytes demo_te [4] = Some demo_tick_frame"
    by (simp add: verify_bytes_def frame_verify_def signature_valid_def demo_te_def pair_codec_def
        demo_tick_frame_def frame_body_new_def demo_crypto_def)
  have "command_from_data demo_te (fr_body demo_tick_frame) = Some (p2p_command_new ENode Tick [6])"
    by (simp add: command_from_data_def demo_te_def pair_codec_def demo_tick_frame_def frame_body_new_def)
  with env s v show ?thesis by (intro sent_tick_not_dispatched)
qed

definition demo_te_bare :: "nat tick_env" where
  "demo_te_bare = demo_te\<lparr>te_tick := pair_codec [(demo_tick\<lparr>tk_seeds := None\<rparr>, [6])]\<rparr>"

lemma demo_te_bare_simps:
  "dec (te_tick demo_te_bare) (cmd_data (p2p_command_new EWitness Tick [6])) = Some (demo_tick\<lparr>tk_seeds := None\<rparr>)"
  "hs_sha256 demo_te_bare = id"
  by (simp_all add: demo_te_bare_def pair_codec_def p2p_command_new_def demo_te_def)

theorem tick_pays_only_on_agreement_witness:
  "rg_hash demo_slots = Some demo_ring_hash \<and>
   rg_balances (fst (snd (tick_handler demo_te_bare 1 int 5 6 (p2p_command_new EWitness Tick [6]) demo_peer
     demo_ring_ctx demo_slots))) \<noteq> rg_balances demo_slots"
proof -
  let ?r = "tick_handler demo_te_bare 1 int 5 6 (p2p_command_new EWitness Tick [6]) demo_peer demo_ring_ctx demo_slots"
  have h: "compute_witness_ring_hash id (get_witness_ring int demo_ring_ctx) = demo_ring_hash"
    by (simp add: demo_ring_hash_def get_witness_ring_def demo_ring_ctx_def ring_records)
  have t: "tk_ring_hash (demo_tick\<lparr>tk_seeds := None\<rparr>) = demo_ring_hash"
    by (simp add: demo_tick_def)
  have "rg_balances (fst (snd ?r)) =
      rg_balances (tick_agreement 1 (get_witness_ring int demo_ring_ctx) demo_ring_hash demo_ring_hash demo_slots)"
    using t by (simp add: tick_handler_def demo_te_bare_simps Let_def h)
  then have "rg_balances (fst (snd ?r)) \<noteq> rg_balances demo_slots"
    by (simp add: tick_agreement_balances demo_slots_def)
  then show ?thesis
    using tick_pays_only_on_agreement [of demo_te_bare 1 int 5 6 "p2p_command_new EWitness Tick [6]" demo_peer
        demo_ring_ctx demo_slots "fst ?r" "fst (snd ?r)" "snd (snd ?r)"] t
    by (auto simp: demo_te_bare_simps)
qed

end
