(* ===== verification/Message.thy ===== *)
theory Message
  imports Handshake
begin

text \<open>
  Text messages and receipts (\<^verbatim>\<open>src/protocols/commands/message.rs\<close>): sending, the
  message handler with its duplicate filter, the receipt handler with the table of pending
  requests, and the tasks that return a receipt. Decryption and encryption are those of
  the session keys; \<open>find_entry\<close> of the connection manager is a parameter of the task
  that uses it.

  Shown here: a message sent to a node with which a session key is shared is delivered
  with its content, a message is not delivered twice while the filter remembers it, a
  receipt confirms a request once, and what clearing the filter forgets.
\<close>

record message_ack_command =
  ma_request_id :: u64

record incoming_message =
  im_from :: string
  im_content :: string
  im_timestamp :: u128

text \<open>The slots of the global context: the filter, the pending requests, the application's channel.\<close>

record msg_slots =
  ms_seen :: "string set option"
  ms_pending :: "u64 set option"
  ms_channel :: bool

record 'p msg_env = frame_env +
  me_ack :: "message_ack_command codec"
  me_sha256 :: "bytes \<Rightarrow> bytes"
  me_psk :: "'p psk_ops"

datatype msg_effect =
    Confirm u64
  | ForwardAck "(socket_addr \<times> bytes) list"
  | SpawnDirectAck string u64 "socket_addr list"
  | SpawnBroadcastAck string u64
  | Deliver incoming_message

definition seen_messages_max :: nat where
  "seen_messages_max = 10000"

definition dedup_key :: "(bytes \<Rightarrow> bytes) \<Rightarrow> string \<Rightarrow> string \<Rightarrow> string \<Rightarrow> u128 \<Rightarrow> string" where
  "dedup_key sha256 sender receiver message timestamp =
     hex_bytes (sha256 (as_bytes sender @ as_bytes ''|'' @ as_bytes receiver @ as_bytes ''|'' @
                        as_bytes message @ as_bytes ''|'' @ to_le_bytes 16 timestamp))"

text \<open>The counter of request ids: an atomic that returns its old value and wraps.\<close>

definition next_request_id :: "u64 \<Rightarrow> u64 \<times> u64" where
  "next_request_id counter = (counter, counter + 1)"

subsection \<open>Sending\<close>

definition send_text_message ::
  "('p, 'z) msg_env_scheme \<Rightarrow> u128 \<Rightarrow> u64 \<Rightarrow> string \<Rightarrow> string \<Rightarrow> u64 \<Rightarrow> conn \<Rightarrow> string \<Rightarrow> 'p global_ctx \<Rightarrow>
   send_error + bytes option" where
  "send_text_message me timestamp nonce sender receiver request_id c message g =
     frame_send me (me_psk me) (fe_msg me) nonce g c
       (Some \<lparr>m_sender = sender, m_receiver = receiver, m_request_id = request_id,
              m_timestamp = timestamp, m_message = message\<rparr>)
       EMessage SendText True"

definition send_message_ack ::
  "('p, 'z) msg_env_scheme \<Rightarrow> u64 \<Rightarrow> u64 \<Rightarrow> conn \<Rightarrow> 'p global_ctx \<Rightarrow> send_error + bytes option" where
  "send_message_ack me nonce request_id c g =
     frame_send me (me_psk me) (me_ack me) nonce g c (Some \<lparr>ma_request_id = request_id\<rparr>)
       EMessage MessageAck True"

text \<open>Sending a receipt on the connections of a list of entries.\<close>

definition ack_entry ::
  "('p, 'z) msg_env_scheme \<Rightarrow> (nat \<Rightarrow> u64) \<Rightarrow> u64 \<Rightarrow> 'p global_ctx \<Rightarrow> nat \<times> conn_entry \<Rightarrow>
   (socket_addr \<times> bytes) list" where
  "ack_entry me nonce request_id g p =
     (case ce_context (snd p) of
        None \<Rightarrow> []
      | Some c \<Rightarrow>
          (case send_message_ack me (nonce (fst p)) request_id c g of
             Inr (Some bs) \<Rightarrow> [(ce_addr (snd p), bs)]
           | _ \<Rightarrow> []))"

definition ack_entries ::
  "('p, 'z) msg_env_scheme \<Rightarrow> (nat \<Rightarrow> u64) \<Rightarrow> u64 \<Rightarrow> 'p global_ctx \<Rightarrow> conn_entry list \<Rightarrow>
   (socket_addr \<times> bytes) list" where
  "ack_entries me nonce request_id g es = concat (map (ack_entry me nonce request_id g) (enumerate 0 es))"

subsection \<open>The duplicate filter\<close>

definition note_seen :: "string \<Rightarrow> string set option \<Rightarrow> string set option option" where
  "note_seen key seen =
     (case seen of
        None \<Rightarrow> Some None
      | Some s \<Rightarrow>
          if key \<in> s then None
          else (let s' = insert key s
                in Some (Some (if seen_messages_max < card s' then {} else s'))))"

subsection \<open>Receipts\<close>

definition message_ack_handler ::
  "('p, 'z) msg_env_scheme \<Rightarrow> (nat \<Rightarrow> u64) \<Rightarrow> p2p_frame \<Rightarrow> p2p_command \<Rightarrow> 'p global_ctx \<Rightarrow> msg_slots \<Rightarrow>
   msg_slots \<times> msg_effect list" where
  "message_ack_handler me nonce f cmd g s =
     (case g_psk g of
        None \<Rightarrow> (s, [])
      | Some p \<Rightarrow>
          (case psk_decrypt (me_psk me) p (as_bytes (fb_address (fr_body f))) (cmd_data cmd) of
             None \<Rightarrow> (s, [])
           | Some plaintext \<Rightarrow>
               (case dec (me_ack me) plaintext of
                  None \<Rightarrow> (s, [])
                | Some ack \<Rightarrow>
                    (case note_seen (''ack:'' @ show_nat (unat (ma_request_id ack))) (ms_seen s) of
                       None \<Rightarrow> (s, [])
                     | Some seen \<Rightarrow>
                         (let s1 = s\<lparr>ms_seen := seen\<rparr>
                          in case ms_pending s1 of
                               Some pending \<Rightarrow>
                                 if ma_request_id ack \<in> pending
                                 then (s1\<lparr>ms_pending := Some (pending - {ma_request_id ack})\<rparr>,
                                       [Confirm (ma_request_id ack)])
                                 else (s1, [ForwardAck (ack_entries me nonce (ma_request_id ack) g
                                              (conn_entries (g_connections g)))])
                             | None \<Rightarrow>
                                 (s1, [ForwardAck (ack_entries me nonce (ma_request_id ack) g
                                         (conn_entries (g_connections g)))]))))))"

subsection \<open>Messages\<close>

definition ack_spawn :: "string \<Rightarrow> u64 \<Rightarrow> 'p global_ctx \<Rightarrow> msg_effect list" where
  "ack_spawn sender request_id g =
     (case g_node g of
        None \<Rightarrow> []
      | Some n \<Rightarrow>
          (let seeds = nr_get_seeds_for_node sender (n_registry n)
           in if seeds \<noteq> [] then [SpawnDirectAck sender request_id seeds]
              else [SpawnBroadcastAck sender request_id]))"

definition deliver :: "message_command \<Rightarrow> msg_slots \<Rightarrow> msg_effect list" where
  "deliver m s =
     (if ms_channel s
      then [Deliver \<lparr>im_from = m_sender m, im_content = m_message m, im_timestamp = m_timestamp m\<rparr>]
      else [])"

definition message_handler ::
  "('p, 'z) msg_env_scheme \<Rightarrow> p2p_frame \<Rightarrow> p2p_command \<Rightarrow> 'p global_ctx \<Rightarrow> msg_slots \<Rightarrow>
   msg_slots \<times> msg_effect list" where
  "message_handler me f cmd g s =
     (case g_psk g of
        None \<Rightarrow> (s, [])
      | Some p \<Rightarrow>
          (case psk_decrypt (me_psk me) p (as_bytes (fb_address (fr_body f))) (cmd_data cmd) of
             None \<Rightarrow> (s, [])
           | Some plaintext \<Rightarrow>
               (case dec (fe_msg me) plaintext of
                  None \<Rightarrow> (s, [])
                | Some m \<Rightarrow>
                    (case note_seen (dedup_key (me_sha256 me) (m_sender m) (m_receiver m) (m_message m)
                                       (m_timestamp m)) (ms_seen s) of
                       None \<Rightarrow> (s, [])
                     | Some seen \<Rightarrow>
                         (let s1 = s\<lparr>ms_seen := seen\<rparr>
                          in case g_address g of
                               None \<Rightarrow> (s1, [])
                             | Some acc \<Rightarrow>
                                 if m_sender m = acc_string acc then (s1, [])
                                 else if m_receiver m = acc_string acc
                                 then (s1, ack_spawn (m_sender m) (m_request_id m) g @ deliver m s1)
                                 else (s1, []))))))"

subsection \<open>Returning a receipt\<close>

text \<open>
  The spawned task: the first seed with a connection gets the receipt; otherwise every
  connection that matches the sender by socket or by the address stored on it, once per
  node. \<open>node_name\<close> renders a node id as text.
\<close>

definition direct_conn ::
  "(socket_addr \<Rightarrow> conn_entry option) \<Rightarrow> socket_addr list \<Rightarrow> conn option" where
  "direct_conn find_entry seeds =
     map_option (\<lambda>a. the (Option.bind (find_entry a) ce_context))
       (find (\<lambda>a. Option.bind (find_entry a) ce_context \<noteq> None) seeds)"

definition matches_sender :: "string \<Rightarrow> socket_addr list \<Rightarrow> conn_entry \<Rightarrow> bool" where
  "matches_sender sender seeds e \<longleftrightarrow>
     ce_addr e \<in> set seeds \<or>
     (case ce_context e of Some c \<Rightarrow> c_peer c = Some sender | None \<Rightarrow> False)"

fun once_per_node :: "(bytes \<Rightarrow> string) \<Rightarrow> string set \<Rightarrow> conn_entry list \<Rightarrow> conn_entry list" where
  "once_per_node node_name sent [] = []"
| "once_per_node node_name sent (e # es) =
     (case ce_node e of
        None \<Rightarrow> e # once_per_node node_name sent es
      | Some n \<Rightarrow>
          if node_name (an_id n) \<in> sent then once_per_node node_name sent es
          else e # once_per_node node_name (insert (node_name (an_id n)) sent) es)"

definition direct_ack_task ::
  "('p, 'z) msg_env_scheme \<Rightarrow> (nat \<Rightarrow> u64) \<Rightarrow> (bytes \<Rightarrow> string) \<Rightarrow> (socket_addr \<Rightarrow> conn_entry option) \<Rightarrow>
   string \<Rightarrow> u64 \<Rightarrow> socket_addr list \<Rightarrow> 'p global_ctx \<Rightarrow> (socket_addr \<times> bytes) list" where
  "direct_ack_task me nonce node_name find_entry sender request_id seeds g =
     (case direct_conn find_entry seeds of
        Some c \<Rightarrow>
          (case send_message_ack me (nonce 0) request_id c g of
             Inr (Some bs) \<Rightarrow> [(c_addr c, bs)]
           | _ \<Rightarrow> [])
      | None \<Rightarrow>
          ack_entries me nonce request_id g
            (once_per_node node_name {}
               (filter (matches_sender sender seeds) (conn_entries (g_connections g)))))"

definition broadcast_ack_task ::
  "('p, 'z) msg_env_scheme \<Rightarrow> (nat \<Rightarrow> u64) \<Rightarrow> u64 \<Rightarrow> 'p global_ctx \<Rightarrow> (socket_addr \<times> bytes) list" where
  "broadcast_ack_task me nonce request_id g =
     ack_entries me nonce request_id g (conn_entries (g_connections g))"

subsection \<open>Lemmas\<close>

definition message_key :: "('p, 'z) msg_env_scheme \<Rightarrow> message_command \<Rightarrow> string" where
  "message_key me m = dedup_key (me_sha256 me) (m_sender m) (m_receiver m) (m_message m) (m_timestamp m)"

text \<open>What the handler reads from a frame: decryption under the sender's address, then decoding.\<close>

definition read_message ::
  "('p, 'z) msg_env_scheme \<Rightarrow> 'p global_ctx \<Rightarrow> p2p_frame \<Rightarrow> p2p_command \<Rightarrow> message_command option" where
  "read_message me g f cmd =
     Option.bind (g_psk g) (\<lambda>p.
     Option.bind (psk_decrypt (me_psk me) p (as_bytes (fb_address (fr_body f))) (cmd_data cmd))
       (dec (fe_msg me)))"

lemma message_handler_read:
  "message_handler me f cmd g s =
     (case read_message me g f cmd of
        None \<Rightarrow> (s, [])
      | Some m \<Rightarrow>
          (case note_seen (message_key me m) (ms_seen s) of
             None \<Rightarrow> (s, [])
           | Some seen \<Rightarrow>
               (s\<lparr>ms_seen := seen\<rparr>,
                case g_address g of
                  None \<Rightarrow> []
                | Some acc \<Rightarrow>
                    if m_sender m \<noteq> acc_string acc \<and> m_receiver m = acc_string acc
                    then ack_spawn (m_sender m) (m_request_id m) g @ deliver m s
                    else [])))"
  by (auto simp: message_handler_def read_message_def message_key_def deliver_def Let_def
      split: option.split)

lemma deliver_seen [simp]: "deliver m (s\<lparr>ms_seen := x\<rparr>) = deliver m s"
  by (simp add: deliver_def)

lemma note_seen_cases:
  "note_seen k (Some s) = Some r \<longleftrightarrow>
     k \<notin> s \<and> r = Some (if seen_messages_max < card (insert k s) then {} else insert k s)"
  by (auto simp: note_seen_def Let_def)

text \<open>The filter while commands are handled one after the other.\<close>

definition run_messages ::
  "('p, 'z) msg_env_scheme \<Rightarrow> 'p global_ctx \<Rightarrow> (p2p_frame \<times> p2p_command) list \<Rightarrow> msg_slots \<Rightarrow> msg_slots" where
  "run_messages me g fcs s = fold (\<lambda>(f, cmd) s. fst (message_handler me f cmd g s)) fcs s"

lemma seen_step:
  assumes "ms_seen s = Some S" "finite S" "card S < seen_messages_max"
  shows "\<exists>S'. ms_seen (fst (message_handler me f cmd g s)) = Some S' \<and> finite S' \<and> S \<subseteq> S' \<and>
    card S' \<le> Suc (card S) \<and> (\<forall>m. read_message me g f cmd = Some m \<longrightarrow> message_key me m \<in> S')"
proof (cases "read_message me g f cmd")
  case None
  then show ?thesis using assms by (auto simp: message_handler_read)
next
  case (Some m)
  have c: "card (insert (message_key me m) S) \<le> Suc (card S)" by (simp add: card_insert_if assms(2))
  then have "\<not> seen_messages_max < card (insert (message_key me m) S)" using assms(3) by linarith
  then show ?thesis
    using Some assms c
    by (cases "message_key me m \<in> S") (auto simp: message_handler_read note_seen_def Let_def)
qed

lemma seen_run:
  "ms_seen s = Some S \<Longrightarrow> finite S \<Longrightarrow> card S + length fcs \<le> seen_messages_max \<Longrightarrow>
     \<exists>S'. ms_seen (run_messages me g fcs s) = Some S' \<and> finite S' \<and> S \<subseteq> S' \<and> card S' \<le> card S + length fcs"
proof (induction fcs arbitrary: s S)
  case (Cons fc fcs)
  obtain f cmd where fc: "fc = (f, cmd)" by fastforce
  obtain S1 where S1: "ms_seen (fst (message_handler me f cmd g s)) = Some S1" "finite S1" "S \<subseteq> S1"
    "card S1 \<le> Suc (card S)"
    using seen_step [OF Cons.prems(1,2), of me f cmd g] Cons.prems(3) by auto
  have "card S1 + length fcs \<le> seen_messages_max" using S1(4) Cons.prems(3) by simp
  from Cons.IH [OF S1(1,2) this] obtain S' where
    S': "ms_seen (run_messages me g fcs (fst (message_handler me f cmd g s))) = Some S'" "finite S'"
      "S1 \<subseteq> S'" "card S' \<le> card S1 + length fcs" by auto
  have "run_messages me g (fc # fcs) s = run_messages me g fcs (fst (message_handler me f cmd g s))"
    by (simp add: run_messages_def fc)
  then show ?case using S' S1 by (intro exI [of _ S']) auto
qed (simp add: run_messages_def)

lemma run_messages_append:
  "run_messages me g (xs @ ys) s = run_messages me g ys (run_messages me g xs s)"
  by (simp add: run_messages_def)

lemma seen_silent:
  "read_message me g f cmd = Some m \<Longrightarrow> ms_seen s = Some S \<Longrightarrow> message_key me m \<in> S \<Longrightarrow>
     message_handler me f cmd g s = (s, [])"
  by (simp add: message_handler_read note_seen_def)

text \<open>Receipts handled one after the other: the confirmations made.\<close>

fun run_acks ::
  "('p, 'z) msg_env_scheme \<Rightarrow> (nat \<Rightarrow> u64) \<Rightarrow> 'p global_ctx \<Rightarrow> (p2p_frame \<times> p2p_command) list \<Rightarrow>
   msg_slots \<Rightarrow> msg_effect list" where
  "run_acks me nonce g [] s = []"
| "run_acks me nonce g ((f, cmd) # fcs) s =
     snd (message_ack_handler me nonce f cmd g s) @
     run_acks me nonce g fcs (fst (message_ack_handler me nonce f cmd g s))"

lemma ack_step:
  "message_ack_handler me nonce f cmd g s = (s', effs) \<Longrightarrow>
     (effs = [] \<and> s' = s) \<or>
     (\<exists>out. effs = [ForwardAck out] \<and> ms_pending s' = ms_pending s) \<or>
     (\<exists>k pend. effs = [Confirm k] \<and> ms_pending s = Some pend \<and> k \<in> pend \<and> ms_pending s' = Some (pend - {k}))"
  by (auto simp: message_ack_handler_def Let_def split: option.splits if_splits)

lemma no_confirm_unless_pending:
  "(\<forall>pend. ms_pending s = Some pend \<longrightarrow> k \<notin> pend) \<Longrightarrow> Confirm k \<notin> set (run_acks me nonce g fcs s)"
proof (induction me nonce g fcs s rule: run_acks.induct)
  case (2 me nonce g f cmd fcs s)
  obtain s' effs where h: "message_ack_handler me nonce f cmd g s = (s', effs)" by fastforce
  have "(\<forall>pend. ms_pending s' = Some pend \<longrightarrow> k \<notin> pend) \<and> Confirm k \<notin> set effs"
    using ack_step [OF h] "2.prems" by auto
  then show ?case using 2 h by simp
qed simp

lemma confirm_at_most_once: "count_list (run_acks me nonce g fcs s) (Confirm k) \<le> 1"
proof (induction me nonce g fcs s rule: run_acks.induct)
  case (2 me nonce g f cmd fcs s)
  obtain s' effs where h: "message_ack_handler me nonce f cmd g s = (s', effs)" by fastforce
  show ?case
  proof (cases "Confirm k \<in> set effs")
    case False
    then show ?thesis using 2 h by (simp add: count_notin)
  next
    case True
    then have e: "effs = [Confirm k]" and "\<forall>pend. ms_pending s' = Some pend \<longrightarrow> k \<notin> pend"
      using ack_step [OF h] by auto
    from no_confirm_unless_pending [OF this(2), of me nonce g fcs] show ?thesis
      using e h by (simp add: count_notin)
  qed
qed simp

text \<open>
  What one node sends the other reads: a message written by A for B is read by B's handler,
  and a receipt written by B on a connection that knows A is read by A's handler. Both need
  that what is encrypted for the other side decrypts there.
\<close>

lemma sent_message_read:
  assumes env: "frame_env_ok me" "codec_ok (fe_msg me)"
    and a: "g_address ga = Some a" "keypair (fe_crypto me) a" "g_psk ga = Some pa"
    and b: "g_psk gb = Some pb"
    and key: "\<And>d ct. psk_encrypt (me_psk me) pa (as_bytes receiver) d = Some ct \<Longrightarrow>
        psk_decrypt (me_psk me) pb (as_bytes (acc_string a)) ct = Some d"
    and send: "send_text_message me ts nonce (acc_string a) receiver rid c text ga = Inr (Some bs)"
      "verify_bytes me bs = Some f" "command_from_data me (fr_body f) = Some cmd"
  shows "read_message me gb f cmd = Some \<lparr>m_sender = acc_string a, m_receiver = receiver, m_request_id = rid,
      m_timestamp = ts, m_message = text\<rparr> \<and> dispatch map_of (register handlers_on []) cmd = Some HMessage"
proof -
  let ?m = "\<lparr>m_sender = acc_string a, m_receiver = receiver, m_request_id = rid, m_timestamp = ts,
    m_message = text\<rparr>"
  from frame_send_Inr [OF send(1) [unfolded send_text_message_def]] a obtain data payload f' where
    d: "enc (fe_msg me) ?m = Some data"
    and p: "psk_encrypt (me_psk me) pa (send_key me ga c (acc_string a) SendText data) data = Some payload"
    and f': "frame_build me a (p2p_command_new EMessage SendText payload) 1 nonce = Some f'"
    and bs: "enc (fe_frame me) f' = Some bs"
    by (auto split: if_splits)
  have "dec (fe_msg me) data = Some ?m" by (rule codec_okD [OF env(2) d])
  then have "send_key me ga c (acc_string a) SendText data = as_bytes receiver"
    by (simp add: send_key_def)
  with p key have dp: "psk_decrypt (me_psk me) pb (as_bytes (acc_string a)) payload = Some data" by simp
  have "f = f'"
    using env(1) send(2) bs frame_verify_Some [of me f' f]
    by (auto simp: verify_bytes_def frame_env_ok_def codec_okD)
  then have adr: "fb_address (fr_body f) = acc_string a" and cmd: "cmd = p2p_command_new EMessage SendText payload"
    using frame_build_command [OF env(1) f'] send(3) f' by (auto simp: frame_build_Some frame_body_new_def)
  have "dispatch map_of (register handlers_on []) cmd = Some HMessage"
    by (simp add: cmd p2p_command_new_def handlers.dispatch_register routes_def)
  then show ?thesis
    using b dp \<open>dec (fe_msg me) data = Some ?m\<close>
    by (simp add: read_message_def adr cmd p2p_command_new_def)
qed

lemma sent_receipt_confirms:
  assumes env: "frame_env_ok me" "codec_ok (me_ack me)"
    and b: "g_address gb = Some b" "keypair (fe_crypto me) b" "g_psk gb = Some pb"
    and a: "g_psk ga = Some pa" "c_peer c = Some sender"
    and key: "\<And>d ct. psk_encrypt (me_psk me) pb (as_bytes sender) d = Some ct \<Longrightarrow>
        psk_decrypt (me_psk me) pa (as_bytes (acc_string b)) ct = Some d"
    and send: "send_message_ack me nonce rid c gb = Inr (Some bs)"
      "verify_bytes me bs = Some f" "command_from_data me (fr_body f) = Some cmd"
    and pend: "ms_pending s = Some P" "rid \<in> P"
    and fresh: "ms_seen s = Some S" "''ack:'' @ show_nat (unat rid) \<notin> S"
  shows "dispatch map_of (register handlers_on []) cmd = Some HMessageAck \<and>
    (\<exists>s'. message_ack_handler me nonces f cmd ga s = (s', [Confirm rid]) \<and> ms_pending s' = Some (P - {rid}))"
proof -
  from frame_send_Inr [OF send(1) [unfolded send_message_ack_def]] b obtain data payload f' where
    d: "enc (me_ack me) \<lparr>ma_request_id = rid\<rparr> = Some data"
    and p: "psk_encrypt (me_psk me) pb (send_key me gb c (acc_string b) MessageAck data) data = Some payload"
    and f': "frame_build me b (p2p_command_new EMessage MessageAck payload) 1 nonce = Some f'"
    and bs: "enc (fe_frame me) f' = Some bs"
    by (auto split: if_splits)
  have "send_key me gb c (acc_string b) MessageAck data = as_bytes sender"
    using a(2) by (simp add: send_key_def)
  with p key have dp: "psk_decrypt (me_psk me) pa (as_bytes (acc_string b)) payload = Some data" by simp
  have "f = f'"
    using env(1) send(2) bs frame_verify_Some [of me f' f]
    by (auto simp: verify_bytes_def frame_env_ok_def codec_okD)
  then have adr: "fb_address (fr_body f) = acc_string b" and cmd: "cmd = p2p_command_new EMessage MessageAck payload"
    using frame_build_command [OF env(1) f'] send(3) f' by (auto simp: frame_build_Some frame_body_new_def)
  have "dispatch map_of (register handlers_on []) cmd = Some HMessageAck"
    by (simp add: cmd p2p_command_new_def handlers.dispatch_register routes_def)
  then show ?thesis
    using a(1) dp codec_okD [OF env(2) d] pend fresh
    by (simp add: message_ack_handler_def adr cmd p2p_command_new_def note_seen_def Let_def)
qed

subsection \<open>Properties\<close>

text \<open>
  C5. A text message arrives: when node A sends a message for node B on a connection, B reads
  from the written bytes a frame whose command is routed to the message handler, and the
  handler delivers sender, content and time stamp to the application. This needs a session
  key shared between A and B (what A encrypts for B decrypts at B under A's address), an
  application channel at B, and that B has not seen this message before.
\<close>

theorem message_delivered:
  assumes env: "frame_env_ok me" "codec_ok (fe_msg me)"
    and a: "g_address ga = Some a" "keypair (fe_crypto me) a" "g_psk ga = Some pa"
    and b: "g_address gb = Some b" "g_psk gb = Some pb" "acc_string a \<noteq> acc_string b"
    and key: "\<And>d ct. psk_encrypt (me_psk me) pa (as_bytes (acc_string b)) d = Some ct \<Longrightarrow>
        psk_decrypt (me_psk me) pb (as_bytes (acc_string a)) ct = Some d"
    and send: "send_text_message me ts nonce (acc_string a) (acc_string b) rid c text ga = Inr (Some bs)"
      "verify_bytes me bs = Some f" "command_from_data me (fr_body f) = Some cmd"
    and fresh: "ms_channel s" "ms_seen s = Some S"
      "dedup_key (me_sha256 me) (acc_string a) (acc_string b) text ts \<notin> S"
  shows "dispatch map_of (register handlers_on []) cmd = Some HMessage \<and>
    Deliver \<lparr>im_from = acc_string a, im_content = text, im_timestamp = ts\<rparr> \<in>
      set (snd (message_handler me f cmd gb s))"
proof -
  let ?m = "\<lparr>m_sender = acc_string a, m_receiver = acc_string b, m_request_id = rid, m_timestamp = ts,
    m_message = text\<rparr>"
  have "read_message me gb f cmd = Some ?m" "dispatch map_of (register handlers_on []) cmd = Some HMessage"
    using sent_message_read [OF env a b(2) key send] by auto
  then show ?thesis
    using b fresh by (simp add: message_handler_read message_key_def note_seen_def Let_def deliver_def)
qed

text \<open>
  C13. No double delivery: among up to 10000 commands handled since the filter was empty enough,
  a command that carries a message already handled (same sender, receiver, text and time
  stamp, in whatever frame) has no effect.
\<close>

theorem duplicate_suppressed:
  assumes "ms_seen s = Some S" "finite S" "card S + length (xs @ x # ys) \<le> 10000"
    and "read_message me g (fst x) (snd x) = Some m" "read_message me g (fst y) (snd y) = Some m'"
    and "message_key me m = message_key me m'"
  shows "message_handler me (fst y) (snd y) g (run_messages me g (xs @ x # ys) s) =
    (run_messages me g (xs @ x # ys) s, [])"
proof -
  have len: "card S + length xs < seen_messages_max"
    using assms(3) by (simp add: seen_messages_max_def)
  obtain S1 where S1: "ms_seen (run_messages me g xs s) = Some S1" "finite S1" "card S1 \<le> card S + length xs"
    using seen_run [OF assms(1,2), of xs me g] len by auto
  let ?s2 = "fst (message_handler me (fst x) (snd x) g (run_messages me g xs s))"
  obtain S2 where S2: "ms_seen ?s2 = Some S2" "finite S2" "card S2 \<le> Suc (card S1)" "message_key me m \<in> S2"
    using seen_step [OF S1(1,2), of me "fst x" "snd x" g] S1(3) len assms(4) by auto
  have "card S2 + length ys \<le> seen_messages_max"
    using S1(3) S2(3) assms(3) by (simp add: seen_messages_max_def)
  from seen_run [OF S2(1,2) this, of me g] obtain S3 where
    S3: "ms_seen (run_messages me g ys ?s2) = Some S3" "S2 \<subseteq> S3" by blast
  have "run_messages me g (xs @ x # ys) s = run_messages me g ys ?s2"
    by (simp add: run_messages_def split: prod.split)
  then show ?thesis
    using S3 S2(4) assms(6) seen_silent [OF assms(5), of "run_messages me g ys ?s2" S3] by auto
qed

text \<open>
  C27. A request is confirmed at most once: in any sequence of receipts that are handled without
  a new request being registered, a request id is reported as delivered at most once.
\<close>

theorem receipt_confirms_once:
  "length (filter (\<lambda>e. e = Confirm k) (run_acks me nonce g fcs s)) \<le> 1"
  using confirm_at_most_once [of me nonce g fcs s k]
  by (simp add: count_list_eq_length_filter eq_commute [of _ "Confirm k"])

text \<open>
  The filter forgets the message that overflows it: when a new message takes the filter
  beyond its limit, the filter is emptied, the message itself included, and an immediate
  repetition of the same frame is handled like the first one.
\<close>

theorem overflow_forgets_message:
  assumes "ms_seen s = Some S" "finite S" "card S = 10000"
    and "read_message me g f cmd = Some m" "message_key me m \<notin> S"
  shows "ms_seen (fst (message_handler me f cmd g s)) = Some {} \<and>
    snd (message_handler me f cmd g (fst (message_handler me f cmd g s))) = snd (message_handler me f cmd g s)"
proof -
  have "seen_messages_max < card (insert (message_key me m) S)"
    using assms by (simp add: seen_messages_max_def)
  then have n: "note_seen (message_key me m) (Some S) = Some (Some {})"
    using assms(5) by (simp add: note_seen_def Let_def)
  have e: "note_seen (message_key me m) (Some {}) = Some (Some {message_key me m})"
    by (simp add: note_seen_def seen_messages_max_def)
  show ?thesis
    using n e assms(1,4) by (simp add: message_handler_read split: option.split)
qed

subsection \<open>Witnesses\<close>

definition demo_msg :: message_command where
  "demo_msg = \<lparr>m_sender = ''A'', m_receiver = ''B'', m_request_id = 1, m_timestamp = 2, m_message = ''hi''\<rparr>"

definition demo_msg_frame :: p2p_frame where
  "demo_msg_frame = \<lparr>fr_body = frame_body_new 1 ''A'' [1] 5 1 [9], fr_signature = [1, 3]\<rparr>"

definition demo_msg_env :: "nat msg_env" where
  "demo_msg_env =
     \<lparr>fe_body = pair_codec [(fr_body demo_msg_frame, [3])],
      fe_cmd = pair_codec [(p2p_command_new EMessage SendText [8], [9])],
      fe_frame = pair_codec [(demo_msg_frame, [4])], fe_msg = pair_codec [(demo_msg, [8])],
      fe_crypto = demo_crypto, me_ack = pair_codec [], me_sha256 = (\<lambda>_. []), me_psk = demo_psk\<rparr>"

definition demo_receiver :: "nat global_ctx" where
  "demo_receiver = demo_hs_ctx\<lparr>g_address := Some (demo_me\<lparr>acc_string := ''B''\<rparr>)\<rparr>"

definition demo_msg_slots :: "string set \<Rightarrow> msg_slots" where
  "demo_msg_slots S = \<lparr>ms_seen = Some S, ms_pending = None, ms_channel = True\<rparr>"

lemma demo_msg_read:
  "read_message demo_msg_env demo_receiver demo_msg_frame (p2p_command_new EMessage SendText [8]) = Some demo_msg"
  "message_key demo_msg_env demo_msg = []"
  by (simp_all add: read_message_def demo_receiver_def demo_hs_ctx_def demo_msg_env_def demo_psk_def
      p2p_command_new_def pair_codec_def message_key_def dedup_key_def hex_bytes_def)

theorem message_delivered_witness:
  "Deliver \<lparr>im_from = ''A'', im_content = ''hi'', im_timestamp = 2\<rparr> \<in> set (snd (message_handler demo_msg_env
     demo_msg_frame (p2p_command_new EMessage SendText [8]) demo_receiver (demo_msg_slots {})))"
proof -
  have env: "frame_env_ok demo_msg_env" "codec_ok (fe_msg demo_msg_env)" "keypair (fe_crypto demo_msg_env) demo_me"
    by (simp_all add: demo_msg_env_def frame_env_ok_def codec_ok_pairs keypair_def demo_crypto_def demo_me_def)
  have psk: "psk_encrypt (me_psk demo_msg_env) p k d = Some d" "psk_decrypt (me_psk demo_msg_env) p k d = Some d"
    for p k d
    by (simp_all add: demo_msg_env_def demo_psk_def)
  have ga: "g_psk demo_hs_ctx = Some 0" "g_psk demo_receiver = Some 0"
    "g_address demo_receiver = Some (demo_me\<lparr>acc_string := ''B''\<rparr>)"
    by (simp_all add: demo_hs_ctx_def demo_receiver_def)
  have ab: "acc_string demo_me = ''A''" by (simp add: demo_me_def)
  have s: "send_text_message demo_msg_env 2 5 ''A'' ''B'' 1 demo_peer ''hi'' demo_hs_ctx = Inr (Some [4])"
    by (simp add: send_text_message_def frame_send_def demo_hs_ctx_simps ga
        demo_msg_def [symmetric] demo_msg_env_def pair_codec_def frame_build_def frame_sign_def
        demo_me_def demo_msg_frame_def frame_body_new_def demo_crypto_def demo_peer_def demo_psk_def)
  have v: "verify_bytes demo_msg_env [4] = Some demo_msg_frame"
    by (simp add: verify_bytes_def frame_verify_def signature_valid_def demo_msg_env_def pair_codec_def
        demo_msg_frame_def frame_body_new_def demo_crypto_def)
  have c: "command_from_data demo_msg_env (fr_body demo_msg_frame) = Some (p2p_command_new EMessage SendText [8])"
    by (simp add: command_from_data_def demo_msg_env_def pair_codec_def demo_msg_frame_def frame_body_new_def)
  show ?thesis
    using message_delivered [OF env(1,2) demo_hs_ctx_simps(2) env(3) ga(1) ga(3,2), of 2 5 1 demo_peer "''hi''"
        "[4]" demo_msg_frame "p2p_command_new EMessage SendText [8]" "demo_msg_slots {}" "{}"] s v c psk ab
    by (simp add: demo_msg_slots_def)
qed

theorem duplicate_suppressed_witness:
  "snd (message_handler demo_msg_env demo_msg_frame (p2p_command_new EMessage SendText [8]) demo_receiver
     (run_messages demo_msg_env demo_receiver
       [(demo_msg_frame, p2p_command_new EMessage SendText [8])] (demo_msg_slots {}))) = []"
  using duplicate_suppressed [of "demo_msg_slots {}" "{}" "[]"
      "(demo_msg_frame, p2p_command_new EMessage SendText [8])" "[]" demo_msg_env demo_receiver demo_msg
      "(demo_msg_frame, p2p_command_new EMessage SendText [8])" demo_msg] demo_msg_read
  by (simp add: demo_msg_slots_def)

theorem overflow_forgets_message_witness:
  "ms_seen (fst (message_handler demo_msg_env demo_msg_frame (p2p_command_new EMessage SendText [8])
     demo_receiver (demo_msg_slots (show_nat ` {..<10000})))) = Some {}"
proof -
  have "inj_on show_nat {..<10000}"
    by (rule inj_on_inverseI [where g = "digits_val 10"]) (simp add: digits_val_show_radix)
  then have "card (show_nat ` {..<10000}) = 10000" by (simp add: card_image)
  moreover have "[] \<notin> show_nat ` {..<10000}" using show_radix_not_Nil by (metis imageE)
  ultimately show ?thesis
    using overflow_forgets_message [of "demo_msg_slots (show_nat ` {..<10000})" "show_nat ` {..<10000}"
        demo_msg_env demo_receiver demo_msg_frame "p2p_command_new EMessage SendText [8]" demo_msg] demo_msg_read
    by (simp add: demo_msg_slots_def)
qed

end
