(* ===== verification/DataSync.thy ===== *)
theory DataSync
  imports Frame
begin

text \<open>
  Two request and response exchanges between nodes: ledger data
  (\<^verbatim>\<open>src/protocols/commands/node_sync.rs\<close>) and witness validation
  (\<^verbatim>\<open>witness_validate.rs\<close>). The application behind the channels is a parameter: a
  provider that answers a request id with data or fails. A floating point column travels
  as its bit pattern.

  Shown here: a data request is always answered under its id, a successful answer reaches
  the requesting application unchanged, and a failed one never does; a validation event
  names the node that asked.
\<close>

subsection \<open>Ledger data\<close>

record transaction_data =
  td_id :: i64
  td_epoch :: i64
  td_cycle :: i64
  td_tx_type :: string
  td_from_address :: string
  td_to_address :: string
  td_amount :: string
  td_timestamp :: i64
  td_pre_hash :: string
  td_hash :: string
  td_shard_key :: string

record balance_data =
  bd_id :: i64
  bd_address :: string
  bd_balance :: string
  bd_updated_at :: i64

record epoch_data =
  ed_id :: i64
  ed_day :: i64
  ed_start_time :: i64
  ed_end_time :: i64
  ed_tick_count :: u8
  ed_total_reward :: string
  ed_settled :: bool

record seed_data =
  sd_id :: i64
  sd_ip :: string
  sd_port :: int
  sd_node_id :: string
  sd_is_intranet :: bool
  sd_is_active :: bool
  sd_success_count :: int
  sd_failure_count :: int
  sd_online_days :: i64
  sd_offline_days :: i64
  sd_online_rate :: u64

record meta_entry =
  mt_key :: string
  mt_value :: string

record node_sync_request =
  nq_request_id :: string
  nq_node_id :: string
  nq_sync_type :: string

record node_sync_response =
  np_request_id :: string
  np_success :: bool
  np_transactions :: "transaction_data list"
  np_balances :: "balance_data list"
  np_epochs :: "epoch_data list"
  np_seeds :: "seed_data list"
  np_meta_entries :: "meta_entry list"

record data_env = frame_env +
  de_request :: "node_sync_request codec"
  de_response :: "node_sync_response codec"

definition failed_response :: "string \<Rightarrow> node_sync_response" where
  "failed_response rid =
     \<lparr>np_request_id = rid, np_success = False, np_transactions = [], np_balances = [], np_epochs = [],
      np_seeds = [], np_meta_entries = []\<rparr>"

text \<open>
  \<open>provider\<close> is the registered request channel: absent, or a function whose failure
  stands for a closed channel or a dropped answer.
\<close>

definition node_sync_answer ::
  "(string \<Rightarrow> node_sync_response option) option \<Rightarrow> node_sync_request \<Rightarrow> node_sync_response" where
  "node_sync_answer provider request =
     (case provider of
        Some tx \<Rightarrow>
          (case tx (nq_request_id request) of
             Some resp \<Rightarrow> resp
           | None \<Rightarrow> failed_response (nq_request_id request))
      | None \<Rightarrow> failed_response (nq_request_id request))"

definition node_sync_handler ::
  "'z data_env_scheme \<Rightarrow> 'p psk_ops \<Rightarrow> (string \<Rightarrow> node_sync_response option) option \<Rightarrow> u64 \<Rightarrow>
   p2p_command \<Rightarrow> conn \<Rightarrow> 'p global_ctx \<Rightarrow> bytes option" where
  "node_sync_handler de psk provider nonce cmd c g =
     (case dec (de_request de) (cmd_data cmd) of
        None \<Rightarrow> None
      | Some request \<Rightarrow>
          (case frame_send de psk (de_response de) nonce g c (Some (node_sync_answer provider request))
                  ENode NodeSyncResponse False of
             Inr sent \<Rightarrow> sent
           | Inl e \<Rightarrow> None))"

text \<open>What the response handler hands to the application, if a channel is registered.\<close>

definition node_sync_response_handler ::
  "'z data_env_scheme \<Rightarrow> bool \<Rightarrow> p2p_command \<Rightarrow> node_sync_response option" where
  "node_sync_response_handler de has_sender cmd =
     (case dec (de_response de) (cmd_data cmd) of
        None \<Rightarrow> None
      | Some response \<Rightarrow>
          if \<not> np_success response then None
          else if has_sender then Some response else None)"

definition request_node_sync ::
  "'z data_env_scheme \<Rightarrow> 'p psk_ops \<Rightarrow> string \<Rightarrow> u64 \<Rightarrow> conn \<Rightarrow> string \<Rightarrow> string \<Rightarrow> 'p global_ctx \<Rightarrow>
   send_error + bytes option" where
  "request_node_sync de psk uuid nonce c node_id sync_type g =
     frame_send de psk (de_request de) nonce g c
       (Some \<lparr>nq_request_id = uuid, nq_node_id = node_id, nq_sync_type = sync_type\<rparr>)
       ENode NodeSyncRequest False"

subsection \<open>Witness validation\<close>

record witness_validate_request =
  wq_sender_id :: string
  wq_nonce :: bytes

record witness_validate_response =
  wp_sender_id :: string
  wp_nonce :: bytes

record validation_event =
  ve_node_id :: string
  ve_success :: bool

record validate_env = frame_env +
  ve_request :: "witness_validate_request codec"
  ve_response :: "witness_validate_response codec"

definition witness_validate_handler ::
  "'z validate_env_scheme \<Rightarrow> 'p psk_ops \<Rightarrow> u64 \<Rightarrow> p2p_frame \<Rightarrow> p2p_command \<Rightarrow> conn \<Rightarrow> 'p global_ctx \<Rightarrow>
   bytes option" where
  "witness_validate_handler ve psk nonce f cmd c g =
     (case dec (ve_request ve) (cmd_data cmd) of
        None \<Rightarrow> None
      | Some req \<Rightarrow>
          (case frame_send ve psk (ve_response ve) nonce g c
                  (Some \<lparr>wp_sender_id = fb_address (fr_body f), wp_nonce = wq_nonce req\<rparr>)
                  EWitness ValidateAck False of
             Inr sent \<Rightarrow> sent
           | Inl e \<Rightarrow> None))"

definition witness_validate_ack_handler ::
  "'z validate_env_scheme \<Rightarrow> bool \<Rightarrow> p2p_command \<Rightarrow> validation_event option" where
  "witness_validate_ack_handler ve has_sender cmd =
     (case dec (ve_response ve) (cmd_data cmd) of
        None \<Rightarrow> None
      | Some resp \<Rightarrow>
          if has_sender then Some \<lparr>ve_node_id = wp_sender_id resp, ve_success = True\<rparr> else None)"

definition send_validate_request ::
  "'z validate_env_scheme \<Rightarrow> 'p psk_ops \<Rightarrow> u64 \<Rightarrow> conn \<Rightarrow> string \<Rightarrow> bytes \<Rightarrow> 'p global_ctx \<Rightarrow>
   send_error + bytes option" where
  "send_validate_request ve psk frame_nonce c sender_id nonce g =
     frame_send ve psk (ve_request ve) frame_nonce g c
       (Some \<lparr>wq_sender_id = sender_id, wq_nonce = nonce\<rparr>) EWitness Validate False"

subsection \<open>Channels of the application\<close>

text \<open>
  The three static cells through which the application registers its channels. The two of the data
  exchange hold what was registered last; the cell of the validation events is written once.
\<close>

record ('q, 'r, 'v) app_channels =
  ac_request_sender :: "'q option"
  ac_response_sender :: "'r option"
  ac_validation_sender :: "'v option"

definition no_channels :: "('q, 'r, 'v) app_channels" where
  "no_channels = \<lparr>ac_request_sender = None, ac_response_sender = None, ac_validation_sender = None\<rparr>"

definition set_request_sender :: "'q \<Rightarrow> ('q, 'r, 'v) app_channels \<Rightarrow> ('q, 'r, 'v) app_channels" where
  "set_request_sender tx ch = ch\<lparr>ac_request_sender := Some tx\<rparr>"

definition set_response_sender :: "'r \<Rightarrow> ('q, 'r, 'v) app_channels \<Rightarrow> ('q, 'r, 'v) app_channels" where
  "set_response_sender tx ch = ch\<lparr>ac_response_sender := Some tx\<rparr>"

definition set_validation_event_sender :: "'v \<Rightarrow> ('q, 'r, 'v) app_channels \<Rightarrow> ('q, 'r, 'v) app_channels" where
  "set_validation_event_sender tx ch =
     (case ac_validation_sender ch of None \<Rightarrow> ch\<lparr>ac_validation_sender := Some tx\<rparr> | Some _ \<Rightarrow> ch)"

definition get_validation_event_sender :: "('q, 'r, 'v) app_channels \<Rightarrow> 'v option" where
  "get_validation_event_sender ch = ac_validation_sender ch"

text \<open>A second registration replaces the channel of the data exchange but not that of the events.\<close>

lemma last_request_sender:
  "ac_request_sender (fold set_request_sender txs no_channels) = (if txs = [] then None else Some (last txs))"
  by (induction txs rule: rev_induct) (simp_all add: no_channels_def set_request_sender_def)

lemma first_validation_sender:
  "get_validation_event_sender (fold set_validation_event_sender txs no_channels) = (if txs = [] then None else Some (hd txs))"
proof (induction txs rule: rev_induct)
  case (snoc tx txs)
  then show ?case
    by (cases txs) (simp_all add: set_validation_event_sender_def get_validation_event_sender_def no_channels_def)
qed (simp add: no_channels_def get_validation_event_sender_def)

subsection \<open>Properties\<close>

text \<open>
  A data request and its answer: the answering node reads the request from the frame,
  always answers, and what the requesting node passes on to its application is exactly the
  provider's answer when that reports success, and nothing when the provider failed, is
  absent or reports failure.
\<close>

theorem node_sync_exchange:
  assumes env: "frame_env_ok de" "codec_ok (de_request de)" "codec_ok (de_response de)"
    and a: "g_address ga = Some a" "keypair (fe_crypto de) a"
    and b: "g_address gb = Some b" "keypair (fe_crypto de) b"
    and request: "request_node_sync de psk uuid n1 ca node_id sync_type ga = Inr (Some bs1)"
      "verify_bytes de bs1 = Some f1" "command_from_data de (fr_body f1) = Some cmd1"
    and answer: "node_sync_handler de psk provider n2 cmd1 cb gb = Some bs2"
      "verify_bytes de bs2 = Some f2" "command_from_data de (fr_body f2) = Some cmd2"
  shows "node_sync_response_handler de True cmd2 =
    (case Option.bind provider (\<lambda>tx. tx uuid) of
       Some resp \<Rightarrow> if np_success resp then Some resp else None
     | None \<Rightarrow> None)"
proof -
  have rq: "dec (de_request de) (cmd_data cmd1) =
      Some \<lparr>nq_request_id = uuid, nq_node_id = node_id, nq_sync_type = sync_type\<rparr>"
    using frame_send_delivers' [OF env(1,2) a request(1) [unfolded request_node_sync_def] request(2,3)] by simp
  let ?ans = "node_sync_answer provider \<lparr>nq_request_id = uuid, nq_node_id = node_id, nq_sync_type = sync_type\<rparr>"
  have "frame_send de psk (de_response de) n2 gb cb (Some ?ans) ENode NodeSyncResponse False = Inr (Some bs2)"
    using answer(1) by (auto simp: node_sync_handler_def rq split: sum.splits)
  from frame_send_delivers' [OF env(1,3) b this answer(2,3)]
  have "dec (de_response de) (cmd_data cmd2) = Some ?ans" by simp
  then show ?thesis
    by (auto simp: node_sync_response_handler_def node_sync_answer_def failed_response_def split: option.split)
qed

text \<open>
  A validation answer names the wrong node: when A asks B to validate, the event that A's
  application receives carries A's own address and not the address of B, the node that
  answered.
\<close>

theorem validation_event_names_requester:
  assumes env: "frame_env_ok ve" "codec_ok (ve_request ve)" "codec_ok (ve_response ve)"
    and a: "g_address ga = Some a" "keypair (fe_crypto ve) a"
    and b: "g_address gb = Some b" "keypair (fe_crypto ve) b"
    and request: "send_validate_request ve psk n1 ca sender nonce ga = Inr (Some bs1)"
      "verify_bytes ve bs1 = Some f1" "command_from_data ve (fr_body f1) = Some cmd1"
    and answer: "witness_validate_handler ve psk n2 f1 cmd1 cb gb = Some bs2"
      "verify_bytes ve bs2 = Some f2" "command_from_data ve (fr_body f2) = Some cmd2"
  shows "witness_validate_ack_handler ve True cmd2 = Some \<lparr>ve_node_id = acc_string a, ve_success = True\<rparr> \<and>
    fb_address (fr_body f2) = acc_string b"
proof -
  have rq: "dec (ve_request ve) (cmd_data cmd1) = Some \<lparr>wq_sender_id = sender, wq_nonce = nonce\<rparr>"
    "fb_address (fr_body f1) = acc_string a"
    using frame_send_delivers' [OF env(1,2) a request(1) [unfolded send_validate_request_def] request(2,3)]
    by simp_all
  have "frame_send ve psk (ve_response ve) n2 gb cb
      (Some \<lparr>wp_sender_id = acc_string a, wp_nonce = nonce\<rparr>) EWitness ValidateAck False = Inr (Some bs2)"
    using answer(1) by (auto simp: witness_validate_handler_def rq split: sum.splits)
  from frame_send_delivers' [OF env(1,3) b this answer(2,3)] show ?thesis
    by (simp add: witness_validate_ack_handler_def)
qed

subsection \<open>Witnesses\<close>

definition demo_side :: "string \<Rightarrow> u8 \<Rightarrow> nat global_ctx" where
  "demo_side n d = demo_gctx\<lparr>g_address := Some \<lparr>acc_string = n, acc_private_key = [d], acc_public_key = [d]\<rparr>\<rparr>"

definition demo_xf :: "string \<Rightarrow> u8 \<Rightarrow> u8 \<Rightarrow> p2p_frame" where
  "demo_xf n d x = \<lparr>fr_body = frame_body_new 1 n [d] 5 1 [x], fr_signature = [d, x]\<rparr>"

definition demo_bodies :: "frame_body codec" where
  "demo_bodies = pair_codec [(fr_body (demo_xf ''A'' 1 1), [1]), (fr_body (demo_xf ''B'' 2 2), [2])]"

definition demo_cmd_codec :: "p2p_command \<Rightarrow> p2p_command \<Rightarrow> p2p_command codec" where
  "demo_cmd_codec rq rp = pair_codec [(rq, [1]), (rp, [2])]"

definition demo_frames :: "p2p_frame codec" where
  "demo_frames = pair_codec [(demo_xf ''A'' 1 1, [1]), (demo_xf ''B'' 2 2, [2])]"

definition demo_nq :: node_sync_request where
  "demo_nq = \<lparr>nq_request_id = ''r1'', nq_node_id = ''B'', nq_sync_type = ''full''\<rparr>"

definition demo_np :: node_sync_response where
  "demo_np = (failed_response ''r1'')\<lparr>np_success := True, np_meta_entries := [\<lparr>mt_key = ''k'', mt_value = ''v''\<rparr>]\<rparr>"

definition demo_de :: data_env where
  "demo_de =
     \<lparr>fe_body = demo_bodies,
      fe_cmd = demo_cmd_codec (p2p_command_new ENode NodeSyncRequest [8]) (p2p_command_new ENode NodeSyncResponse [9]),
      fe_frame = demo_frames, fe_msg = pair_codec [], fe_crypto = demo_crypto,
      de_request = pair_codec [(demo_nq, [8])], de_response = pair_codec [(demo_np, [9])]\<rparr>"

definition demo_ve :: validate_env where
  "demo_ve =
     \<lparr>fe_body = demo_bodies,
      fe_cmd = demo_cmd_codec (p2p_command_new EWitness Validate [8]) (p2p_command_new EWitness ValidateAck [9]),
      fe_frame = demo_frames, fe_msg = pair_codec [], fe_crypto = demo_crypto,
      ve_request = pair_codec [(\<lparr>wq_sender_id = ''A'', wq_nonce = [6]\<rparr>, [8])],
      ve_response = pair_codec [(\<lparr>wp_sender_id = ''A'', wp_nonce = [6]\<rparr>, [9])]\<rparr>"

lemmas demo_x_defs =
  demo_bodies_def demo_cmd_codec_def demo_frames_def pair_codec_def demo_xf_def frame_body_new_def
  demo_crypto_def p2p_command_new_def demo_conn_def

lemma demo_x_env_ok:
  "frame_env_ok demo_de" "codec_ok (de_request demo_de)" "codec_ok (de_response demo_de)"
  "frame_env_ok demo_ve" "codec_ok (ve_request demo_ve)" "codec_ok (ve_response demo_ve)"
  by (simp_all add: demo_de_def demo_ve_def frame_env_ok_def codec_ok_pairs demo_bodies_def
      demo_cmd_codec_def demo_frames_def)

lemma demo_side_ok:
  "g_address (demo_side n d) = Some \<lparr>acc_string = n, acc_private_key = [d], acc_public_key = [d]\<rparr>"
  "keypair (fe_crypto demo_de) \<lparr>acc_string = n, acc_private_key = [d], acc_public_key = [d]\<rparr>"
  "keypair (fe_crypto demo_ve) \<lparr>acc_string = n, acc_private_key = [d], acc_public_key = [d]\<rparr>"
  by (simp_all add: demo_side_def keypair_def demo_de_def demo_ve_def demo_crypto_def)

lemma demo_x_read:
  "verify_bytes demo_de [1] = Some (demo_xf ''A'' 1 1)" "verify_bytes demo_de [2] = Some (demo_xf ''B'' 2 2)"
  "verify_bytes demo_ve [1] = Some (demo_xf ''A'' 1 1)" "verify_bytes demo_ve [2] = Some (demo_xf ''B'' 2 2)"
  "command_from_data demo_de (fr_body (demo_xf ''A'' 1 1)) = Some (p2p_command_new ENode NodeSyncRequest [8])"
  "command_from_data demo_de (fr_body (demo_xf ''B'' 2 2)) = Some (p2p_command_new ENode NodeSyncResponse [9])"
  "command_from_data demo_ve (fr_body (demo_xf ''A'' 1 1)) = Some (p2p_command_new EWitness Validate [8])"
  "command_from_data demo_ve (fr_body (demo_xf ''B'' 2 2)) = Some (p2p_command_new EWitness ValidateAck [9])"
  by (simp_all add: verify_bytes_def frame_verify_def signature_valid_def command_from_data_def demo_de_def
      demo_ve_def demo_x_defs)

theorem node_sync_exchange_witness:
  "node_sync_response_handler demo_de True (p2p_command_new ENode NodeSyncResponse [9]) = Some demo_np"
proof -
  have rq: "request_node_sync demo_de demo_psk ''r1'' 5 demo_conn ''B'' ''full'' (demo_side ''A'' 1) = Inr (Some [1])"
    by (simp add: request_node_sync_def frame_send_def demo_side_ok demo_nq_def [symmetric] demo_de_def
        demo_x_defs frame_build_def frame_sign_def)
  have "node_sync_answer (Some (\<lambda>_. Some demo_np)) demo_nq = demo_np"
    by (simp add: node_sync_answer_def)
  then have rp: "node_sync_handler demo_de demo_psk (Some (\<lambda>_. Some demo_np)) 5
      (p2p_command_new ENode NodeSyncRequest [8]) demo_conn (demo_side ''B'' 2) = Some [2]"
    by (simp add: node_sync_handler_def frame_send_def demo_side_ok demo_de_def
        demo_x_defs frame_build_def frame_sign_def)
  have "np_success demo_np" by (simp add: demo_np_def)
  then show ?thesis
    using node_sync_exchange [OF demo_x_env_ok(1-3) demo_side_ok(1,2) demo_side_ok(1,2) rq demo_x_read(1,5) rp
        demo_x_read(2,6)]
    by simp
qed

theorem validation_event_names_requester_witness:
  "witness_validate_ack_handler demo_ve True (p2p_command_new EWitness ValidateAck [9]) =
     Some \<lparr>ve_node_id = ''A'', ve_success = True\<rparr>"
proof -
  have rq: "send_validate_request demo_ve demo_psk 5 demo_conn ''A'' [6] (demo_side ''A'' 1) = Inr (Some [1])"
    by (simp add: send_validate_request_def frame_send_def demo_side_ok demo_ve_def
        demo_x_defs frame_build_def frame_sign_def)
  have rp: "witness_validate_handler demo_ve demo_psk 5 (demo_xf ''A'' 1 1)
      (p2p_command_new EWitness Validate [8]) demo_conn (demo_side ''B'' 2) = Some [2]"
    by (simp add: witness_validate_handler_def frame_send_def demo_side_ok demo_ve_def
        demo_x_defs frame_build_def frame_sign_def)
  show ?thesis
    using validation_event_names_requester [OF demo_x_env_ok(4-6) demo_side_ok(1,3) demo_side_ok(1,3) rq
        demo_x_read(3,7) rp demo_x_read(4,8)]
    by simp
qed

end
