(* ===== verification/Store.thy ===== *)
theory Store
  imports Prelude
begin

text \<open>
  Database tables as the stores of \<^verbatim>\<open>src/db\<close> use them. The database behind
  \<^verbatim>\<open>sea_orm\<close> is a parameter, the record \<open>table_ops\<close>: what a query reads, which
  statements go through, what a write leaves behind. \<open>table_ok\<close> names what the stores
  rely on: an insertion adds one row under a fresh, larger id (an autoincrement key), an
  update replaces the row of its id, a deletion keeps the other rows, a transaction starts
  from and commits the rows it works on. Nothing is assumed on the order in which a query
  without an ordering returns its rows.

  Every store operation is a function from the state of the database to a result, which is an
  error or a value, and the new state; \<open>db_bind\<close> is the question mark operator.
  The locales \<open>kv_store\<close> (a value per key, overwritten) and \<open>chained_log\<close> (an
  append-only list whose entries name the hash of their predecessor) are the two contracts
  the stores provide.
\<close>

datatype store_error = DbErr | ParseErr | SerdeErr | IoErr | Rejected string

type_synonym ('t, 'a) db_op = "'t \<Rightarrow> (store_error + 'a) \<times> 't"

record ('t, 'r) table_ops =
  tb_up :: "'t \<Rightarrow> bool"
  tb_rows :: "'t \<Rightarrow> 'r list"
  tb_insert :: "'r \<Rightarrow> 't \<Rightarrow> ('r \<times> 't) option"
  tb_update :: "'r \<Rightarrow> 't \<Rightarrow> 't option"
  tb_delete :: "('r \<Rightarrow> bool) \<Rightarrow> 't \<Rightarrow> 't option"
  tb_begin :: "'t \<Rightarrow> 't option"
  tb_commit :: "'t \<Rightarrow> 't option"
  tb_rollback :: "'t \<Rightarrow> bool"

subsection \<open>Operations\<close>

definition db_bind :: "('t, 'a) db_op \<Rightarrow> ('a \<Rightarrow> ('t, 'b) db_op) \<Rightarrow> ('t, 'b) db_op" where
  "db_bind m f = (\<lambda>t. case m t of (Inl e, t') \<Rightarrow> (Inl e, t') | (Inr a, t') \<Rightarrow> f a t')"

definition db_ok :: "'a \<Rightarrow> ('t, 'a) db_op" where
  "db_ok a = (\<lambda>t. (Inr a, t))"

definition db_err :: "store_error \<Rightarrow> ('t, 'a) db_op" where
  "db_err e = (\<lambda>t. (Inl e, t))"

text \<open>\<^verbatim>\<open>find().filter(P).all()\<close>, \<^verbatim>\<open>find().filter(P).one()\<close> and a query with an ordering.\<close>

definition db_all :: "('t, 'r) table_ops \<Rightarrow> ('r \<Rightarrow> bool) \<Rightarrow> ('t, 'r list) db_op" where
  "db_all tb P = (\<lambda>t. (if tb_up tb t then Inr (filter P (tb_rows tb t)) else Inl DbErr, t))"

definition db_one :: "('t, 'r) table_ops \<Rightarrow> ('r \<Rightarrow> bool) \<Rightarrow> ('t, 'r option) db_op" where
  "db_one tb P = (\<lambda>t. (if tb_up tb t then Inr (find P (tb_rows tb t)) else Inl DbErr, t))"

definition db_sorted ::
  "('t, 'r) table_ops \<Rightarrow> ('r \<Rightarrow> bool) \<Rightarrow> ('r \<Rightarrow> 'k::linorder) \<Rightarrow> ('t, 'r list) db_op" where
  "db_sorted tb P k = (\<lambda>t. (if tb_up tb t then Inr (sort_key k (filter P (tb_rows tb t))) else Inl DbErr, t))"

definition db_insert :: "('t, 'r) table_ops \<Rightarrow> 'r \<Rightarrow> ('t, 'r) db_op" where
  "db_insert tb r = (\<lambda>t. case tb_insert tb r t of Some (r', t') \<Rightarrow> (Inr r', t') | None \<Rightarrow> (Inl DbErr, t))"

definition db_update :: "('t, 'r) table_ops \<Rightarrow> 'r \<Rightarrow> ('t, 'r) db_op" where
  "db_update tb r = (\<lambda>t. case tb_update tb r t of Some t' \<Rightarrow> (Inr r, t') | None \<Rightarrow> (Inl DbErr, t))"

definition db_delete :: "('t, 'r) table_ops \<Rightarrow> ('r \<Rightarrow> bool) \<Rightarrow> ('t, unit) db_op" where
  "db_delete tb P = (\<lambda>t. case tb_delete tb P t of Some t' \<Rightarrow> (Inr (), t') | None \<Rightarrow> (Inl DbErr, t))"

text \<open>A loop of operations that stops at the first error and keeps what was done before.\<close>

fun db_each :: "('a \<Rightarrow> ('t, unit) db_op) \<Rightarrow> 'a list \<Rightarrow> ('t, unit) db_op" where
  "db_each f [] = db_ok ()"
| "db_each f (x # xs) = db_bind (f x) (\<lambda>_. db_each f xs)"

text \<open>
  A transaction works on its own state; only a commit that goes through replaces the state
  of the connection, and a transaction value that is dropped rolls back.
\<close>

definition db_transaction :: "('t, 'r) table_ops \<Rightarrow> ('t, 'a) db_op \<Rightarrow> ('t, 'a) db_op" where
  "db_transaction tb m = (\<lambda>t.
     case tb_begin tb t of
       None \<Rightarrow> (Inl DbErr, t)
     | Some x \<Rightarrow>
         (case m x of
            (Inl e, _) \<Rightarrow> (Inl e, t)
          | (Inr a, x') \<Rightarrow>
              (case tb_commit tb x' of None \<Rightarrow> (Inl DbErr, t) | Some t' \<Rightarrow> (Inr a, t'))))"

definition with_transaction :: "('t, 'r) table_ops \<Rightarrow> ('t, 'a) db_op \<Rightarrow> ('t, unit) db_op" where
  "with_transaction tb m = (\<lambda>t.
     case tb_begin tb t of
       None \<Rightarrow> (Inl DbErr, t)
     | Some x \<Rightarrow>
         (case m x of
            (Inl e, x') \<Rightarrow> (Inl (if tb_rollback tb x' then e else DbErr), t)
          | (Inr a, x') \<Rightarrow>
              (case tb_commit tb x' of None \<Rightarrow> (Inl DbErr, t) | Some t' \<Rightarrow> (Inr (), t'))))"

subsection \<open>What the stores rely on\<close>

definition insert_law :: "('t, 'r) table_ops \<Rightarrow> ('r \<Rightarrow> int) \<Rightarrow> (int \<Rightarrow> 'r \<Rightarrow> 'r) \<Rightarrow> bool" where
  "insert_law tb rid with_id \<longleftrightarrow>
     (\<forall>r t r' t'. tb_insert tb r t = Some (r', t') \<longrightarrow>
        (\<exists>i. r' = with_id i r \<and> (\<forall>x \<in> set (tb_rows tb t). rid x < i)) \<and>
        mset (tb_rows tb t') = add_mset r' (mset (tb_rows tb t)))"

definition update_law :: "('t, 'r) table_ops \<Rightarrow> ('r \<Rightarrow> int) \<Rightarrow> bool" where
  "update_law tb rid \<longleftrightarrow>
     (\<forall>r t t'. tb_update tb r t = Some t' \<longrightarrow>
        mset (tb_rows tb t') = mset (map (\<lambda>x. if rid x = rid r then r else x) (tb_rows tb t)))"

definition delete_law :: "('t, 'r) table_ops \<Rightarrow> bool" where
  "delete_law tb \<longleftrightarrow>
     (\<forall>P t t'. tb_delete tb P t = Some t' \<longrightarrow>
        mset (tb_rows tb t') = mset (filter (\<lambda>x. \<not> P x) (tb_rows tb t)))"

definition transaction_law :: "('t, 'r) table_ops \<Rightarrow> bool" where
  "transaction_law tb \<longleftrightarrow>
     (\<forall>t t'. tb_begin tb t = Some t' \<or> tb_commit tb t = Some t' \<longrightarrow>
        mset (tb_rows tb t') = mset (tb_rows tb t))"

definition table_ok :: "('t, 'r) table_ops \<Rightarrow> ('r \<Rightarrow> int) \<Rightarrow> (int \<Rightarrow> 'r \<Rightarrow> 'r) \<Rightarrow> bool" where
  "table_ok tb rid with_id \<longleftrightarrow>
     insert_law tb rid with_id \<and> update_law tb rid \<and> delete_law tb \<and> transaction_law tb"

text \<open>A column declared unique refuses a second row with the same value.\<close>

definition unique_column :: "('t, 'r) table_ops \<Rightarrow> ('r \<Rightarrow> 'k) \<Rightarrow> bool" where
  "unique_column tb key \<longleftrightarrow>
     (\<forall>r t r' t'. tb_insert tb r t = Some (r', t') \<longrightarrow> key r \<notin> key ` set (tb_rows tb t))"

text \<open>A database on which every statement goes through, the ones a unique column forbids apart.\<close>

definition table_works :: "('t, 'r) table_ops \<Rightarrow> ('r \<Rightarrow> 'k) \<Rightarrow> bool" where
  "table_works tb key \<longleftrightarrow>
     (\<forall>t. tb_up tb t \<and> tb_begin tb t \<noteq> None \<and> tb_commit tb t \<noteq> None) \<and>
     (\<forall>r t. tb_update tb r t \<noteq> None) \<and>
     (\<forall>r t. key r \<notin> key ` set (tb_rows tb t) \<longrightarrow> tb_insert tb r t \<noteq> None)"

text \<open>
  A table held in memory, on which witnesses evaluate the stores: a list of rows in the order
  of their ids, every statement goes through.
\<close>

definition list_table ::
  "('r \<Rightarrow> int) \<Rightarrow> (int \<Rightarrow> 'r \<Rightarrow> 'r) \<Rightarrow> ('r \<Rightarrow> 'r list \<Rightarrow> bool) \<Rightarrow> ('r list, 'r) table_ops" where
  "list_table rid with_id clash =
     \<lparr>tb_up = (\<lambda>_. True), tb_rows = (\<lambda>t. t),
      tb_insert = (\<lambda>r t. if clash r t then None
                          else (let r' = with_id (fold max (map rid t) 0 + 1) r in Some (r', t @ [r']))),
      tb_update = (\<lambda>r t. Some (map (\<lambda>x. if rid x = rid r then r else x) t)),
      tb_delete = (\<lambda>P t. Some (filter (\<lambda>x. \<not> P x) t)),
      tb_begin = Some, tb_commit = Some, tb_rollback = (\<lambda>_. True)\<rparr>"

subsection \<open>Reasoning about operations\<close>

named_theorems db_simps "reading and returning"
named_theorems db_results "what a composed operation returned"

lemma db_bind_apply:
  "db_bind m f t = (case m t of (Inl e, t') \<Rightarrow> (Inl e, t') | (Inr a, t') \<Rightarrow> f a t')"
  by (simp add: db_bind_def)

lemma db_ok_apply [db_simps]: "db_ok a t = (Inr a, t)"
  by (simp add: db_ok_def)

lemma db_err_apply [db_simps]: "db_err e t = (Inl e, t)"
  by (simp add: db_err_def)

lemma db_bind_Inr [db_results]:
  "db_bind m f t = (Inr b, t') \<longleftrightarrow> (\<exists>a t1. m t = (Inr a, t1) \<and> f a t1 = (Inr b, t'))"
  by (auto simp: db_bind_def split: prod.split sum.split)

lemma db_bind_Inl [db_results]:
  "db_bind m f t = (Inl e, t') \<longleftrightarrow>
     m t = (Inl e, t') \<or> (\<exists>a t1. m t = (Inr a, t1) \<and> f a t1 = (Inl e, t'))"
  by (auto simp: db_bind_def split: prod.split sum.split)

lemma db_reads [db_simps]:
  "db_all tb P t = (if tb_up tb t then Inr (filter P (tb_rows tb t)) else Inl DbErr, t)"
  "db_one tb P t = (if tb_up tb t then Inr (find P (tb_rows tb t)) else Inl DbErr, t)"
  "db_sorted tb P k t = (if tb_up tb t then Inr (sort_key k (filter P (tb_rows tb t))) else Inl DbErr, t)"
  by (simp_all add: db_all_def db_one_def db_sorted_def)

lemma db_writes_Inr [db_results]:
  "db_insert tb r t = (Inr r', t') \<longleftrightarrow> tb_insert tb r t = Some (r', t')"
  "db_update tb r t = (Inr r', t') \<longleftrightarrow> r' = r \<and> tb_update tb r t = Some t'"
  "db_delete tb P t = (Inr u, t') \<longleftrightarrow> tb_delete tb P t = Some t'"
  by (auto simp: db_insert_def db_update_def db_delete_def split: option.split)

lemma db_writes_Inl [db_results]:
  "db_insert tb r t = (Inl e, t') \<longleftrightarrow> tb_insert tb r t = None \<and> e = DbErr \<and> t' = t"
  "db_update tb r t = (Inl e, t') \<longleftrightarrow> tb_update tb r t = None \<and> e = DbErr \<and> t' = t"
  "db_delete tb P t = (Inl e, t') \<longleftrightarrow> tb_delete tb P t = None \<and> e = DbErr \<and> t' = t"
  by (auto simp: db_insert_def db_update_def db_delete_def split: option.split)

lemma db_transaction_Inr:
  "db_transaction tb m t = (Inr a, t') \<longleftrightarrow>
     (\<exists>x x'. tb_begin tb t = Some x \<and> m x = (Inr a, x') \<and> tb_commit tb x' = Some t')"
  by (auto simp: db_transaction_def split: option.splits prod.splits sum.splits)

lemma db_transaction_Inl:
  "db_transaction tb m t = (Inl e, t') \<Longrightarrow>
     t' = t \<and> (e = DbErr \<or> (\<exists>x x'. tb_begin tb t = Some x \<and> m x = (Inl e, x')))"
  by (auto simp: db_transaction_def split: option.splits prod.splits sum.splits)

subsection \<open>Rows by key\<close>

text \<open>
  With a key that no two rows share, the first row a query returns is the row of that key,
  whatever the order of the rows.
\<close>

lemma find_unique:
  assumes "distinct (map key rows)"
  shows "find (\<lambda>r. key r = k) rows = Some r \<longleftrightarrow> r \<in> set rows \<and> key r = k"
  using assms by (induction rows) (auto simp: image_iff)

lemma find_key_None: "find (\<lambda>r. key r = k) rows = None \<longleftrightarrow> k \<notin> key ` set rows"
  by (auto simp: find_None_iff)

lemma mset_distinct_map: "mset rows' = mset rows \<Longrightarrow> distinct (map f rows') = distinct (map f rows)"
  by (metis mset_eq_imp_distinct_iff mset_map)

lemma find_unique_cong:
  assumes "distinct (map key xs)" "distinct (map key ys)"
    and "\<And>r. key r = k \<Longrightarrow> r \<in> set xs \<longleftrightarrow> r \<in> set ys"
  shows "find (\<lambda>r. key r = k) xs = find (\<lambda>r. key r = k) ys"
proof -
  have "find (\<lambda>r. key r = k) xs = Some r \<longleftrightarrow> find (\<lambda>r. key r = k) ys = Some r" for r
    using assms find_unique by metis
  then show ?thesis by (metis not_Some_eq)
qed

lemma find_same_rows:
  assumes "distinct (map key rows)" "mset rows' = mset rows"
  shows "find (\<lambda>r. key r = k) rows' = find (\<lambda>r. key r = k) rows"
  using assms mset_distinct_map [OF assms(2)] mset_eq_setD [OF assms(2)]
  by (intro find_unique_cong) auto

lemma insert_rows:
  assumes "table_ok tb rid with_id" "tb_insert tb r t = Some (r', t')"
  obtains i where "r' = with_id i r" "\<forall>x \<in> set (tb_rows tb t). rid x < i"
    "mset (tb_rows tb t') = mset (r' # tb_rows tb t)"
proof -
  have "(\<exists>i. r' = with_id i r \<and> (\<forall>x \<in> set (tb_rows tb t). rid x < i)) \<and>
      mset (tb_rows tb t') = add_mset r' (mset (tb_rows tb t))"
    using assms unfolding table_ok_def insert_law_def by blast
  then show thesis using that by auto
qed

lemma insert_find:
  assumes tb: "table_ok tb rid with_id" and ins: "tb_insert tb r t = Some (r', t')"
    and ids: "\<And>i. rid (with_id i r) = i" and keys: "\<And>i. key (with_id i r) = key r"
    and d: "distinct (map rid (tb_rows tb t))" "distinct (map key (tb_rows tb t))"
    and new: "key r \<notin> key ` set (tb_rows tb t)"
  shows "distinct (map rid (tb_rows tb t'))" "distinct (map key (tb_rows tb t'))"
    "find (\<lambda>x. key x = k) (tb_rows tb t') =
       (if k = key r then Some r' else find (\<lambda>x. key x = k) (tb_rows tb t))"
proof -
  obtain i where i: "r' = with_id i r" "\<forall>x \<in> set (tb_rows tb t). rid x < i"
    "mset (tb_rows tb t') = mset (r' # tb_rows tb t)"
    by (rule insert_rows [OF tb ins])
  show "distinct (map rid (tb_rows tb t'))"
    using i d(1) ids by (subst mset_distinct_map [OF i(3)]) auto
  have dk: "distinct (map key (r' # tb_rows tb t))"
    using i d(2) keys new by auto
  then show "distinct (map key (tb_rows tb t'))"
    using mset_distinct_map [OF i(3)] by blast
  show "find (\<lambda>x. key x = k) (tb_rows tb t') =
       (if k = key r then Some r' else find (\<lambda>x. key x = k) (tb_rows tb t))"
    using find_same_rows [OF dk i(3), of k] i(1) keys by auto
qed

lemma update_find:
  assumes tb: "table_ok tb rid with_id" and upd: "tb_update tb r t = Some t'"
    and old: "x \<in> set (tb_rows tb t)" "rid r = rid x" "key r = key x"
    and d: "distinct (map rid (tb_rows tb t))" "distinct (map key (tb_rows tb t))"
  shows "distinct (map rid (tb_rows tb t'))" "distinct (map key (tb_rows tb t'))"
    "find (\<lambda>y. key y = k) (tb_rows tb t') =
       (if k = key r then Some r else find (\<lambda>y. key y = k) (tb_rows tb t))"
proof -
  let ?new = "map (\<lambda>y. if rid y = rid r then r else y) (tb_rows tb t)"
  have m: "mset (tb_rows tb t') = mset ?new"
    using tb upd by (auto simp: table_ok_def update_law_def)
  have same: "y = x" if "y \<in> set (tb_rows tb t)" "rid y = rid r" for y
    using that old d(1) by (auto simp: distinct_map dest: inj_onD)
  have "map rid ?new = map rid (tb_rows tb t)" by auto
  then show "distinct (map rid (tb_rows tb t'))"
    using d(1) mset_distinct_map [OF m] by metis
  have "map key ?new = map key (tb_rows tb t)" using same old(3) by auto
  then have dk: "distinct (map key ?new)" using d(2) by metis
  then show "distinct (map key (tb_rows tb t'))"
    using mset_distinct_map [OF m] by blast
  have r: "r \<in> set ?new" using old by force
  show "find (\<lambda>y. key y = k) (tb_rows tb t') =
       (if k = key r then Some r else find (\<lambda>y. key y = k) (tb_rows tb t))"
  proof (cases "k = key r")
    case True
    then show ?thesis using find_same_rows [OF dk m] find_unique [OF dk] r by auto
  next
    case False
    then have "find (\<lambda>y. key y = k) ?new = find (\<lambda>y. key y = k) (tb_rows tb t)"
      using same old(3) by (intro find_unique_cong [OF dk d(2)]) auto
    then show ?thesis using False find_same_rows [OF dk m, of k] by simp
  qed
qed

subsection \<open>Updating several rows\<close>

lemma update_each:
  assumes tb: "table_ok tb rid with_id" and f: "\<And>r. rid (f r) = rid r"
    and d: "distinct (map rid (tb_rows tb t))" and xs: "set xs \<subseteq> set (tb_rows tb t)" "distinct (map rid xs)"
    and run: "db_each (\<lambda>r. db_bind (db_update tb (f r)) (\<lambda>_. db_ok ())) xs t = (Inr u, t')"
  shows "mset (tb_rows tb t') = mset (map (\<lambda>r. if r \<in> set xs then f r else r) (tb_rows tb t))"
  using d xs run
proof (induction xs arbitrary: t)
  case Nil
  then show ?case by (simp add: db_simps)
next
  case (Cons x xs)
  obtain t1 where upd: "tb_update tb (f x) t = Some t1"
    and rest: "db_each (\<lambda>r. db_bind (db_update tb (f r)) (\<lambda>_. db_ok ())) xs t1 = (Inr u, t')"
    using Cons.prems(4) unfolding db_each.simps db_bind_Inr db_writes_Inr db_ok_apply by blast
  let ?u = "\<lambda>r. if rid r = rid (f x) then f x else r"
  have m: "mset (tb_rows tb t1) = mset (map ?u (tb_rows tb t))"
    using tb upd by (auto simp: table_ok_def update_law_def)
  have only: "r = x" if "r \<in> set (tb_rows tb t)" "rid r = rid x" for r
    using that Cons.prems(1,2) by (metis distinct_map inj_onD list.set_intros(1) subset_iff)
  have u: "map ?u (tb_rows tb t) = map (\<lambda>r. if r = x then f x else r) (tb_rows tb t)"
    using only f by auto
  have ids: "map rid (map ?u (tb_rows tb t)) = map rid (tb_rows tb t)" using f by auto
  then have d1: "distinct (map rid (tb_rows tb t1))"
    using mset_distinct_map [OF m, of rid] Cons.prems(1) by metis
  have "y \<in> set (tb_rows tb t1)" if "y \<in> set xs" for y
  proof -
    have "y \<in> set (tb_rows tb t)" "y \<noteq> x" using that Cons.prems(2,3) by auto
    then show ?thesis unfolding mset_eq_setD [OF m] u by force
  qed
  then have "set xs \<subseteq> set (tb_rows tb t1)" by blast
  moreover have "distinct (map rid xs)" using Cons.prems(3) by simp
  ultimately have "mset (tb_rows tb t') = mset (map (\<lambda>r. if r \<in> set xs then f r else r) (tb_rows tb t1))"
    by (rule Cons.IH [OF d1 _ _ rest])
  also have "\<dots> = mset (map (\<lambda>r. if r \<in> set xs then f r else r) (map ?u (tb_rows tb t)))"
    using arg_cong [OF m, of "image_mset (\<lambda>r. if r \<in> set xs then f r else r)"] by (simp only: mset_map)
  also have "\<dots> = mset (map (\<lambda>r. if r \<in> set (x # xs) then f r else r) (tb_rows tb t))"
  proof -
    have "f x \<notin> set xs" "x \<notin> set xs"
      using Cons.prems(3) f [of x] by (auto, metis image_eqI)
    then show ?thesis unfolding u map_map by (intro arg_cong [where f = mset] map_cong) auto
  qed
  finally show ?case .
qed

subsection \<open>Insert or update\<close>

text \<open>Look a row up, change it when it is there, insert a new one otherwise.\<close>

definition upsert_row ::
  "('t, 'r) table_ops \<Rightarrow> ('r \<Rightarrow> bool) \<Rightarrow> ('r \<Rightarrow> 'r) \<Rightarrow> 'r \<Rightarrow> ('t, 'r) db_op" where
  "upsert_row tb P f new =
     db_bind (db_one tb P) (\<lambda>found.
       case found of Some r \<Rightarrow> db_update tb (f r) | None \<Rightarrow> db_insert tb new)"

definition keyed_ok ::
  "('t, 'r) table_ops \<Rightarrow> ('r \<Rightarrow> int) \<Rightarrow> (int \<Rightarrow> 'r \<Rightarrow> 'r) \<Rightarrow> ('r \<Rightarrow> 'k) \<Rightarrow> 't \<Rightarrow> bool" where
  "keyed_ok tb rid with_id key t \<longleftrightarrow>
     table_ok tb rid with_id \<and> distinct (map rid (tb_rows tb t)) \<and> distinct (map key (tb_rows tb t))"

lemma upsert_row_err: "upsert_row tb P f new t = (Inl e, t') \<Longrightarrow> e = DbErr \<and> t' = t"
  by (auto simp: upsert_row_def db_results db_simps split: if_splits option.splits)

lemma upsert_row_ok:
  assumes ok: "keyed_ok tb rid with_id key t"
    and P: "\<And>r. P r \<longleftrightarrow> key r = k"
    and f: "\<And>r. rid (f r) = rid r \<and> key (f r) = key r"
    and new: "\<And>i. rid (with_id i new) = i \<and> key (with_id i new) = k" "key new = k"
    and res: "upsert_row tb P f new t = (Inr r', t')"
  shows "keyed_ok tb rid with_id key t'" "r' \<in> set (tb_rows tb t')" "key r' = k"
    "find (\<lambda>r. key r = k') (tb_rows tb t') =
       (if k' = k then Some r' else find (\<lambda>r. key r = k') (tb_rows tb t))"
    "case find (\<lambda>r. key r = k) (tb_rows tb t) of Some r \<Rightarrow> r' = f r | None \<Rightarrow> \<exists>i. r' = with_id i new"
proof -
  have tb: "table_ok tb rid with_id"
    and d: "distinct (map rid (tb_rows tb t))" "distinct (map key (tb_rows tb t))"
    using ok by (auto simp: keyed_ok_def)
  have P': "P = (\<lambda>r. key r = k)" using P by auto
  have main: "keyed_ok tb rid with_id key t' \<and> key r' = k \<and>
      (\<forall>k'. find (\<lambda>r. key r = k') (tb_rows tb t') =
        (if k' = k then Some r' else find (\<lambda>r. key r = k') (tb_rows tb t))) \<and>
      (case find (\<lambda>r. key r = k) (tb_rows tb t) of Some r \<Rightarrow> r' = f r | None \<Rightarrow> \<exists>i. r' = with_id i new)"
  proof (cases "find (\<lambda>r. key r = k) (tb_rows tb t)")
    case None
    have ins: "tb_insert tb new t = Some (r', t')"
      using res None by (auto simp: upsert_row_def P' db_results db_simps split: if_splits)
    obtain i where i: "r' = with_id i new" by (rule insert_rows [OF tb ins])
    have fresh: "key new \<notin> key ` set (tb_rows tb t)" using None new(2) by (simp add: find_key_None)
    have ids: "rid (with_id i new) = i" "key (with_id i new) = key new" for i using new by auto
    show ?thesis
      using insert_find [where key = key, OF tb ins ids d fresh] tb new i None by (auto simp: keyed_ok_def)
  next
    case (Some r)
    have upd: "tb_update tb (f r) t = Some t'" and r': "r' = f r"
      using res Some by (auto simp: upsert_row_def P' db_results db_simps split: if_splits)
    have r: "r \<in> set (tb_rows tb t)" "key r = k" using Some find_unique [OF d(2)] by auto
    have "rid (f r) = rid r" "key (f r) = key r" using f by auto
    from update_find [where key = key, OF tb upd r(1) this d] show ?thesis
      using tb f r r' Some by (auto simp: keyed_ok_def)
  qed
  then show "keyed_ok tb rid with_id key t'" "key r' = k"
    "find (\<lambda>r. key r = k') (tb_rows tb t') =
       (if k' = k then Some r' else find (\<lambda>r. key r = k') (tb_rows tb t))"
    "case find (\<lambda>r. key r = k) (tb_rows tb t) of Some r \<Rightarrow> r' = f r | None \<Rightarrow> \<exists>i. r' = with_id i new"
    by blast+
  have "distinct (map key (tb_rows tb t'))" using main by (auto simp: keyed_ok_def)
  then show "r' \<in> set (tb_rows tb t')" using main find_unique by metis
qed

lemma upsert_row_works:
  assumes "table_works tb key" "\<And>r. P r \<longleftrightarrow> key r = k" "key new = k"
  shows "\<exists>r' t'. upsert_row tb P f new t = (Inr r', t')"
proof -
  have P: "P = (\<lambda>r. key r = k)" using assms(2) by auto
  have up: "tb_up tb t" "\<And>r. tb_update tb r t \<noteq> None"
    "\<And>r. key r \<notin> key ` set (tb_rows tb t) \<Longrightarrow> tb_insert tb r t \<noteq> None"
    using assms(1) unfolding table_works_def by blast+
  show ?thesis
  proof (cases "find (\<lambda>r. key r = k) (tb_rows tb t)")
    case None
    then have "tb_insert tb new t \<noteq> None" using up(3) [of new] assms(3) by (simp add: find_key_None)
    then show ?thesis using None up(1) by (auto simp: upsert_row_def P db_results db_simps)
  next
    case (Some r)
    then show ?thesis using up(1) up(2) [of "f r"] by (auto simp: upsert_row_def P db_results db_simps)
  qed
qed

text \<open>The rows of a table as a map from keys to what a view shows of the row.\<close>

definition row_view :: "('t, 'r) table_ops \<Rightarrow> ('r \<Rightarrow> 'k) \<Rightarrow> ('r \<Rightarrow> 'v) \<Rightarrow> 't \<Rightarrow> 'k \<Rightarrow> 'v option" where
  "row_view tb key view t k = map_option view (find (\<lambda>r. key r = k) (tb_rows tb t))"

lemma upsert_view:
  assumes ok: "keyed_ok tb rid with_id key t"
    and P: "\<And>r. P r \<longleftrightarrow> key r = k"
    and f: "\<And>r. rid (f r) = rid r \<and> key (f r) = key r \<and> view (f r) = touch (view r)"
    and new: "\<And>i. rid (with_id i new) = i \<and> key (with_id i new) = k \<and> view (with_id i new) = fresh" "key new = k"
    and res: "upsert_row tb P f new t = (Inr r', t')"
  shows "keyed_ok tb rid with_id key t' \<and>
    row_view tb key view t' = (row_view tb key view t)
      (k := Some (case row_view tb key view t k of None \<Rightarrow> fresh | Some v \<Rightarrow> touch v))"
proof -
  have f': "\<And>r. rid (f r) = rid r \<and> key (f r) = key r"
    and new': "\<And>i. rid (with_id i new) = i \<and> key (with_id i new) = k" using f new by auto
  note u = upsert_row_ok [OF ok P f' new' new(2) res]
  have "view r' = (case row_view tb key view t k of None \<Rightarrow> fresh | Some v \<Rightarrow> touch v)"
    using u(5) f new(1) by (auto simp: row_view_def split: option.splits)
  then have "row_view tb key view t' k' = ((row_view tb key view t)
      (k := Some (case row_view tb key view t k of None \<Rightarrow> fresh | Some v \<Rightarrow> touch v))) k'" for k'
    using u(4) [of k'] by (simp add: row_view_def)
  then show ?thesis using u(1) by auto
qed

subsection \<open>Rows in the order of their ids\<close>

lemma insert_sorted_last:
  assumes tb: "table_ok tb rid with_id" and ins: "tb_insert tb r t = Some (r', t')"
    and ids: "\<And>i. rid (with_id i r) = i" and d: "distinct (map rid (tb_rows tb t))"
  shows "distinct (map rid (tb_rows tb t'))"
    "sort_key rid (filter P (tb_rows tb t')) =
       sort_key rid (filter P (tb_rows tb t)) @ (if P r' then [r'] else [])"
proof -
  obtain i where i: "r' = with_id i r" "\<forall>x \<in> set (tb_rows tb t). rid x < i"
    "mset (tb_rows tb t') = mset (r' # tb_rows tb t)"
    by (rule insert_rows [OF tb ins])
  have d': "distinct (map rid (r' # tb_rows tb t))" using i d ids by auto
  then show dt: "distinct (map rid (tb_rows tb t'))" using mset_distinct_map [OF i(3)] by blast
  have "mset (filter P (tb_rows tb t')) = filter_mset P (mset (r' # tb_rows tb t))"
    using i(3) by (metis mset_filter)
  then have m: "mset (filter P (tb_rows tb t')) =
      mset (sort_key rid (filter P (tb_rows tb t)) @ (if P r' then [r'] else []))"
    by simp
  have "inj_on rid (set (filter P (tb_rows tb t')))"
    using dt by (auto simp: distinct_map intro: inj_on_subset)
  moreover have "sorted (map rid (sort_key rid (filter P (tb_rows tb t)) @ (if P r' then [r'] else [])))"
    using i ids by (auto simp: sorted_append intro: less_imp_le)
  ultimately show "sort_key rid (filter P (tb_rows tb t')) =
       sort_key rid (filter P (tb_rows tb t)) @ (if P r' then [r'] else [])"
    using m by (intro sort_key_inj_key_eq)
qed

lemma sort_key_desc:
  assumes "distinct (map rid xs)"
  shows "sort_key (\<lambda>r. - rid r :: int) xs = rev (sort_key rid xs)"
proof (rule sort_key_inj_key_eq)
  show "inj_on (\<lambda>r. - rid r) (set xs)" using assms by (auto simp: distinct_map inj_on_def)
  have "sorted_wrt (\<lambda>x y. - rid x \<le> - rid y) (rev (sort_key rid xs))"
    using sorted_sort_key [of rid xs] by (simp add: sorted_wrt_rev sorted_map)
  then show "sorted (map (\<lambda>r. - rid r) (rev (sort_key rid xs)))" by (simp add: sorted_map)
qed simp

text \<open>The first row of a query in descending id order is the last one in ascending order.\<close>

lemma newest_tip:
  assumes "distinct (map rid xs)"
  shows "(case sort_key (\<lambda>r. - rid r :: int) xs of [] \<Rightarrow> g | r # _ \<Rightarrow> hsh r) =
    (if sort_key rid xs = [] then g else hsh (last (sort_key rid xs)))"
  unfolding sort_key_desc [OF assms]
  by (cases "sort_key rid xs" rule: rev_cases) auto

subsection \<open>The table held in memory\<close>

lemma fold_max_ge: "x \<in> set xs \<Longrightarrow> x \<le> fold max xs (a :: int)" and fold_max_start: "a \<le> fold max xs a"
proof -
  show start: "a \<le> fold max xs a" for a
  proof (induction xs arbitrary: a)
    case (Cons y ys)
    show ?case using Cons.IH [of "max y a"] by simp
  qed simp
  show "x \<in> set xs \<Longrightarrow> x \<le> fold max xs a"
  proof (induction xs arbitrary: a)
    case (Cons y ys)
    have "max y a \<le> fold max ys (max y a)" for a
      by (induction ys arbitrary: y a) (auto intro: order_trans)
    then show ?case using Cons by (auto intro: order_trans)
  qed simp
qed

lemma list_table_ok: "table_ok (list_table rid with_id clash) rid with_id"
proof -
  have "rid x < fold max (map rid t) 0 + 1" if "x \<in> set t" for x t
    using fold_max_ge [of "rid x" "map rid t" 0] that by auto
  then show ?thesis
    by (auto simp: table_ok_def insert_law_def update_law_def delete_law_def transaction_law_def
        list_table_def Let_def split: if_splits)
qed

subsection \<open>Records by key\<close>

text \<open>
  The contract of a store that inserts or updates: a call that goes through gives its key
  the fresh value or the touched old one and changes no other key, a failing call changes
  nothing. The value of a key is then determined by the calls made for it.
\<close>

locale upsert_store =
  fixes inv :: "'s \<Rightarrow> bool"
    and val :: "'s \<Rightarrow> 'k \<Rightarrow> 'v option"
    and keyof :: "'x \<Rightarrow> 'k"
    and fresh :: "'x \<Rightarrow> 'v"
    and touch :: "'x \<Rightarrow> 'v \<Rightarrow> 'v"
    and call :: "'x \<Rightarrow> 's \<Rightarrow> (store_error + 'b) \<times> 's"
  assumes call_ok: "inv s \<Longrightarrow> call x s = (Inr b, s') \<Longrightarrow> inv s' \<and>
      val s' = (val s)(keyof x := Some (case val s (keyof x) of None \<Rightarrow> fresh x | Some v \<Rightarrow> touch x v))"
    and call_err: "call x s = (Inl e, s') \<Longrightarrow> s' = s"
begin

lemma calls_history:
  assumes "inv s"
  shows "\<exists>ys. subseq ys xs \<and> inv (fold (\<lambda>x s. snd (call x s)) xs s) \<and>
    (\<forall>k. val (fold (\<lambda>x s. snd (call x s)) xs s) k =
      fold (\<lambda>x v. Some (case v of None \<Rightarrow> fresh x | Some w \<Rightarrow> touch x w)) (filter (\<lambda>x. keyof x = k) ys) (val s k))"
  using assms
proof (induction xs arbitrary: s)
  case (Cons x xs)
  obtain res s' where c: "call x s = (res, s')" by (cases "call x s")
  show ?case
  proof (cases res)
    case (Inl e)
    then have "s' = s" using c call_err by blast
    then obtain ys where "subseq ys xs" "inv (fold (\<lambda>x s. snd (call x s)) xs s')"
      "\<forall>k. val (fold (\<lambda>x s. snd (call x s)) xs s') k =
        fold (\<lambda>x v. Some (case v of None \<Rightarrow> fresh x | Some w \<Rightarrow> touch x w)) (filter (\<lambda>x. keyof x = k) ys) (val s k)"
      using Cons by blast
    then show ?thesis using c by (intro exI [of _ ys]) auto
  next
    case (Inr b)
    have s': "inv s'" "val s' = (val s)(keyof x := Some (case val s (keyof x) of None \<Rightarrow> fresh x | Some v \<Rightarrow> touch x v))"
      using call_ok [OF Cons.prems] c Inr by blast+
    obtain ys where "subseq ys xs" "inv (fold (\<lambda>x s. snd (call x s)) xs s')"
      "\<forall>k. val (fold (\<lambda>x s. snd (call x s)) xs s') k =
        fold (\<lambda>x v. Some (case v of None \<Rightarrow> fresh x | Some w \<Rightarrow> touch x w)) (filter (\<lambda>x. keyof x = k) ys) (val s' k)"
      using Cons.IH [OF s'(1)] by blast
    then show ?thesis using c s'(2) by (intro exI [of _ "x # ys"]) auto
  qed
qed (auto intro: exI [of _ "[]"])

end

subsection \<open>A value per key\<close>

text \<open>
  The contract of an overwriting store: a successful \<open>put\<close> changes the value of its key
  and of no other, a failing one changes nothing. The first argument is the clock reading.
\<close>

locale kv_store =
  fixes inv :: "'s \<Rightarrow> bool"
    and val :: "'s \<Rightarrow> 'k \<Rightarrow> 'v"
    and wrap :: "'x \<Rightarrow> 'v"
    and put :: "'c \<Rightarrow> 'k \<Rightarrow> 'x \<Rightarrow> 's \<Rightarrow> (store_error + unit) \<times> 's"
  assumes put_ok: "inv s \<Longrightarrow> put c k x s = (Inr u, s') \<Longrightarrow> inv s' \<and> val s' = (val s)(k := wrap x)"
    and put_err: "put c k x s = (Inl e, s') \<Longrightarrow> s' = s"
begin

lemma put_two:
  assumes "inv s" "put c k x s = (Inr u, s1)" "put c' k' x' s1 = (Inr u', s2)"
  shows "inv s2 \<and> val s2 = (val s)(k := wrap x, k' := wrap x')"
  using put_ok [OF assms(1,2)] put_ok [OF _ assms(3)] by auto

lemma put_cases:
  assumes "inv s"
  shows "inv (snd (put c k x s)) \<and>
    val (snd (put c k x s)) = (if isl (fst (put c k x s)) then val s else (val s)(k := wrap x))"
  using put_ok [OF assms, of c k x] put_err [of c k x s] assms
  by (cases "put c k x s"; cases "fst (put c k x s)") auto

text \<open>A key that no overwrite of a sequence names keeps its value.\<close>

lemma puts_frame:
  assumes "inv s" "k \<notin> (fst \<circ> snd) ` set ps"
  shows "inv (fold (\<lambda>(c, k, x) s. snd (put c k x s)) ps s) \<and>
    val (fold (\<lambda>(c, k, x) s. snd (put c k x s)) ps s) k = val s k"
  using assms
proof (induction ps arbitrary: s)
  case (Cons p ps)
  obtain c k' x where p: "p = (c, k', x)" by (metis prod_cases3)
  have "inv (snd (put c k' x s))" "val (snd (put c k' x s)) k = val s k"
    using put_cases [OF Cons.prems(1), of c k' x] Cons.prems(2) by (auto simp: p)
  then show ?case using Cons.IH [of "snd (put c k' x s)"] Cons.prems(2) by (simp add: p)
qed simp

end

text \<open>Overwriting is inserting or updating with a value that forgets the old one.\<close>

sublocale kv_store \<subseteq> overwrite: upsert_store inv "\<lambda>s k. Some (val s k)" "\<lambda>(c, k, x). k" "\<lambda>(c, k, x). wrap x"
  "\<lambda>(c, k, x) _. wrap x" "\<lambda>(c, k, x). put c k x"
proof (unfold_locales, goal_cases)
  case (1 s x b s')
  obtain c k y where x: "x = (c, k, y)" by (metis prod_cases3)
  from put_ok [OF 1(1), of c k y b s'] 1(2) show ?case by (auto simp: x)
next
  case (2 x s e s')
  obtain c k y where x: "x = (c, k, y)" by (metis prod_cases3)
  from put_err [of c k y s e s'] 2 show ?case by (simp add: x)
qed

subsection \<open>Append-only lists of linked entries\<close>

fun linked :: "('r \<Rightarrow> string) \<Rightarrow> ('r \<Rightarrow> string) \<Rightarrow> string \<Rightarrow> 'r list \<Rightarrow> bool" where
  "linked pre hsh g [] = True"
| "linked pre hsh g (r # rs) = (pre r = g \<and> linked pre hsh (hsh r) rs)"

definition tip :: "('r \<Rightarrow> string) \<Rightarrow> string \<Rightarrow> 'r list \<Rightarrow> string" where
  "tip hsh g rs = (if rs = [] then g else hsh (last rs))"

lemma linked_snoc: "linked pre hsh g (rs @ [r]) \<longleftrightarrow> linked pre hsh g rs \<and> pre r = tip hsh g rs"
  by (induction rs arbitrary: g) (auto simp: tip_def)

lemma linked_iff:
  "linked pre hsh g rs \<longleftrightarrow>
     rs = [] \<or> pre (rs ! 0) = g \<and> (\<forall>i \<in> {1..<length rs}. pre (rs ! i) = hsh (rs ! (i - 1)))"
proof (induction rs rule: rev_induct)
  case (snoc r rs)
  have "{1..<length (rs @ [r])} = (if rs = [] then {} else insert (length rs) {1..<length rs})"
    by (cases rs) auto
  moreover have "(\<forall>i \<in> {1..<length rs}. pre ((rs @ [r]) ! i) = hsh ((rs @ [r]) ! (i - 1))) \<longleftrightarrow>
      (\<forall>i \<in> {1..<length rs}. pre (rs ! i) = hsh (rs ! (i - 1)))"
    by (auto simp: nth_append)
  ultimately show ?case
    using snoc by (cases "rs = []") (auto simp: linked_snoc tip_def nth_append last_conv_nth)
qed simp

locale chained_log =
  fixes inv :: "'s \<Rightarrow> bool"
    and entries :: "'s \<Rightarrow> 'r list"
    and pre :: "'r \<Rightarrow> string"
    and hsh :: "'r \<Rightarrow> string"
    and good :: "'r \<Rightarrow> bool"
    and genesis :: string
    and append :: "'x \<Rightarrow> 's \<Rightarrow> (store_error + string) \<times> 's"
  assumes append_ok: "inv s \<Longrightarrow> append x s = (Inr h, s') \<Longrightarrow>
      inv s' \<and> (entries s' = entries s \<or>
        (\<exists>r. entries s' = entries s @ [r] \<and> pre r = tip hsh genesis (entries s) \<and> hsh r = h \<and> good r))"
    and append_err: "append x s = (Inl e, s') \<Longrightarrow> s' = s"
begin

lemma append_step:
  assumes "inv s" "linked pre hsh genesis (entries s)" "list_all good (entries s)"
  shows "inv (snd (append x s)) \<and> linked pre hsh genesis (entries (snd (append x s))) \<and>
    list_all good (entries (snd (append x s))) \<and> prefix (entries s) (entries (snd (append x s)))"
proof (cases "append x s")
  case (Pair res s')
  then show ?thesis
    using append_ok [OF assms(1), of x] append_err [of x s] assms
    by (cases res) (force simp: linked_snoc)+
qed

text \<open>However many appends succeed or fail, the entries stay linked and none is lost or changed.\<close>

lemma appends_linked:
  assumes "inv s" "linked pre hsh genesis (entries s)" "list_all good (entries s)"
  shows "inv (fold (\<lambda>x s. snd (append x s)) xs s) \<and>
    linked pre hsh genesis (entries (fold (\<lambda>x s. snd (append x s)) xs s)) \<and>
    list_all good (entries (fold (\<lambda>x s. snd (append x s)) xs s)) \<and>
    prefix (entries s) (entries (fold (\<lambda>x s. snd (append x s)) xs s))"
  using assms
proof (induction xs arbitrary: s)
  case (Cons x xs)
  then show ?case
    using append_step [OF Cons.prems, of x] Cons.IH [of "snd (append x s)"]
    by (auto intro: prefix_order.trans)
qed simp

end

text \<open>
  Two linked lists whose entries hash what they carry agree on their whole history when
  they have the same length and the same last hash, as long as the hashes do not collide.
\<close>

lemma same_tip_same_history:
  assumes step: "\<And>r r'. r \<in> set xs \<Longrightarrow> r' \<in> set ys \<Longrightarrow> hsh r = hsh r' \<Longrightarrow>
      length (pre r) = length (pre r') \<Longrightarrow> pre r = pre r' \<and> body r = body r'"
    and len: "\<And>r r'. r \<in> set xs \<Longrightarrow> r' \<in> set ys \<Longrightarrow> length (hsh r) = length (hsh r')"
    and "linked pre hsh g xs" "linked pre hsh g ys" "length xs = length ys" "tip hsh g xs = tip hsh g ys"
  shows "map body xs = map body ys \<and> map hsh xs = map hsh ys"
  using assms(5,3,4,6) step len
proof (induction xs ys rule: rev_induct2)
  case (4 x xs y ys)
  have xy: "hsh x = hsh y" using 4 by (simp add: tip_def)
  have p: "pre x = tip hsh g xs" "pre y = tip hsh g ys" and l: "length xs = length ys"
    using 4 by (simp_all add: linked_snoc)
  have "length (tip hsh g xs) = length (tip hsh g ys)"
    using l "4.prems"(6) [of "last xs" "last ys"] by (cases "xs = []") (auto simp: tip_def)
  then have "pre x = pre y \<and> body x = body y"
    using "4.prems"(5) [of x y] xy p by simp
  then show ?case using 4 p xy by (simp add: linked_snoc)
qed auto

end
