(* ===== verification/Balance.thy ===== *)
theory Balance
  imports Store
begin

text \<open>
  The balance store of \<^verbatim>\<open>src/db/entity/balance/store.rs\<close>: one row per address, the amount
  as decimal text, transfers inside a database transaction. The store is shown to refine a
  map from addresses to amounts; a transfer moves its amount and keeps the total, unless the
  sender pays itself.
\<close>

record balance_row =
  b_id :: int
  b_address :: string
  b_balance :: string
  b_updated_at :: i64

type_synonym 't balances = "('t, balance_row) table_ops"

subsection \<open>Operations\<close>

definition balance_get :: "'t balances \<Rightarrow> string \<Rightarrow> ('t, u64) db_op" where
  "balance_get tb address =
     db_bind (db_one tb (\<lambda>r. b_address r = address)) (\<lambda>found.
       case found of
         Some m \<Rightarrow> (case parse_u64 (b_balance m) of Some v \<Rightarrow> db_ok v | None \<Rightarrow> db_err ParseErr)
       | None \<Rightarrow> db_ok 0)"

definition balance_set :: "'t balances \<Rightarrow> i64 \<Rightarrow> string \<Rightarrow> u64 \<Rightarrow> ('t, unit) db_op" where
  "balance_set tb now address amount =
     db_bind (db_one tb (\<lambda>r. b_address r = address)) (\<lambda>found.
       case found of
         Some existing \<Rightarrow>
           db_bind (db_update tb (existing\<lparr>b_balance := show_nat (unat amount)\<rparr>)) (\<lambda>_. db_ok ())
       | None \<Rightarrow>
           db_bind (db_insert tb \<lparr>b_id = 0, b_address = address, b_balance = show_nat (unat amount),
                                  b_updated_at = now\<rparr>) (\<lambda>_. db_ok ()))"

definition zero_amount :: store_error where
  "zero_amount = Rejected ''transfer amount must > 0''"

definition insufficient_funds :: store_error where
  "insufficient_funds = Rejected ''insufficient funds''"

definition balance_transfer ::
  "'t balances \<Rightarrow> i64 \<Rightarrow> i64 \<Rightarrow> string \<Rightarrow> string \<Rightarrow> u64 \<Rightarrow> ('t, unit) db_op" where
  "balance_transfer tb now1 now2 from_addr to_addr amount =
     (if amount = 0 then db_err zero_amount
      else db_transaction tb
        (db_bind (balance_get tb from_addr) (\<lambda>from_balance.
           if from_balance < amount then db_err insufficient_funds
           else db_bind (balance_get tb to_addr) (\<lambda>to_balance.
             db_bind (balance_set tb now1 from_addr (from_balance - amount)) (\<lambda>_.
               balance_set tb now2 to_addr (to_balance + amount))))))"

definition balance_get_all :: "'t balances \<Rightarrow> ('t, (string \<times> u64) list) db_op" where
  "balance_get_all tb =
     db_bind (db_all tb (\<lambda>_. True)) (\<lambda>rows.
       db_ok (map (\<lambda>m. (b_address m, case parse_u64 (b_balance m) of Some v \<Rightarrow> v | None \<Rightarrow> 0)) rows))"

subsection \<open>The balances as a map\<close>

definition balances_ok :: "'t balances \<Rightarrow> 't \<Rightarrow> bool" where
  "balances_ok tb t \<longleftrightarrow>
     table_ok tb b_id (\<lambda>i r. r\<lparr>b_id := i\<rparr>) \<and> distinct (map b_id (tb_rows tb t)) \<and>
     distinct (map b_address (tb_rows tb t)) \<and>
     (\<forall>r \<in> set (tb_rows tb t). parse_u64 (b_balance r) \<noteq> None)"

definition row_amount :: "balance_row \<Rightarrow> u64" where
  "row_amount r = (case parse_u64 (b_balance r) of Some v \<Rightarrow> v | None \<Rightarrow> 0)"

definition balance_of :: "'t balances \<Rightarrow> 't \<Rightarrow> string \<Rightarrow> u64" where
  "balance_of tb t address =
     (case find (\<lambda>r. b_address r = address) (tb_rows tb t) of Some r \<Rightarrow> row_amount r | None \<Rightarrow> 0)"

definition total_supply :: "'t balances \<Rightarrow> 't \<Rightarrow> nat" where
  "total_supply tb t = (\<Sum>r \<leftarrow> tb_rows tb t. unat (row_amount r))"

lemma balances_okD:
  assumes "balances_ok tb t"
  shows "table_ok tb b_id (\<lambda>i r. r\<lparr>b_id := i\<rparr>)" "distinct (map b_id (tb_rows tb t))"
    "distinct (map b_address (tb_rows tb t))"
    "r \<in> set (tb_rows tb t) \<Longrightarrow> parse_u64 (b_balance r) = Some (row_amount r)"
  using assms by (auto simp: balances_ok_def row_amount_def)

lemma balance_get_eq:
  assumes "balances_ok tb t"
  shows "balance_get tb a t = (if tb_up tb t then Inr (balance_of tb t a) else Inl DbErr, t)"
proof (cases "find (\<lambda>r. b_address r = a) (tb_rows tb t)")
  case (Some r)
  then have "r \<in> set (tb_rows tb t)" using find_unique [OF balances_okD(3) [OF assms]] by auto
  then show ?thesis
    using Some balances_okD(4) [OF assms] by (simp add: balance_get_def balance_of_def db_bind_apply db_simps)
qed (simp add: balance_get_def balance_of_def db_bind_apply db_simps)

lemma row_amount_show: "row_amount (r\<lparr>b_balance := show_nat (unat v)\<rparr>) = v"
  by (simp add: row_amount_def parse_u64_show)

text \<open>What a successful overwrite leaves behind: one row of the address, with the new amount.\<close>

lemma balance_set_row:
  assumes ok: "balances_ok tb t" and "balance_set tb now a v t = (Inr u, t')"
  obtains r where "b_address r = a" "b_balance r = show_nat (unat v)" "distinct (map b_id (tb_rows tb t'))"
    "distinct (map b_address (tb_rows tb t'))"
    "\<And>k. find (\<lambda>x. b_address x = k) (tb_rows tb t') =
       (if k = a then Some r else find (\<lambda>x. b_address x = k) (tb_rows tb t))"
proof (cases "find (\<lambda>r. b_address r = a) (tb_rows tb t)")
  case None
  then obtain r' where ins: "tb_insert tb \<lparr>b_id = 0, b_address = a, b_balance = show_nat (unat v),
      b_updated_at = now\<rparr> t = Some (r', t')"
    using assms(2) by (auto simp: balance_set_def db_results db_simps split: if_splits)
  have new: "a \<notin> b_address ` set (tb_rows tb t)" using None by (simp add: find_key_None)
  obtain i where "r' = \<lparr>b_id = i, b_address = a, b_balance = show_nat (unat v), b_updated_at = now\<rparr>"
    by (rule insert_rows [OF balances_okD(1) [OF ok] ins]) auto
  then show thesis
    using insert_find [OF balances_okD(1) [OF ok] ins _ _ balances_okD(2,3) [OF ok]] new
    by (intro that [of r']) auto
next
  case (Some r)
  let ?r = "r\<lparr>b_balance := show_nat (unat v)\<rparr>"
  have upd: "tb_update tb ?r t = Some t'"
    using assms(2) Some by (auto simp: balance_set_def db_results db_simps split: if_splits)
  have "r \<in> set (tb_rows tb t)" "b_address r = a"
    using find_unique [OF balances_okD(3) [OF ok]] Some by auto
  then show thesis
    using update_find [OF balances_okD(1) [OF ok] upd _ _ _ balances_okD(2,3) [OF ok], of r]
    by (intro that [of ?r]) auto
qed

lemma balance_set_Inl: "balance_set tb now a v t = (Inl e, t') \<Longrightarrow> e = DbErr \<and> t' = t"
  by (auto simp: balance_set_def db_results db_simps split: if_splits option.splits)

lemma balance_set_ok:
  assumes ok: "balances_ok tb t" and put: "balance_set tb now a v t = (Inr u, t')"
  shows "balances_ok tb t' \<and> balance_of tb t' = (balance_of tb t)(a := v)"
proof -
  obtain r where r: "b_address r = a" "b_balance r = show_nat (unat v)" "distinct (map b_id (tb_rows tb t'))"
    "distinct (map b_address (tb_rows tb t'))"
    and find: "\<And>k. find (\<lambda>x. b_address x = k) (tb_rows tb t') =
       (if k = a then Some r else find (\<lambda>x. b_address x = k) (tb_rows tb t))"
    using balance_set_row [OF ok put] by blast
  have "parse_u64 (b_balance x) \<noteq> None" if "x \<in> set (tb_rows tb t')" for x
  proof -
    have "find (\<lambda>y. b_address y = b_address x) (tb_rows tb t') = Some x"
      using that find_unique [OF r(4)] by blast
    then have "x = r \<or> x \<in> set (tb_rows tb t)"
      using find [of "b_address x"] find_unique [OF balances_okD(3) [OF ok]] by (auto split: if_splits)
    then show ?thesis using r(2) balances_okD(4) [OF ok] by (auto simp: parse_u64_show)
  qed
  then have "balances_ok tb t'" using balances_okD(1) [OF ok] r by (auto simp: balances_ok_def)
  moreover have "balance_of tb t' k = ((balance_of tb t)(a := v)) k" for k
    using r(2) by (simp add: balance_of_def find row_amount_def parse_u64_show)
  ultimately show ?thesis by blast
qed

interpretation bal: kv_store "balances_ok tb" "balance_of tb" "\<lambda>v. v" "balance_set tb"
  by unfold_locales (fact balance_set_ok, simp add: balance_set_Inl)

subsection \<open>Transfers\<close>

lemma balances_same_rows:
  assumes ok: "balances_ok tb t" and m: "mset (tb_rows tb t') = mset (tb_rows tb t)"
  shows "balances_ok tb t'" "balance_of tb t' = balance_of tb t"
proof -
  show "balances_ok tb t'"
    using ok unfolding balances_ok_def mset_distinct_map [OF m] mset_eq_setD [OF m] .
  show "balance_of tb t' = balance_of tb t"
    unfolding balance_of_def find_same_rows [OF balances_okD(3) [OF ok] m] ..
qed

lemma transaction_rows:
  assumes ok: "balances_ok tb t" and tr: "tb_begin tb t = Some t' \<or> tb_commit tb t = Some t'"
  shows "balances_ok tb t'" "balance_of tb t' = balance_of tb t"
proof -
  have "mset (tb_rows tb t') = mset (tb_rows tb t)"
    using tr balances_okD(1) [OF ok] unfolding table_ok_def transaction_law_def by blast
  from balances_same_rows [OF ok this] show "balances_ok tb t'" "balance_of tb t' = balance_of tb t"
    by this+
qed

text \<open>The abstract transfer, on a map from addresses to amounts.\<close>

definition ledger_transfer :: "string \<Rightarrow> string \<Rightarrow> u64 \<Rightarrow> (string \<Rightarrow> u64) \<Rightarrow> string \<Rightarrow> u64" where
  "ledger_transfer a b n l = l(a := l a - n, b := l b + n)"

lemma transfer_Inr:
  assumes ok: "balances_ok tb t" and tr: "balance_transfer tb now1 now2 a b n t = (Inr u, t')"
  shows "n \<noteq> 0" "n \<le> balance_of tb t a" "balances_ok tb t'"
    "balance_of tb t' = ledger_transfer a b n (balance_of tb t)"
proof -
  show "n \<noteq> 0" using tr by (auto simp: balance_transfer_def db_simps split: if_splits)
  then obtain x x1 x2 where begin_x: "tb_begin tb t = Some x" and commit: "tb_commit tb x2 = Some t'"
    and n: "\<not> balance_of tb x a < n"
    and sets: "balance_set tb now1 a (balance_of tb x a - n) x = (Inr (), x1)"
      "balance_set tb now2 b (balance_of tb x b + n) x1 = (Inr (), x2)"
    using tr transaction_rows(1) [OF ok]
    by (auto simp: balance_transfer_def db_transaction_Inr db_results db_simps balance_get_eq split: if_splits)
  have x: "balances_ok tb x" "balance_of tb x = balance_of tb t"
    using transaction_rows [OF ok] begin_x by auto
  show "n \<le> balance_of tb t a" using n x by simp
  have x2: "balances_ok tb x2" "balance_of tb x2 = ledger_transfer a b n (balance_of tb t)"
    using bal.put_two [OF x(1) sets] x(2) by (simp_all add: ledger_transfer_def)
  show "balances_ok tb t'" "balance_of tb t' = ledger_transfer a b n (balance_of tb t)"
    using transaction_rows [OF x2(1)] commit x2(2) by auto
qed

lemma transfer_Inl:
  assumes ok: "balances_ok tb t" and tr: "balance_transfer tb now1 now2 a b n t = (Inl e, t')"
  shows "t' = t" "e = zero_amount \<longleftrightarrow> n = 0" "e = insufficient_funds \<longrightarrow> balance_of tb t a < n"
    "e = DbErr \<or> e = zero_amount \<or> e = insufficient_funds"
proof -
  let ?body = "db_bind (balance_get tb a) (\<lambda>from_balance.
           if from_balance < n then db_err insufficient_funds
           else db_bind (balance_get tb b) (\<lambda>to_balance.
             db_bind (balance_set tb now1 a (from_balance - n)) (\<lambda>_.
               balance_set tb now2 b (to_balance + n))))"
  have body: "e = DbErr \<or> e = insufficient_funds \<and> balance_of tb t a < n"
    if "tb_begin tb t = Some x" "?body x = (Inl e, x')" for x x'
    using that transaction_rows [OF ok, of x]
    by (auto simp: db_results db_simps balance_get_eq dest!: balance_set_Inl split: if_splits)
  have "t' = t \<and> (if n = 0 then e = zero_amount else e = DbErr \<or> e = insufficient_funds \<and> balance_of tb t a < n)"
    using tr db_transaction_Inl [of tb ?body t e t'] body
    by (auto simp: balance_transfer_def db_simps split: if_splits)
  then show "t' = t" "e = zero_amount \<longleftrightarrow> n = 0" "e = insufficient_funds \<longrightarrow> balance_of tb t a < n"
    "e = DbErr \<or> e = zero_amount \<or> e = insufficient_funds"
    by (auto simp: zero_amount_def insufficient_funds_def split: if_splits)
qed

subsection \<open>The sum of all balances\<close>

lemma total_supply_sum:
  assumes ok: "balances_ok tb t" and A: "finite A" "b_address ` set (tb_rows tb t) \<subseteq> A"
  shows "total_supply tb t = (\<Sum>a \<in> A. unat (balance_of tb t a))"
proof -
  let ?rows = "tb_rows tb t"
  note d = balances_okD(3) [OF ok]
  have "total_supply tb t = (\<Sum>r \<in> set ?rows. unat (row_amount r))"
    using d by (simp add: total_supply_def sum_list_distinct_conv_sum_set distinct_map)
  also have "\<dots> = (\<Sum>r \<in> set ?rows. unat (balance_of tb t (b_address r)))"
  proof (rule sum.cong)
    fix r assume "r \<in> set ?rows"
    then have "find (\<lambda>x. b_address x = b_address r) ?rows = Some r" using find_unique [OF d] by blast
    then show "unat (row_amount r) = unat (balance_of tb t (b_address r))" by (simp add: balance_of_def)
  qed simp
  also have "\<dots> = (\<Sum>a \<in> b_address ` set ?rows. unat (balance_of tb t a))"
    using d by (simp add: sum.reindex distinct_map)
  also have "\<dots> = (\<Sum>a \<in> A. unat (balance_of tb t a))"
    by (rule sum.mono_neutral_left [OF A]) (auto simp: balance_of_def find_key_None [THEN iffD2] split: option.split)
  finally show ?thesis .
qed

lemma sum_upd:
  assumes "finite A" "a \<in> A"
  shows "(\<Sum>x \<in> A. unat ((f(a := v)) x)) + unat (f a) = (\<Sum>x \<in> A. unat (f x)) + unat v"
  using assms by (simp add: sum.remove [of A a])

lemma ledger_transfer_sum:
  assumes "finite A" "a \<in> A" "b \<in> A" "n \<le> l a"
  shows "(\<Sum>x \<in> A. unat (ledger_transfer a b n l x)) + (if unat (l b) + unat n < 2 ^ 64 then 0 else 2 ^ 64) =
    (\<Sum>x \<in> A. unat (l x)) + (if a = b then unat n else 0)"
proof -
  let ?l = "l(a := l a - n)"
  have plus: "unat (l b + n) + (if unat (l b) + unat n < 2 ^ 64 then 0 else 2 ^ 64) = unat (l b) + unat n"
  proof (cases "unat (l b) + unat n < 2 ^ 64")
    case False
    have "unat (l b) < 2 ^ 64" "unat n < 2 ^ 64" using unsigned_less [of "l b"] unsigned_less [of n] by simp_all
    then have "(unat (l b) + unat n) mod 2 ^ 64 = unat (l b) + unat n - 2 ^ 64"
      using False by (simp add: le_mod_geq)
    then show ?thesis using False by (simp add: unat_word_ariths)
  qed (simp add: unat_word_ariths)
  have minus: "unat (l a - n) + unat n = unat (l a)"
    using assms(4) by (simp add: unat_sub word_le_nat_alt)
  show ?thesis
    using sum_upd [OF assms(1,2), of l "l a - n"] sum_upd [OF assms(1,3), of ?l "l b + n"] plus minus
    by (auto simp: ledger_transfer_def)
qed

lemma balance_set_works:
  assumes "table_works tb b_address"
  shows "\<exists>t'. balance_set tb now a v t = (Inr (), t')"
proof (cases "find (\<lambda>r. b_address r = a) (tb_rows tb t)")
  case None
  then have "a \<notin> b_address ` set (tb_rows tb t)" by (simp add: find_key_None)
  then have "tb_insert tb \<lparr>b_id = 0, b_address = a, b_balance = show_nat (unat v), b_updated_at = now\<rparr> t \<noteq> None"
    using assms unfolding table_works_def by (metis balance_row.select_convs(2))
  then show ?thesis
    using assms None by (auto simp: balance_set_def db_results db_simps table_works_def)
next
  case (Some r)
  then show ?thesis
    using assms by (auto simp: balance_set_def db_results db_simps table_works_def)
qed

lemma transfer_works:
  assumes ok: "balances_ok tb t" and w: "table_works tb b_address"
    and n: "n \<noteq> 0" "n \<le> balance_of tb t a"
  shows "fst (balance_transfer tb now1 now2 a b n t) = Inr ()"
proof -
  obtain x where x: "tb_begin tb t = Some x" using w unfolding table_works_def by blast
  have up: "tb_up tb y" "\<exists>y'. tb_commit tb y = Some y'" for y using w unfolding table_works_def by blast+
  note xr = transaction_rows [OF ok disjI1 [OF x]]
  obtain x1 where x1: "balance_set tb now1 a (balance_of tb x a - n) x = (Inr (), x1)"
    using balance_set_works [OF w] by blast
  obtain x2 where x2: "balance_set tb now2 b (balance_of tb x b + n) x1 = (Inr (), x2)"
    using balance_set_works [OF w] by blast
  obtain t' where "tb_commit tb x2 = Some t'" using up(2) by blast
  then have "balance_transfer tb now1 now2 a b n t = (Inr (), t')"
    using n x x1 x2 up(1) xr
    by (simp add: balance_transfer_def db_transaction_def db_bind_apply db_simps balance_get_eq not_less)
  then show ?thesis by simp
qed

subsection \<open>Properties\<close>

definition demo_balances :: "balance_row list balances" where
  "demo_balances = list_table b_id (\<lambda>i r. r\<lparr>b_id := i\<rparr>) (\<lambda>r t. b_address r \<in> b_address ` set t)"

definition demo_rows :: "balance_row list" where
  "demo_rows =
     [\<lparr>b_id = 1, b_address = ''alice'', b_balance = show_nat 1000, b_updated_at = 0\<rparr>,
      \<lparr>b_id = 2, b_address = ''bob'', b_balance = show_nat 500, b_updated_at = 0\<rparr>]"

lemma demo_parse: "parse_u64 (show_nat 1000) = Some 1000" "parse_u64 (show_nat 500) = Some 500"
  using parse_u64_show [of 1000] parse_u64_show [of 500] by simp_all

lemma demo_balances_ok: "balances_ok demo_balances demo_rows"
  using list_table_ok by (simp add: balances_ok_def demo_balances_def demo_rows_def demo_parse list_table_def)

lemma demo_balance_of:
  "balance_of demo_balances demo_rows ''alice'' = 1000" "balance_of demo_balances demo_rows ''bob'' = 500"
  by (simp_all add: balance_of_def demo_balances_def list_table_def demo_rows_def row_amount_def demo_parse)

lemma demo_works: "table_works demo_balances b_address"
  by (auto simp: table_works_def demo_balances_def list_table_def Let_def)

text \<open>
  C16. A transfer implements the abstract transfer on the map of balances, or changes nothing:
  it goes through only for a positive amount the sender has, every refusal leaves the database
  as it was, a zero amount and missing funds are reported as such, and when the database
  accepts the statements the transfer goes through exactly for those amounts.
\<close>

theorem transfer_refines_ledger:
  assumes "balances_ok tb t"
  shows "(case balance_transfer tb now1 now2 a b n t of
      (Inr _, t') \<Rightarrow> 0 < n \<and> n \<le> balance_of tb t a \<and> balances_ok tb t' \<and>
        balance_of tb t' = ledger_transfer a b n (balance_of tb t)
    | (Inl e, t') \<Rightarrow> t' = t \<and> (e = zero_amount \<longleftrightarrow> n = 0) \<and>
        (e = insufficient_funds \<longrightarrow> balance_of tb t a < n) \<and>
        e \<in> {DbErr, zero_amount, insufficient_funds}) \<and>
    (table_works tb b_address \<longrightarrow>
      (\<not> isl (fst (balance_transfer tb now1 now2 a b n t)) \<longleftrightarrow> 0 < n \<and> n \<le> balance_of tb t a))"
proof (cases "balance_transfer tb now1 now2 a b n t")
  case (Pair res t')
  show ?thesis
  proof (cases res)
    case (Inl e)
    then show ?thesis
      using transfer_Inl [OF assms] transfer_works [OF assms, of n a now1 now2 b] Pair
      by (auto simp: word_gt_0)
  next
    case (Inr u)
    then show ?thesis using transfer_Inr [OF assms] Pair by (auto simp: word_gt_0)
  qed
qed

theorem transfer_refines_ledger_witness:
  "\<not> isl (fst (balance_transfer demo_balances 1 2 ''alice'' ''bob'' 300 demo_rows))"
  using demo_balances_ok transfer_refines_ledger [where tb = demo_balances and t = demo_rows and a = "''alice''" and b = "''bob''" and n = 300 and ?now1.0 = 1 and ?now2.0 = 2] demo_works
  by (simp add: demo_balance_of)

text \<open>
  C28. What a transfer that goes through does to the sum of all balances. It keeps the sum when
  sender and receiver differ and creates its amount out of nothing when they are the same
  address, as long as the receiver's balance and the amount stay below \<open>2 ^ 64\<close>; when they do not,
  the unchecked addition wraps and \<open>2 ^ 64\<close> is lost from the sum.
\<close>

theorem transfer_total_supply:
  assumes "balances_ok tb t" "balance_transfer tb now1 now2 a b n t = (Inr u, t')"
  shows "total_supply tb t' + (if unat (balance_of tb t b) + unat n < 2 ^ 64 then 0 else 2 ^ 64) =
    total_supply tb t + (if a = b then unat n else 0)"
proof -
  let ?A = "{a, b} \<union> b_address ` set (tb_rows tb t) \<union> b_address ` set (tb_rows tb t')"
  note tr = transfer_Inr [OF assms(1,2)]
  have "total_supply tb t' = (\<Sum>x \<in> ?A. unat (ledger_transfer a b n (balance_of tb t) x))"
    by (subst total_supply_sum [OF tr(3), of ?A]) (auto simp: tr(4))
  moreover have "total_supply tb t = (\<Sum>x \<in> ?A. unat (balance_of tb t x))"
    by (rule total_supply_sum [OF assms(1)]) auto
  moreover have "(\<Sum>x \<in> ?A. unat (ledger_transfer a b n (balance_of tb t) x)) +
      (if unat (balance_of tb t b) + unat n < 2 ^ 64 then 0 else 2 ^ 64) =
    (\<Sum>x \<in> ?A. unat (balance_of tb t x)) + (if a = b then unat n else 0)"
    by (rule ledger_transfer_sum) (use tr(2) in auto)
  ultimately show ?thesis by (simp only:)
qed

theorem transfer_total_supply_witness:
  "\<exists>t'. balance_transfer demo_balances 1 2 ''alice'' ''alice'' 300 demo_rows = (Inr (), t') \<and>
     total_supply demo_balances t' = 1800"
proof -
  have "fst (balance_transfer demo_balances 1 2 ''alice'' ''alice'' 300 demo_rows) = Inr ()"
    by (rule transfer_works [OF demo_balances_ok demo_works]) (simp_all add: demo_balance_of)
  then obtain t' where t': "balance_transfer demo_balances 1 2 ''alice'' ''alice'' 300 demo_rows = (Inr (), t')"
    by (metis prod.collapse)
  have "total_supply demo_balances demo_rows = 1500"
    by (simp add: total_supply_def demo_balances_def list_table_def demo_rows_def row_amount_def demo_parse)
  with transfer_total_supply [OF demo_balances_ok t'] t' show ?thesis by (simp add: demo_balance_of)
qed

end
