(* ===== verification/Chain.thy ===== *)
theory Chain
  imports Store
begin

text \<open>
  The three stores that chain their rows by hash: transactions
  (\<^verbatim>\<open>src/db/entity/transaction\<close>), transaction sets (\<^verbatim>\<open>transaction_set\<close>) and the
  reward allocations of an epoch (\<^verbatim>\<open>epoch_allocation\<close>). SHA-256 and the JSON encoder
  are parameters. Each store is an instance of \<open>chained_log\<close>: whatever sequence of
  insertions is tried, the rows in id order link back to the genesis hash.
\<close>

definition genesis_pre_hash :: string where
  "genesis_pre_hash = replicate 32 (CHR ''0'')"

definition allocation_genesis :: string where
  "allocation_genesis = replicate 64 (CHR ''0'')"

datatype tx_type = Transfer | Mint | Burn

fun tx_type_value :: "tx_type \<Rightarrow> string" where
  "tx_type_value Transfer = ''transfer''"
| "tx_type_value Mint = ''mint''"
| "tx_type_value Burn = ''burn''"

subsection \<open>Transactions\<close>

record tx_row =
  tx_id :: int
  tx_epoch :: i64
  tx_cycle :: i64
  tx_kind :: tx_type
  tx_from_address :: string
  tx_to_address :: string
  tx_amount :: string
  tx_timestamp :: i64
  tx_pre_hash :: string
  tx_hash :: string
  tx_shard_key :: string

type_synonym 't txs = "('t, tx_row) table_ops"

definition tx_last_hash :: "'t txs \<Rightarrow> ('t, string) db_op" where
  "tx_last_hash tb =
     db_bind (db_sorted tb (\<lambda>_. True) (\<lambda>r. - tx_id r)) (\<lambda>rs.
       db_ok (case rs of [] \<Rightarrow> genesis_pre_hash | r # _ \<Rightarrow> tx_hash r))"

definition tx_get_by_shard :: "'t txs \<Rightarrow> string \<Rightarrow> ('t, tx_row list) db_op" where
  "tx_get_by_shard tb shard_key = db_sorted tb (\<lambda>r. tx_shard_key r = shard_key) tx_timestamp"

definition tx_get_all :: "'t txs \<Rightarrow> ('t, tx_row list) db_op" where
  "tx_get_all tb = db_sorted tb (\<lambda>_. True) tx_id"

definition tx_get_page :: "'t txs \<Rightarrow> u64 \<Rightarrow> u64 \<Rightarrow> ('t, tx_row list) db_op" where
  "tx_get_page tb page per_page =
     (let offset = (if page = 0 then 0 else page - 1) * per_page
      in db_bind (db_sorted tb (\<lambda>_. True) (\<lambda>r. - tx_id r)) (\<lambda>rs.
           db_ok (take (unat per_page) (drop (unat offset) rs))))"

definition tx_count_all :: "'t txs \<Rightarrow> ('t, u64) db_op" where
  "tx_count_all tb = db_bind (db_all tb (\<lambda>_. True)) (\<lambda>rs. db_ok (word_of_nat (length rs)))"

definition tx_reset :: "'t txs \<Rightarrow> ('t, unit) db_op" where
  "tx_reset tb = db_delete tb (\<lambda>_. True)"

text \<open>The bytes hashed after the previous hash, and the hash of a row.\<close>

definition tx_body :: "tx_row \<Rightarrow> bytes" where
  "tx_body r =
     i64_le_bytes (tx_epoch r) @ i64_le_bytes (tx_cycle r) @ as_bytes (tx_type_value (tx_kind r)) @
     as_bytes (tx_from_address r) @ as_bytes (tx_to_address r) @ as_bytes (tx_amount r)"

definition tx_digest :: "(bytes \<Rightarrow> bytes) \<Rightarrow> tx_row \<Rightarrow> string" where
  "tx_digest sha256 r = hex_bytes (sha256 (as_bytes (tx_pre_hash r) @ tx_body r))"

record tx_input =
  ti_epoch :: i64
  ti_cycle :: i64
  ti_kind :: tx_type
  ti_from :: string
  ti_to :: string
  ti_amount :: i64
  ti_shard_key :: string

definition tx_insert_with_next_hash ::
  "(bytes \<Rightarrow> bytes) \<Rightarrow> 't txs \<Rightarrow> i64 \<Rightarrow> tx_input \<Rightarrow> ('t, string) db_op" where
  "tx_insert_with_next_hash sha256 tb ts x =
     db_bind (tx_last_hash tb) (\<lambda>prev_hash.
       let am = \<lparr>tx_id = 0, tx_epoch = ti_epoch x, tx_cycle = ti_cycle x, tx_kind = ti_kind x,
                 tx_from_address = ti_from x, tx_to_address = ti_to x,
                 tx_amount = show_int (ti_amount x), tx_timestamp = ts, tx_pre_hash = prev_hash,
                 tx_hash = [], tx_shard_key = ti_shard_key x\<rparr>;
           hash = tx_digest sha256 am
       in db_bind (db_insert tb (am\<lparr>tx_hash := hash\<rparr>)) (\<lambda>_. db_ok hash))"

subsection \<open>Transaction sets\<close>

record tx_set_row =
  ts_id :: int
  ts_epoch :: i64
  ts_cycle :: i64
  ts_set_type :: tx_type
  ts_pre_hash :: string
  ts_hash :: string
  ts_tx_hashes :: string
  ts_tx_hash_count :: u32
  ts_total_amount :: string
  ts_shard_key :: string
  ts_packets :: string
  ts_packers :: string

type_synonym 't tx_sets = "('t, tx_set_row) table_ops"

definition tx_set_reset :: "'t tx_sets \<Rightarrow> ('t, unit) db_op" where
  "tx_set_reset tb = db_delete tb (\<lambda>_. True)"

definition tx_set_get_all :: "'t tx_sets \<Rightarrow> ('t, tx_set_row list) db_op" where
  "tx_set_get_all tb = db_sorted tb (\<lambda>_. True) ts_id"

definition tx_set_last_hash :: "'t tx_sets \<Rightarrow> ('t, string) db_op" where
  "tx_set_last_hash tb =
     db_bind (db_sorted tb (\<lambda>_. True) (\<lambda>r. - ts_id r)) (\<lambda>rs.
       db_ok (case rs of [] \<Rightarrow> genesis_pre_hash | r # _ \<Rightarrow> ts_hash r))"

record tx_set_input =
  tsi_epoch :: i64
  tsi_cycle :: i64
  tsi_set_type :: tx_type
  tsi_shard_key :: string
  tsi_packers :: string
  tsi_total_amount :: u64
  tsi_tx_hashes :: "string list"

definition tx_set_digest :: "(bytes \<Rightarrow> bytes) \<Rightarrow> string \<Rightarrow> tx_set_input \<Rightarrow> string" where
  "tx_set_digest sha256 pre_hash x =
     hex_bytes (sha256 (as_bytes pre_hash @ i64_le_bytes (tsi_epoch x) @ i64_le_bytes (tsi_cycle x) @
       concat (map as_bytes (tsi_tx_hashes x)) @ as_bytes (tsi_packers x) @
       as_bytes (tx_type_value (tsi_set_type x)) @ to_le_bytes 8 (tsi_total_amount x)))"

definition tx_set_insert_with_next_hash ::
  "(bytes \<Rightarrow> bytes) \<Rightarrow> (string list \<Rightarrow> string option) \<Rightarrow> 't tx_sets \<Rightarrow> tx_set_input \<Rightarrow> ('t, string) db_op" where
  "tx_set_insert_with_next_hash sha256 json tb x =
     db_bind (tx_set_last_hash tb) (\<lambda>pre_hash.
       let hash = tx_set_digest sha256 pre_hash x
       in case json (tsi_tx_hashes x) of
            None \<Rightarrow> db_err SerdeErr
          | Some hashes \<Rightarrow>
              db_bind (db_insert tb
                \<lparr>ts_id = 0, ts_epoch = tsi_epoch x, ts_cycle = tsi_cycle x, ts_set_type = tsi_set_type x,
                 ts_pre_hash = pre_hash, ts_hash = hash, ts_tx_hashes = hashes,
                 ts_tx_hash_count = word_of_nat (length (tsi_tx_hashes x)),
                 ts_total_amount = show_nat (unat (tsi_total_amount x)),
                 ts_shard_key = tsi_shard_key x, ts_packets = ''[]'', ts_packers = tsi_packers x\<rparr>)
                (\<lambda>_. db_ok hash))"

subsection \<open>Epoch allocations\<close>

record allocation_row =
  ea_id :: int
  ea_epoch :: i64
  ea_round :: i64
  ea_address :: string
  ea_weight :: string
  ea_amount :: string
  ea_pre_hash :: string
  ea_hash :: string
  ea_created_at :: i64

type_synonym 't allocations = "('t, allocation_row) table_ops"

definition allocation_last_hash :: "'t allocations \<Rightarrow> i64 \<Rightarrow> ('t, string) db_op" where
  "allocation_last_hash tb epoch =
     db_bind (db_sorted tb (\<lambda>r. ea_epoch r = epoch) (\<lambda>r. - ea_id r)) (\<lambda>rs.
       db_ok (case rs of [] \<Rightarrow> allocation_genesis | r # _ \<Rightarrow> ea_hash r))"

definition allocation_digest :: "(bytes \<Rightarrow> bytes) \<Rightarrow> allocation_row \<Rightarrow> string" where
  "allocation_digest sha256 r =
     hex_bytes (sha256 (as_bytes (ea_pre_hash r) @ i64_le_bytes (ea_epoch r) @ i64_le_bytes (ea_round r) @
       as_bytes (ea_address r) @ as_bytes (ea_weight r) @ as_bytes (ea_amount r) @
       i64_le_bytes (ea_created_at r)))"

definition allocation_insert ::
  "(bytes \<Rightarrow> bytes) \<Rightarrow> 't allocations \<Rightarrow> i64 \<Rightarrow> i64 \<Rightarrow> i64 \<Rightarrow> string \<Rightarrow> string \<Rightarrow> string \<Rightarrow>
   ('t, string) db_op" where
  "allocation_insert sha256 tb ts epoch rnd address weight amount =
     db_bind (allocation_last_hash tb epoch) (\<lambda>prev_hash.
       let am = \<lparr>ea_id = 0, ea_epoch = epoch, ea_round = rnd, ea_address = address, ea_weight = weight,
                 ea_amount = amount, ea_pre_hash = prev_hash, ea_hash = [], ea_created_at = ts\<rparr>;
           hash = allocation_digest sha256 am
       in db_bind (db_insert tb (am\<lparr>ea_hash := hash\<rparr>)) (\<lambda>_. db_ok hash))"

definition allocation_get_by_epoch :: "'t allocations \<Rightarrow> i64 \<Rightarrow> ('t, allocation_row list) db_op" where
  "allocation_get_by_epoch tb epoch = db_sorted tb (\<lambda>r. ea_epoch r = epoch) ea_id"

definition allocation_verify_chain :: "'t allocations \<Rightarrow> i64 \<Rightarrow> ('t, bool) db_op" where
  "allocation_verify_chain tb epoch =
     db_bind (allocation_get_by_epoch tb epoch) (\<lambda>records.
       db_ok (if records = [] then True
              else if ea_pre_hash (records ! 0) \<noteq> allocation_genesis then False
              else list_all (\<lambda>i. ea_pre_hash (records ! i) = ea_hash (records ! (i - 1)))
                     [1..<length records]))"

subsection \<open>Linked rows\<close>

definition rows_ok :: "('t, 'r) table_ops \<Rightarrow> ('r \<Rightarrow> int) \<Rightarrow> (int \<Rightarrow> 'r \<Rightarrow> 'r) \<Rightarrow> 't \<Rightarrow> bool" where
  "rows_ok tb rid with_id t \<longleftrightarrow> table_ok tb rid with_id \<and> distinct (map rid (tb_rows tb t))"

definition in_order :: "('t, 'r) table_ops \<Rightarrow> ('r \<Rightarrow> int) \<Rightarrow> ('r \<Rightarrow> bool) \<Rightarrow> 't \<Rightarrow> 'r list" where
  "in_order tb rid P t = sort_key rid (filter P (tb_rows tb t))"

text \<open>The step all three stores make: read the hash of the newest row, insert a row that names it.\<close>

lemma newest_hash:
  assumes "rows_ok tb rid with_id t"
  shows "(case sort_key (\<lambda>r. - rid r) (filter P (tb_rows tb t)) of [] \<Rightarrow> g | r # _ \<Rightarrow> hsh r) =
    tip hsh g (in_order tb rid P t)"
  using newest_tip [of rid "filter P (tb_rows tb t)" g hsh] assms
  by (simp add: rows_ok_def distinct_map_filter tip_def in_order_def)

lemma insert_in_order:
  assumes ok: "rows_ok tb rid with_id t" and ins: "tb_insert tb r t = Some (r', t')"
    and ids: "\<And>i. rid (with_id i r) = i" and P: "\<And>i. P (with_id i r) = P r"
  shows "rows_ok tb rid with_id t' \<and>
    (\<exists>i. r' = with_id i r) \<and> in_order tb rid P t' = in_order tb rid P t @ (if P r then [r'] else [])"
proof -
  have tb: "table_ok tb rid with_id" and d: "distinct (map rid (tb_rows tb t))"
    using ok by (auto simp: rows_ok_def)
  obtain i where i: "r' = with_id i r" by (rule insert_rows [OF tb ins])
  show ?thesis
    using insert_sorted_last [OF tb ins ids d] P i tb by (auto simp: rows_ok_def in_order_def)
qed

abbreviation txs_ok :: "'t txs \<Rightarrow> 't \<Rightarrow> bool" where
  "txs_ok tb \<equiv> rows_ok tb tx_id (\<lambda>i r. r\<lparr>tx_id := i\<rparr>)"

abbreviation tx_entries :: "'t txs \<Rightarrow> 't \<Rightarrow> tx_row list" where
  "tx_entries tb \<equiv> in_order tb tx_id (\<lambda>_. True)"

lemma tx_insert_ok:
  assumes ok: "txs_ok tb t" and ins: "tx_insert_with_next_hash sha256 tb ts x t = (Inr h, t')"
  shows "txs_ok tb t' \<and> (\<exists>r. tx_entries tb t' = tx_entries tb t @ [r] \<and>
    tx_pre_hash r = tip tx_hash genesis_pre_hash (tx_entries tb t) \<and> tx_hash r = h \<and>
    tx_hash r = tx_digest sha256 r)"
proof -
  let ?am = "\<lambda>h. \<lparr>tx_id = 0, tx_epoch = ti_epoch x, tx_cycle = ti_cycle x, tx_kind = ti_kind x,
    tx_from_address = ti_from x, tx_to_address = ti_to x, tx_amount = show_int (ti_amount x),
    tx_timestamp = ts, tx_pre_hash = tip tx_hash genesis_pre_hash (tx_entries tb t), tx_hash = h,
    tx_shard_key = ti_shard_key x\<rparr>"
  obtain r' where h: "h = tx_digest sha256 (?am [])" and r': "tb_insert tb (?am h) t = Some (r', t')"
    using ins newest_hash [OF ok, where P = "\<lambda>_. True" and g = genesis_pre_hash and hsh = tx_hash]
    by (auto simp: tx_insert_with_next_hash_def tx_last_hash_def db_results db_simps Let_def split: if_splits)
  have "tx_digest sha256 (?am h\<lparr>tx_id := i\<rparr>) = h" for i
    unfolding h by (simp add: tx_digest_def tx_body_def)
  then show ?thesis
    using insert_in_order [OF ok r', of "\<lambda>_. True"] by auto
qed

lemma tx_insert_err: "tx_insert_with_next_hash sha256 tb ts x t = (Inl e, t') \<Longrightarrow> t' = t"
  by (auto simp: tx_insert_with_next_hash_def tx_last_hash_def db_results db_simps Let_def split: if_splits)

interpretation tx_log: chained_log "txs_ok tb" "tx_entries tb" tx_pre_hash tx_hash
  "\<lambda>r. tx_hash r = tx_digest sha256 r" genesis_pre_hash "\<lambda>(ts, x). tx_insert_with_next_hash sha256 tb ts x"
  by unfold_locales (auto dest: tx_insert_ok tx_insert_err)

abbreviation tx_sets_ok :: "'t tx_sets \<Rightarrow> 't \<Rightarrow> bool" where
  "tx_sets_ok tb \<equiv> rows_ok tb ts_id (\<lambda>i r. r\<lparr>ts_id := i\<rparr>)"

abbreviation tx_set_entries :: "'t tx_sets \<Rightarrow> 't \<Rightarrow> tx_set_row list" where
  "tx_set_entries tb \<equiv> in_order tb ts_id (\<lambda>_. True)"

lemma tx_set_insert_ok:
  assumes ok: "tx_sets_ok tb t" and ins: "tx_set_insert_with_next_hash sha256 json tb x t = (Inr h, t')"
  shows "tx_sets_ok tb t' \<and> (\<exists>r. tx_set_entries tb t' = tx_set_entries tb t @ [r] \<and>
    ts_pre_hash r = tip ts_hash genesis_pre_hash (tx_set_entries tb t) \<and> ts_hash r = h)"
proof -
  let ?pre = "tip ts_hash genesis_pre_hash (tx_set_entries tb t)"
  let ?am = "\<lambda>hashes. \<lparr>ts_id = 0, ts_epoch = tsi_epoch x, ts_cycle = tsi_cycle x,
    ts_set_type = tsi_set_type x, ts_pre_hash = ?pre, ts_hash = tx_set_digest sha256 ?pre x,
    ts_tx_hashes = hashes, ts_tx_hash_count = word_of_nat (length (tsi_tx_hashes x)),
    ts_total_amount = show_nat (unat (tsi_total_amount x)), ts_shard_key = tsi_shard_key x,
    ts_packets = ''[]'', ts_packers = tsi_packers x\<rparr>"
  obtain hashes r' where "h = tx_set_digest sha256 ?pre x" and r': "tb_insert tb (?am hashes) t = Some (r', t')"
    using ins newest_hash [OF ok, where P = "\<lambda>_. True" and g = genesis_pre_hash and hsh = ts_hash]
    by (auto simp: tx_set_insert_with_next_hash_def tx_set_last_hash_def db_results db_simps Let_def
        split: if_splits option.splits)
  then show ?thesis using insert_in_order [OF ok r', of "\<lambda>_. True"] by auto
qed

lemma tx_set_insert_err: "tx_set_insert_with_next_hash sha256 json tb x t = (Inl e, t') \<Longrightarrow> t' = t"
  by (auto simp: tx_set_insert_with_next_hash_def tx_set_last_hash_def db_results db_simps Let_def
      split: if_splits option.splits)

interpretation tx_set_log: chained_log "tx_sets_ok tb" "tx_set_entries tb" ts_pre_hash ts_hash
  "\<lambda>_. True" genesis_pre_hash "tx_set_insert_with_next_hash sha256 json tb"
  by unfold_locales (auto dest: tx_set_insert_ok tx_set_insert_err)

abbreviation allocations_ok :: "'t allocations \<Rightarrow> 't \<Rightarrow> bool" where
  "allocations_ok tb \<equiv> rows_ok tb ea_id (\<lambda>i r. r\<lparr>ea_id := i\<rparr>)"

abbreviation allocation_entries :: "'t allocations \<Rightarrow> i64 \<Rightarrow> 't \<Rightarrow> allocation_row list" where
  "allocation_entries tb epoch \<equiv> in_order tb ea_id (\<lambda>r. ea_epoch r = epoch)"

lemma allocation_insert_ok:
  assumes ok: "allocations_ok tb t"
    and ins: "allocation_insert sha256 tb ts e rnd address weight amount t = (Inr h, t')"
  shows "allocations_ok tb t' \<and> (if e = epoch
    then \<exists>r. allocation_entries tb epoch t' = allocation_entries tb epoch t @ [r] \<and>
      ea_pre_hash r = tip ea_hash allocation_genesis (allocation_entries tb epoch t) \<and> ea_hash r = h \<and>
      ea_hash r = allocation_digest sha256 r
    else allocation_entries tb epoch t' = allocation_entries tb epoch t)"
proof -
  let ?am = "\<lambda>h. \<lparr>ea_id = 0, ea_epoch = e, ea_round = rnd, ea_address = address, ea_weight = weight,
    ea_amount = amount, ea_pre_hash = tip ea_hash allocation_genesis (allocation_entries tb e t),
    ea_hash = h, ea_created_at = ts\<rparr>"
  obtain r' where h: "h = allocation_digest sha256 (?am [])" and r': "tb_insert tb (?am h) t = Some (r', t')"
    using ins newest_hash [OF ok, where P = "\<lambda>r. ea_epoch r = e" and g = allocation_genesis and hsh = ea_hash]
    by (auto simp: allocation_insert_def allocation_last_hash_def db_results db_simps Let_def split: if_splits)
  have "allocation_digest sha256 (?am h\<lparr>ea_id := i\<rparr>) = h" for i
    unfolding h by (simp add: allocation_digest_def)
  then show ?thesis
    using insert_in_order [OF ok r', of "\<lambda>r. ea_epoch r = epoch"] by auto
qed

lemma allocation_insert_err:
  "allocation_insert sha256 tb ts epoch rnd address weight amount t = (Inl e, t') \<Longrightarrow> t' = t"
  by (auto simp: allocation_insert_def allocation_last_hash_def db_results db_simps Let_def split: if_splits)

interpretation allocation_log: chained_log "allocations_ok tb" "allocation_entries tb epoch" ea_pre_hash ea_hash
  "\<lambda>r. ea_hash r = allocation_digest sha256 r" allocation_genesis
  "\<lambda>(ts, e, rnd, address, weight, amount). allocation_insert sha256 tb ts e rnd address weight amount"
proof (unfold_locales, goal_cases)
  case (1 s x h s')
  obtain ts e rnd address weight amount where x: "x = (ts, e, rnd, address, weight, amount)" by (metis prod_cases6)
  show ?case
    using allocation_insert_ok [OF 1(1), of sha256 ts e rnd address weight amount h s' epoch] 1(2)
    by (auto simp: x split: if_splits)
qed (auto dest: allocation_insert_err)

subsection \<open>Hashes determine the history\<close>

lemma digit_char_inj16:
  assumes "a < 16" "b < 16" "digit_char a = digit_char b"
  shows "a = b"
proof -
  have "Some a = to_digit 16 (digit_char a)" using assms(1) by (subst to_digit_digit_char) simp_all
  also have "\<dots> = Some b" using assms(2) by (subst assms(3), subst to_digit_digit_char) simp_all
  finally show ?thesis by simp
qed

lemma hex_bytes_inj: "hex_bytes xs = hex_bytes ys \<Longrightarrow> xs = ys"
proof (induction xs arbitrary: ys)
  case Nil
  then show ?case by (cases ys) (auto simp: hex_bytes_def)
next
  case (Cons x xs)
  from Cons.prems obtain y ys' where ys: "ys = y # ys'" by (cases ys) (auto simp: hex_bytes_def)
  have lt: "unat z div 16 < 16" "unat z mod 16 < 16" for z :: u8
  proof -
    have "unat z < 2 ^ LENGTH(8)" by (rule unsigned_less)
    then show "unat z div 16 < 16" "unat z mod 16 < 16" by simp_all
  qed
  have "unat x div 16 = unat y div 16" "unat x mod 16 = unat y mod 16" and rest: "hex_bytes xs = hex_bytes ys'"
    using Cons.prems lt by (auto simp: ys hex_bytes_def intro: digit_char_inj16)
  then have "unat x = unat y" by (metis div_mod_decomp)
  then have "x = y" by (simp add: unsigned_word_eqI)
  then show ?case using Cons.IH [OF rest] ys by simp
qed

lemma length_hex_bytes: "length (hex_bytes bs) = 2 * length bs"
  by (induction bs) (auto simp: hex_bytes_def)

text \<open>The hash does not separate its fields: the boundary between sender and receiver is lost.\<close>

lemma tx_digest_ambiguous:
  "tx_digest sha256 (r\<lparr>tx_from_address := x @ y, tx_to_address := z\<rparr>) =
   tx_digest sha256 (r\<lparr>tx_from_address := x, tx_to_address := y @ z\<rparr>)"
  by (simp add: tx_digest_def tx_body_def)

lemma verify_chain_linked:
  assumes "tb_up tb t"
  shows "allocation_verify_chain tb epoch t =
    (Inr (linked ea_pre_hash ea_hash allocation_genesis (allocation_entries tb epoch t)), t)"
  using assms linked_iff [of ea_pre_hash ea_hash allocation_genesis "allocation_entries tb epoch t"]
  by (auto simp: allocation_verify_chain_def allocation_get_by_epoch_def db_bind_apply db_simps in_order_def
      list_all_iff)

subsection \<open>Pages of transactions\<close>

text \<open>
  As long as the offset does not wrap, page \<open>p\<close> is the \<open>p\<close>-th slice of the newest-first
  list, so consecutive pages put together give the list back.
\<close>

lemma take_drop_slices: "concat (map (\<lambda>i. take n (drop (i * n) xs)) [0..<k]) = take (k * n) xs"
proof (induction k)
  case (Suc k)
  have "take (Suc k * n) xs = take (k * n) xs @ take n (drop (k * n) xs)"
    by (metis add.commute mult_Suc take_add)
  then show ?case using Suc by simp
qed simp

lemma tx_page_slice:
  assumes "tb_up tb t" "txs_ok tb t" "0 < page" "unat (page - 1) * unat per_page < 2 ^ 64"
  shows "tx_get_page tb page per_page t =
    (Inr (take (unat per_page) (drop (unat (page - 1) * unat per_page) (rev (tx_entries tb t)))), t)"
proof -
  have "unat ((page - 1) * per_page) = unat (page - 1) * unat per_page"
    using assms(4) by (subst unat_mult_lem [THEN iffD1]) auto
  then show ?thesis
    using assms sort_key_desc [of tx_id "tb_rows tb t"]
    by (auto simp: tx_get_page_def Let_def db_bind_apply db_simps rows_ok_def in_order_def word_gt_0)
qed

subsection \<open>Properties\<close>

definition demo_txs :: "tx_row list txs" where
  "demo_txs = list_table tx_id (\<lambda>i r. r\<lparr>tx_id := i\<rparr>) (\<lambda>_ _. False)"

definition demo_allocations :: "allocation_row list allocations" where
  "demo_allocations = list_table ea_id (\<lambda>i r. r\<lparr>ea_id := i\<rparr>) (\<lambda>_ _. False)"

definition demo_tx :: tx_input where
  "demo_tx = \<lparr>ti_epoch = 0, ti_cycle = 3, ti_kind = Mint, ti_from = ''genesis'', ti_to = ''alice'',
     ti_amount = 1000, ti_shard_key = ''2025-01-01''\<rparr>"

definition demo_sha :: "bytes \<Rightarrow> bytes" where
  "demo_sha b = replicate 32 7"

definition demo_tx_row :: tx_row where
  "demo_tx_row = (let r = \<lparr>tx_id = 1, tx_epoch = 0, tx_cycle = 3, tx_kind = Mint,
     tx_from_address = ''genesis'', tx_to_address = ''alice'', tx_amount = ''1000'', tx_timestamp = 5,
     tx_pre_hash = genesis_pre_hash, tx_hash = [], tx_shard_key = ''2025-01-01''\<rparr>
     in r\<lparr>tx_hash := tx_digest demo_sha r\<rparr>)"

lemma demo_table_rows [simp]:
  "tb_rows demo_txs t = t" "tb_rows demo_allocations t' = t'" "tb_up demo_txs t" "tb_up demo_allocations t'"
  by (simp_all add: demo_txs_def demo_allocations_def list_table_def)

lemma demo_tables_ok:
  "table_ok demo_txs tx_id (\<lambda>i r. r\<lparr>tx_id := i\<rparr>)"
  "table_ok demo_allocations ea_id (\<lambda>i r. r\<lparr>ea_id := i\<rparr>)"
  unfolding demo_txs_def demo_allocations_def by (rule list_table_ok)+

text \<open>
  C17. Whatever sequence of insertions is tried on an empty transaction table, the
  transactions in id order form one chain: the first names the genesis hash, every other the
  hash of its predecessor, each carries the hash of its own contents, and reading all
  transactions returns them in this order.
\<close>

theorem transactions_chained:
  assumes "table_ok tb tx_id (\<lambda>i r. r\<lparr>tx_id := i\<rparr>)" "tb_rows tb t = []"
    and "t' = fold (\<lambda>(ts, x) t. snd (tx_insert_with_next_hash sha256 tb ts x t)) xs t"
  shows "linked tx_pre_hash tx_hash genesis_pre_hash (tx_entries tb t') \<and>
    list_all (\<lambda>r. tx_hash r = tx_digest sha256 r) (tx_entries tb t') \<and>
    (tb_up tb t' \<longrightarrow> tx_get_all tb t' = (Inr (tx_entries tb t'), t') \<and>
      tx_last_hash tb t' = (Inr (tip tx_hash genesis_pre_hash (tx_entries tb t')), t'))"
proof -
  have ok: "txs_ok tb t" "tx_entries tb t = []" using assms(1,2) by (simp_all add: rows_ok_def in_order_def)
  have "t' = fold (\<lambda>x t. snd ((case x of (ts, x) \<Rightarrow> tx_insert_with_next_hash sha256 tb ts x) t)) xs t"
    unfolding assms(3) by (rule arg_cong2 [where f = "\<lambda>f. fold f xs"]) (auto simp: fun_eq_iff)
  then have t': "txs_ok tb t'" "linked tx_pre_hash tx_hash genesis_pre_hash (tx_entries tb t')"
    "list_all (\<lambda>r. tx_hash r = tx_digest sha256 r) (tx_entries tb t')"
    using tx_log.appends_linked [OF ok(1), of sha256 xs] ok(2) by auto
  then show ?thesis
    using newest_hash [OF t'(1), where P = "\<lambda>_. True" and g = genesis_pre_hash and hsh = tx_hash]
    by (simp add: tx_get_all_def tx_last_hash_def db_bind_apply db_simps in_order_def)
qed

theorem transactions_chained_witness:
  "linked tx_pre_hash tx_hash genesis_pre_hash (tx_entries demo_txs
     (fold (\<lambda>(ts, x) t. snd (tx_insert_with_next_hash demo_sha demo_txs ts x t))
        [(5, demo_tx), (6, demo_tx)] []))"
  using transactions_chained [OF demo_tables_ok(1) _ refl, of "[]" demo_sha "[(5, demo_tx), (6, demo_tx)]"]
  by (simp add: demo_table_rows)

text \<open>
  C19. The allocations of an epoch always verify: after any sequence of insertions into any
  epochs, starting from an empty table, \<open>verify_chain\<close> answers true for every epoch.
\<close>

theorem allocation_chain_verifies:
  assumes "table_ok tb ea_id (\<lambda>i r. r\<lparr>ea_id := i\<rparr>)" "tb_rows tb t = []"
    and "t' = fold (\<lambda>(ts, e, rnd, address, weight, amount) t.
        snd (allocation_insert sha256 tb ts e rnd address weight amount t)) xs t"
    and "tb_up tb t'"
  shows "allocation_verify_chain tb epoch t' = (Inr True, t')"
proof -
  have ok: "allocations_ok tb t" "allocation_entries tb epoch t = []"
    using assms(1,2) by (simp_all add: rows_ok_def in_order_def)
  have "t' = fold (\<lambda>x t. snd ((case x of (ts, e, rnd, address, weight, amount) \<Rightarrow>
      allocation_insert sha256 tb ts e rnd address weight amount) t)) xs t"
    unfolding assms(3) by (rule arg_cong2 [where f = "\<lambda>f. fold f xs"]) (auto simp: fun_eq_iff)
  then have "linked ea_pre_hash ea_hash allocation_genesis (allocation_entries tb epoch t')"
    using allocation_log.appends_linked [OF ok(1), of epoch sha256 xs] ok(2) by auto
  then show ?thesis using verify_chain_linked [OF assms(4)] by simp
qed

theorem allocation_chain_verifies_witness:
  "fst (allocation_verify_chain demo_allocations 7
     (fold (\<lambda>(ts, e, rnd, address, weight, amount) t.
        snd (allocation_insert demo_sha demo_allocations ts e rnd address weight amount t))
        [(1, 7, 0, ''a'', ''1'', ''10''), (2, 8, 0, ''b'', ''1'', ''10''), (3, 7, 1, ''c'', ''2'', ''20'')] [])) =
     Inr True"
  using allocation_chain_verifies [OF demo_tables_ok(2) _ refl, of "[]" demo_sha
      "[(1, 7, 0, ''a'', ''1'', ''10''), (2, 8, 0, ''b'', ''1'', ''10''), (3, 7, 1, ''c'', ''2'', ''20'')]" 7]
  by (simp only: demo_table_rows fst_conv)

text \<open>
  C29. Two nodes whose transaction tables have the same number of rows and report the same
  last hash hold the same history of hashed contents, as long as SHA-256 does not collide on
  what they hashed.
\<close>

theorem equal_hash_equal_history:
  assumes chain: "linked tx_pre_hash tx_hash genesis_pre_hash xs" "linked tx_pre_hash tx_hash genesis_pre_hash ys"
    and hashed: "\<forall>r \<in> set xs \<union> set ys. tx_hash r = tx_digest sha256 r"
    and sha: "\<forall>b. length (sha256 b) = 32"
      "inj_on sha256 ((\<lambda>r. as_bytes (tx_pre_hash r) @ tx_body r) ` (set xs \<union> set ys))"
    and same: "length xs = length ys" "tip tx_hash genesis_pre_hash xs = tip tx_hash genesis_pre_hash ys"
  shows "map tx_body xs = map tx_body ys \<and> map tx_hash xs = map tx_hash ys"
proof (rule same_tip_same_history [OF _ _ chain same])
  fix r r' assume r: "r \<in> set xs" "r' \<in> set ys"
  show "length (tx_hash r) = length (tx_hash r')"
    using r hashed sha(1) by (simp add: tx_digest_def length_hex_bytes)
  assume h: "tx_hash r = tx_hash r'" and l: "length (tx_pre_hash r) = length (tx_pre_hash r')"
  have "sha256 (as_bytes (tx_pre_hash r) @ tx_body r) = sha256 (as_bytes (tx_pre_hash r') @ tx_body r')"
    using r hashed h by (auto simp: tx_digest_def dest: hex_bytes_inj)
  then have "as_bytes (tx_pre_hash r) @ tx_body r = as_bytes (tx_pre_hash r') @ tx_body r'"
    using sha(2) r by (auto dest: inj_onD)
  then show "tx_pre_hash r = tx_pre_hash r' \<and> tx_body r = tx_body r'"
    using l by (simp add: as_bytes_inj)
qed

theorem equal_hash_equal_history_witness:
  "map tx_body [demo_tx_row] = map tx_body [demo_tx_row\<lparr>tx_timestamp := 99\<rparr>]"
proof -
  have p: "tx_pre_hash demo_tx_row = genesis_pre_hash" "tx_hash demo_tx_row = tx_digest demo_sha demo_tx_row"
    by (simp_all add: demo_tx_row_def Let_def tx_digest_def tx_body_def)
  have b: "tx_body (demo_tx_row\<lparr>tx_timestamp := 99\<rparr>) = tx_body demo_tx_row" by (simp add: tx_body_def)
  have "map tx_body [demo_tx_row] = map tx_body [demo_tx_row\<lparr>tx_timestamp := 99\<rparr>] \<and>
      map tx_hash [demo_tx_row] = map tx_hash [demo_tx_row\<lparr>tx_timestamp := 99\<rparr>]"
    by (rule equal_hash_equal_history [where ?sha256.0 = demo_sha])
      (simp_all add: p b tip_def tx_digest_def demo_sha_def)
  then show ?thesis by simp
qed

end
