(* ===== verification/MetaStore.thy ===== *)
theory MetaStore
  imports Store
begin

text \<open>
  The key-value table of \<^verbatim>\<open>src/db/entity/meta\<close> and the network names of
  \<^verbatim>\<open>src/network_type.rs\<close>. The store is an instance of \<open>kv_store\<close>; the two
  write-once entries, the genesis mark and the network, are shown to be written at most once
  however the statements of concurrent callers interleave, because the key column is unique.
\<close>

subsection \<open>Network names\<close>

datatype network_type = NetTest | NetGray | NetMain | NetFuture

fun network_as_str :: "network_type \<Rightarrow> string" where
  "network_as_str NetTest = ''test''"
| "network_as_str NetGray = ''gray''"
| "network_as_str NetMain = ''main''"
| "network_as_str NetFuture = ''future''"

definition network_is :: "network_type \<Rightarrow> network_type \<Rightarrow> bool" where
  "network_is self v \<longleftrightarrow> self = v"

definition network_from_str :: "string \<Rightarrow> store_error + network_type" where
  "network_from_str s =
     (if s = ''test'' then Inr NetTest
      else if s = ''gray'' then Inr NetGray
      else if s = ''main'' then Inr NetMain
      else if s = ''future'' then Inr NetFuture
      else Inl (Rejected (''unknown network state: '' @ s)))"

subsection \<open>Keys\<close>

datatype meta_key = GenesisApplied | NetworkType

fun meta_key_as_str :: "meta_key \<Rightarrow> string" where
  "meta_key_as_str GenesisApplied = ''genesis_applied''"
| "meta_key_as_str NetworkType = ''network_type''"

definition meta_key_from_str :: "string \<Rightarrow> store_error + meta_key" where
  "meta_key_from_str s =
     (if s = ''genesis_applied'' then Inr GenesisApplied else Inl (Rejected (''unknown meta key: '' @ s)))"

subsection \<open>The store\<close>

record meta_row =
  mt_id :: int
  mt_key :: string
  mt_value :: string

type_synonym 't metas = "('t, meta_row) table_ops"

definition meta_find :: "'t metas \<Rightarrow> meta_key \<Rightarrow> ('t, meta_row option) db_op" where
  "meta_find tb key = db_one tb (\<lambda>r. mt_key r = meta_key_as_str key)"

definition meta_model :: "meta_key \<Rightarrow> string \<Rightarrow> meta_row" where
  "meta_model key v = \<lparr>mt_id = 0, mt_key = meta_key_as_str key, mt_value = v\<rparr>"

definition meta_set :: "'t metas \<Rightarrow> meta_key \<Rightarrow> string \<Rightarrow> ('t, unit) db_op" where
  "meta_set tb key v =
     db_bind (meta_find tb key) (\<lambda>found.
       case found of
         Some existing \<Rightarrow> db_bind (db_update tb (existing\<lparr>mt_value := v\<rparr>)) (\<lambda>_. db_ok ())
       | None \<Rightarrow> db_bind (db_insert tb (meta_model key v)) (\<lambda>_. db_ok ()))"

definition meta_get :: "'t metas \<Rightarrow> meta_key \<Rightarrow> ('t, string option) db_op" where
  "meta_get tb key = db_bind (meta_find tb key) (\<lambda>found. db_ok (map_option mt_value found))"

definition meta_exists :: "'t metas \<Rightarrow> meta_key \<Rightarrow> ('t, bool) db_op" where
  "meta_exists tb key = db_bind (meta_get tb key) (\<lambda>v. db_ok (v \<noteq> None))"

definition mark_genesis_applied :: "'t metas \<Rightarrow> ('t, unit) db_op" where
  "mark_genesis_applied tb =
     db_bind (meta_find tb GenesisApplied) (\<lambda>found.
       case found of
         Some _ \<Rightarrow> db_err (Rejected ''genesis already applied'')
       | None \<Rightarrow> db_bind (db_insert tb (meta_model GenesisApplied ''true'')) (\<lambda>_. db_ok ()))"

definition set_network :: "'t metas \<Rightarrow> network_type \<Rightarrow> ('t, unit) db_op" where
  "set_network tb network =
     db_bind (meta_find tb NetworkType) (\<lambda>found.
       case found of
         Some _ \<Rightarrow> db_err (Rejected ''network already set'')
       | None \<Rightarrow> db_bind (db_insert tb (meta_model NetworkType (network_as_str network))) (\<lambda>_. db_ok ()))"

definition get_network :: "'t metas \<Rightarrow> ('t, network_type) db_op" where
  "get_network tb =
     db_bind (meta_find tb NetworkType) (\<lambda>found.
       case found of
         None \<Rightarrow> db_err (Rejected ''network not set'')
       | Some r \<Rightarrow> (case network_from_str (mt_value r) of Inr n \<Rightarrow> db_ok n | Inl e \<Rightarrow> db_err e))"

subsection \<open>The store as a map\<close>

definition metas_ok :: "'t metas \<Rightarrow> 't \<Rightarrow> bool" where
  "metas_ok tb t \<longleftrightarrow>
     table_ok tb mt_id (\<lambda>i r. r\<lparr>mt_id := i\<rparr>) \<and> distinct (map mt_id (tb_rows tb t)) \<and>
     distinct (map mt_key (tb_rows tb t))"

definition meta_val :: "'t metas \<Rightarrow> 't \<Rightarrow> meta_key \<Rightarrow> string option" where
  "meta_val tb t key = map_option mt_value (find (\<lambda>r. mt_key r = meta_key_as_str key) (tb_rows tb t))"

lemma network_from_as_str [simp]: "network_from_str (network_as_str n) = Inr n"
  by (cases n) (simp_all add: network_from_str_def)

lemma meta_key_as_str_inj [simp]: "meta_key_as_str k = meta_key_as_str k' \<longleftrightarrow> k = k'"
  by (cases k; cases k') simp_all

lemma meta_get_eq: "meta_get tb k t = (if tb_up tb t then Inr (meta_val tb t k) else Inl DbErr, t)"
  by (simp add: meta_get_def meta_find_def db_bind_apply db_simps meta_val_def)

lemma meta_insert_ok:
  assumes ok: "metas_ok tb t" and none: "meta_val tb t k = None"
    and ins: "tb_insert tb (meta_model k v) t = Some (r', t')"
  shows "metas_ok tb t' \<and> meta_val tb t' = (meta_val tb t)(k := Some v)"
proof -
  have new: "mt_key (meta_model k v) \<notin> mt_key ` set (tb_rows tb t)"
    using none find_key_None [of mt_key "meta_key_as_str k" "tb_rows tb t"]
    by (auto simp: meta_val_def meta_model_def)
  have tb: "table_ok tb mt_id (\<lambda>i r. r\<lparr>mt_id := i\<rparr>)"
    and d: "distinct (map mt_id (tb_rows tb t))" "distinct (map mt_key (tb_rows tb t))"
    using ok by (auto simp: metas_ok_def)
  obtain i where r': "r' = (meta_model k v)\<lparr>mt_id := i\<rparr>" by (rule insert_rows [OF tb ins])
  note f = insert_find [where key = mt_key, OF tb ins _ _ d new]
  have "meta_val tb t' k' = ((meta_val tb t)(k := Some v)) k'" for k'
    using f(3) by (simp add: meta_val_def r' meta_model_def)
  then show ?thesis using f(1,2) tb by (auto simp: metas_ok_def)
qed

lemma meta_update_ok:
  assumes ok: "metas_ok tb t" and found: "find (\<lambda>r. mt_key r = meta_key_as_str k) (tb_rows tb t) = Some r"
    and upd: "tb_update tb (r\<lparr>mt_value := v\<rparr>) t = Some t'"
  shows "metas_ok tb t' \<and> meta_val tb t' = (meta_val tb t)(k := Some v)"
proof -
  have tb: "table_ok tb mt_id (\<lambda>i r. r\<lparr>mt_id := i\<rparr>)"
    and d: "distinct (map mt_id (tb_rows tb t))" "distinct (map mt_key (tb_rows tb t))"
    using ok by (auto simp: metas_ok_def)
  have r: "r \<in> set (tb_rows tb t)" "mt_key r = meta_key_as_str k" using found find_unique [OF d(2)] by auto
  note f = update_find [where key = mt_key, OF tb upd r(1) _ _ d]
  have "meta_val tb t' k' = ((meta_val tb t)(k := Some v)) k'" for k'
    using f(3) r(2) by (simp add: meta_val_def)
  then show ?thesis using f(1,2) tb by (auto simp: metas_ok_def)
qed

lemma meta_set_ok:
  assumes "metas_ok tb t" "meta_set tb k v t = (Inr u, t')"
  shows "metas_ok tb t' \<and> meta_val tb t' = (meta_val tb t)(k := Some v)"
proof (cases "find (\<lambda>r. mt_key r = meta_key_as_str k) (tb_rows tb t)")
  case None
  then obtain r' where "tb_insert tb (meta_model k v) t = Some (r', t')"
    using assms(2) by (auto simp: meta_set_def meta_find_def db_results db_simps split: if_splits)
  with meta_insert_ok [OF assms(1)] None show ?thesis by (simp add: meta_val_def)
next
  case (Some r)
  then have "tb_update tb (r\<lparr>mt_value := v\<rparr>) t = Some t'"
    using assms(2) by (auto simp: meta_set_def meta_find_def db_results db_simps split: if_splits)
  with meta_update_ok [OF assms(1) Some] show ?thesis by blast
qed

lemma meta_set_err: "meta_set tb k v t = (Inl e, t') \<Longrightarrow> t' = t"
  by (auto simp: meta_set_def meta_find_def db_results db_simps split: if_splits option.splits)

interpretation meta: kv_store "metas_ok tb" "meta_val tb" Some "\<lambda>_ :: unit. meta_set tb"
  by unfold_locales (auto dest: meta_set_ok meta_set_err)

subsection \<open>Interleaved callers\<close>

text \<open>
  Callers share the table and each operation is several statements, so other statements may
  fall between the query of an operation and its write. A state is the table together with
  the rows some caller has read; a run lists the keys whose insertion went through. An
  update writes back a row that was read earlier, however old.
\<close>

inductive meta_run ::
  "'t metas \<Rightarrow> 't \<times> meta_row set \<Rightarrow> meta_key list \<Rightarrow> 't \<times> meta_row set \<Rightarrow> bool" for tb where
  run_nil: "meta_run tb s [] s"
| run_read: "meta_run tb (t, known \<union> set (tb_rows tb t)) ks s \<Longrightarrow> meta_run tb (t, known) ks s"
| run_insert: "tb_insert tb (meta_model k v) t = Some (r, t') \<Longrightarrow> meta_run tb (t', known) ks s \<Longrightarrow>
    meta_run tb (t, known) (k # ks) s"
| run_update: "x \<in> known \<Longrightarrow> tb_update tb (x\<lparr>mt_value := v\<rparr>) t = Some t' \<Longrightarrow>
    meta_run tb (t', known) ks s \<Longrightarrow> meta_run tb (t, known) ks s"

definition stale_ok :: "'t metas \<Rightarrow> 't \<times> meta_row set \<Rightarrow> bool" where
  "stale_ok tb s \<longleftrightarrow>
     metas_ok tb (fst s) \<and>
     (\<forall>x \<in> snd s. \<exists>y \<in> set (tb_rows tb (fst s)). mt_id y = mt_id x \<and> mt_key y = mt_key x)"

definition meta_keys :: "'t metas \<Rightarrow> 't \<Rightarrow> string set" where
  "meta_keys tb t = mt_key ` set (tb_rows tb t)"

lemma meta_keys_val: "meta_val tb t k = None \<longleftrightarrow> meta_key_as_str k \<notin> meta_keys tb t"
  by (simp add: meta_val_def meta_keys_def find_key_None)

lemma stale_insert:
  assumes "stale_ok tb (t, known)" "unique_column tb mt_key" "tb_insert tb (meta_model k v) t = Some (r, t')"
  shows "stale_ok tb (t', known)" "meta_keys tb t' = insert (meta_key_as_str k) (meta_keys tb t)"
    "meta_key_as_str k \<notin> meta_keys tb t"
proof -
  have ok: "metas_ok tb t" and tb: "table_ok tb mt_id (\<lambda>i r. r\<lparr>mt_id := i\<rparr>)"
    using assms(1) by (auto simp: stale_ok_def metas_ok_def)
  show new: "meta_key_as_str k \<notin> meta_keys tb t"
    using assms(2,3) unfolding unique_column_def meta_keys_def
    by (metis meta_model_def meta_row.select_convs(2))
  obtain i where i: "r = (meta_model k v)\<lparr>mt_id := i\<rparr>" "mset (tb_rows tb t') = mset (r # tb_rows tb t)"
    by (rule insert_rows [OF tb assms(3)])
  have rows: "set (tb_rows tb t') = insert r (set (tb_rows tb t))" using mset_eq_setD [OF i(2)] by simp
  show "meta_keys tb t' = insert (meta_key_as_str k) (meta_keys tb t)"
    by (simp add: meta_keys_def rows i(1) meta_model_def)
  have "metas_ok tb t'" using meta_insert_ok [OF ok _ assms(3)] new by (simp add: meta_keys_val)
  then show "stale_ok tb (t', known)" using assms(1) rows by (auto simp: stale_ok_def)
qed

lemma stale_update:
  assumes st: "stale_ok tb (t, known)" and x: "x \<in> known" and upd: "tb_update tb (x\<lparr>mt_value := v\<rparr>) t = Some t'"
  shows "stale_ok tb (t', known)" "meta_keys tb t' = meta_keys tb t"
proof -
  let ?x = "x\<lparr>mt_value := v\<rparr>"
  have ok: "metas_ok tb t" and tb: "table_ok tb mt_id (\<lambda>i r. r\<lparr>mt_id := i\<rparr>)"
    and d: "distinct (map mt_id (tb_rows tb t))" "distinct (map mt_key (tb_rows tb t))"
    using st by (auto simp: stale_ok_def metas_ok_def)
  obtain y where y: "y \<in> set (tb_rows tb t)" "mt_id y = mt_id x" "mt_key y = mt_key x"
    using st x unfolding stale_ok_def by auto
  have same: "z = y" if "z \<in> set (tb_rows tb t)" "mt_id z = mt_id x" for z
    using that y d(1) by (metis distinct_map inj_onD)
  have m: "mset (tb_rows tb t') = mset (map (\<lambda>z. if mt_id z = mt_id ?x then ?x else z) (tb_rows tb t))"
    using tb upd by (auto simp: table_ok_def update_law_def)
  have rows: "set (tb_rows tb t') = (\<lambda>z. if mt_id z = mt_id ?x then ?x else z) ` set (tb_rows tb t)"
    using mset_eq_setD [OF m] by simp
  let ?u = "\<lambda>z. if mt_id z = mt_id ?x then ?x else z"
  have u: "mt_key (?u z) = mt_key z \<and> mt_id (?u z) = mt_id z" if "z \<in> set (tb_rows tb t)" for z
  proof (cases "mt_id z = mt_id x")
    case True
    with same [OF that] y(3) show ?thesis by simp
  qed simp
  show "meta_keys tb t' = meta_keys tb t"
    unfolding meta_keys_def rows image_image by (intro image_cong) (simp_all only: u)
  have "metas_ok tb t'"
    using update_find(1,2) [where key = mt_key, OF tb upd y(1) _ _ d] y tb by (simp add: metas_ok_def)
  moreover have "\<exists>z' \<in> set (tb_rows tb t'). mt_id z' = mt_id z \<and> mt_key z' = mt_key z"
    if "z \<in> set (tb_rows tb t)" for z
    using u [OF that] that unfolding rows by blast
  ultimately show "stale_ok tb (t', known)" using st unfolding stale_ok_def by (metis fst_conv snd_conv)
qed

lemma meta_run_fresh:
  assumes "meta_run tb s ks s'" "unique_column tb mt_key" "stale_ok tb s"
  shows "stale_ok tb s' \<and> distinct ks \<and> meta_key_as_str ` set ks \<inter> meta_keys tb (fst s) = {} \<and>
    meta_keys tb (fst s') = meta_keys tb (fst s) \<union> meta_key_as_str ` set ks"
  using assms
proof (induction rule: meta_run.induct)
  case (run_read t known ks s)
  have "stale_ok tb (t, known \<union> set (tb_rows tb t))" using run_read.prems(2) by (auto simp: stale_ok_def)
  then show ?case using run_read by simp
next
  case (run_insert k v t r t' known ks s)
  note st = stale_insert [OF run_insert.prems(2,1) run_insert.hyps(1)]
  show ?case using run_insert.IH [OF run_insert.prems(1) st(1)] st(2,3) by auto
next
  case (run_update x known v t t' ks s)
  note st = stale_update [OF run_update.prems(2) run_update.hyps(1,2)]
  show ?case using run_update.IH [OF run_update.prems(1) st(1)] st(2) by simp
qed simp

lemma mark_genesis_Inr:
  "mark_genesis_applied tb t = (Inr u, t') \<longleftrightarrow>
     tb_up tb t \<and> meta_val tb t GenesisApplied = None \<and>
     (\<exists>r. tb_insert tb (meta_model GenesisApplied ''true'') t = Some (r, t'))"
  by (auto simp: mark_genesis_applied_def meta_find_def meta_val_def db_results db_simps
      split: if_splits option.splits)

lemma set_network_Inr:
  "set_network tb n t = (Inr u, t') \<longleftrightarrow>
     tb_up tb t \<and> meta_val tb t NetworkType = None \<and>
     (\<exists>r. tb_insert tb (meta_model NetworkType (network_as_str n)) t = Some (r, t'))"
  by (auto simp: set_network_def meta_find_def meta_val_def db_results db_simps
      split: if_splits option.splits)

text \<open>The network that was set is the one that is read, as long as nothing else writes the key.\<close>

lemma network_roundtrip:
  assumes "metas_ok tb t" "set_network tb n t = (Inr u, t')" "tb_up tb t'"
  shows "get_network tb t' = (Inr n, t')"
proof -
  obtain r where "meta_val tb t NetworkType = None"
    "tb_insert tb (meta_model NetworkType (network_as_str n)) t = Some (r, t')"
    using assms(2) by (auto simp: set_network_Inr)
  then have "meta_val tb t' NetworkType = Some (network_as_str n)"
    using meta_insert_ok [OF assms(1)] by auto
  then show ?thesis
    using assms(3) by (auto simp: get_network_def meta_find_def meta_val_def db_bind_apply db_simps)
qed

text \<open>The name of the second key is not recognised by the parser of keys.\<close>

lemma meta_key_not_parsed: "isl (meta_key_from_str (meta_key_as_str NetworkType))"
  by (simp add: meta_key_from_str_def)

subsection \<open>Properties\<close>

definition demo_metas :: "meta_row list metas" where
  "demo_metas = list_table mt_id (\<lambda>i r. r\<lparr>mt_id := i\<rparr>) (\<lambda>r t. mt_key r \<in> mt_key ` set t)"

text \<open>
  C18. Genesis is applied at most once: after one caller has marked it, no statement of any
  other caller marks it again, not even of a caller whose query found no mark before, and
  every later call is refused.
\<close>

theorem genesis_applied_once:
  assumes "metas_ok tb t" "unique_column tb mt_key" "mark_genesis_applied tb t = (Inr u, t1)"
    and "known \<subseteq> set (tb_rows tb t)" "meta_run tb (t1, known) ks (t2, known')"
  shows "GenesisApplied \<notin> set ks \<and> meta_val tb t2 GenesisApplied \<noteq> None \<and>
    snd (mark_genesis_applied tb t2) = t2 \<and>
    fst (mark_genesis_applied tb t2) = (if tb_up tb t2 then Inl (Rejected ''genesis already applied'') else Inl DbErr)"
proof -
  obtain r where ins: "tb_insert tb (meta_model GenesisApplied ''true'') t = Some (r, t1)"
    using assms(3) by (auto simp: mark_genesis_Inr)
  have "stale_ok tb (t, known)" using assms(1,4) by (auto simp: stale_ok_def)
  note st = stale_insert [OF this assms(2) ins]
  from meta_run_fresh [OF assms(5,2) st(1)]
  have "GenesisApplied \<notin> set ks" and val: "meta_val tb t2 GenesisApplied \<noteq> None"
    using st(2) by (auto simp: meta_keys_val image_iff)
  then show ?thesis
    by (auto simp: mark_genesis_applied_def meta_find_def meta_val_def db_bind_apply db_simps)
qed

theorem genesis_applied_once_witness:
  "fst (mark_genesis_applied demo_metas (snd (mark_genesis_applied demo_metas []))) =
     Inl (Rejected ''genesis already applied'')"
proof -
  let ?t = "[(meta_model GenesisApplied ''true'')\<lparr>mt_id := 1\<rparr>]"
  have m: "mark_genesis_applied demo_metas [] = (Inr (), ?t)"
    by (simp add: mark_genesis_applied_def meta_find_def db_bind_apply db_simps db_insert_def demo_metas_def
        list_table_def Let_def)
  have ok: "metas_ok demo_metas []" "unique_column demo_metas mt_key"
    using list_table_ok by (auto simp: metas_ok_def unique_column_def demo_metas_def list_table_def
        split: if_splits)
  have up: "tb_up demo_metas ?t" by (simp add: demo_metas_def list_table_def)
  show ?thesis
    using genesis_applied_once [OF ok m _ run_nil, of "{}"] m up by simp
qed

end
