(* ===== verification/Epochs.thy ===== *)
theory Epochs
  imports Store
begin

text \<open>
  The stores of an epoch: epochs (\<^verbatim>\<open>src/db/entity/epoch\<close>), their rewards
  (\<^verbatim>\<open>epoch_reward\<close>) and the ticks each witness attended (\<^verbatim>\<open>witness_tick_record\<close>).
  Shown: epochs opened through \<open>get_current_or_create\<close> are numbered without gaps and
  only the newest can be open; a tick record counts the calls made for it, modulo its width.
\<close>

subsection \<open>Epochs\<close>

record epoch_row =
  ep_id :: int
  ep_day :: i64
  ep_start_time :: i64
  ep_end_time :: "i64 option"
  ep_tick_count :: u8
  ep_total_reward :: string
  ep_settled :: bool
  ep_pre_hash :: string
  ep_hash :: string

type_synonym 't epochs = "('t, epoch_row) table_ops"

definition epoch_get_by_index :: "'t epochs \<Rightarrow> i64 \<Rightarrow> ('t, epoch_row option) db_op" where
  "epoch_get_by_index tb day = db_one tb (\<lambda>r. ep_day r = day)"

definition epoch_get_latest :: "'t epochs \<Rightarrow> ('t, epoch_row option) db_op" where
  "epoch_get_latest tb = db_bind (db_all tb (\<lambda>_. True)) (\<lambda>records. db_ok (max_by_key ep_day records))"

definition epoch_get_current :: "'t epochs \<Rightarrow> ('t, epoch_row option) db_op" where
  "epoch_get_current tb =
     db_bind (epoch_get_latest tb) (\<lambda>latest.
       db_ok (Option.bind latest (\<lambda>e. if \<not> ep_settled e then Some e else None)))"

definition epoch_insert :: "'t epochs \<Rightarrow> i64 \<Rightarrow> i64 \<Rightarrow> ('t, epoch_row) db_op" where
  "epoch_insert tb day start_time =
     db_insert tb \<lparr>ep_id = 0, ep_day = day, ep_start_time = start_time, ep_end_time = None,
       ep_tick_count = 0, ep_total_reward = [], ep_settled = False,
       ep_pre_hash = replicate 32 (CHR ''0''), ep_hash = []\<rparr>"

definition epoch_create :: "'t epochs \<Rightarrow> i64 \<Rightarrow> i64 \<Rightarrow> string \<Rightarrow> ('t, epoch_row) db_op" where
  "epoch_create tb now day pre_hash =
     db_insert tb \<lparr>ep_id = 0, ep_day = day, ep_start_time = now, ep_end_time = None,
       ep_tick_count = 0, ep_total_reward = [], ep_settled = False,
       ep_pre_hash = pre_hash, ep_hash = []\<rparr>"

definition epoch_not_found :: store_error where
  "epoch_not_found = Rejected ''Epoch not found''"

definition epoch_update_tick_count :: "'t epochs \<Rightarrow> i64 \<Rightarrow> u8 \<Rightarrow> ('t, unit) db_op" where
  "epoch_update_tick_count tb day tick_count =
     db_bind (epoch_get_by_index tb day) (\<lambda>found.
       case found of
         None \<Rightarrow> db_err epoch_not_found
       | Some r \<Rightarrow> db_bind (db_update tb (r\<lparr>ep_tick_count := tick_count\<rparr>)) (\<lambda>_. db_ok ()))"

definition epoch_finalize ::
  "'t epochs \<Rightarrow> i64 \<Rightarrow> i64 \<Rightarrow> string \<Rightarrow> u8 \<Rightarrow> string \<Rightarrow> ('t, unit) db_op" where
  "epoch_finalize tb now day hash tick_count total_reward =
     db_bind (epoch_get_by_index tb day) (\<lambda>found.
       case found of
         None \<Rightarrow> db_err epoch_not_found
       | Some r \<Rightarrow>
           db_bind (db_update tb (r\<lparr>ep_end_time := Some now, ep_tick_count := tick_count,
             ep_total_reward := total_reward, ep_settled := True, ep_hash := hash\<rparr>)) (\<lambda>_. db_ok ()))"

definition epoch_get_current_or_create :: "'t epochs \<Rightarrow> i64 \<Rightarrow> string \<Rightarrow> ('t, epoch_row) db_op" where
  "epoch_get_current_or_create tb now pre_hash =
     db_bind (epoch_get_latest tb) (\<lambda>latest.
       case latest of
         Some l \<Rightarrow> if \<not> ep_settled l then db_ok l
                    else epoch_create tb now (wrap_i64 (ep_day l + 1)) pre_hash
       | None \<Rightarrow> epoch_create tb now 0 pre_hash)"

subsection \<open>Rewards\<close>

record reward_row =
  rw_id :: int
  rw_epoch_id :: i64
  rw_address :: string
  rw_amount :: string

type_synonym 't rewards = "('t, reward_row) table_ops"

definition reward_insert :: "'t rewards \<Rightarrow> i64 \<Rightarrow> string \<Rightarrow> string \<Rightarrow> ('t, reward_row) db_op" where
  "reward_insert tb epoch_id address amount =
     db_insert tb \<lparr>rw_id = 0, rw_epoch_id = epoch_id, rw_address = address, rw_amount = amount\<rparr>"

definition reward_get_by_epoch :: "'t rewards \<Rightarrow> i64 \<Rightarrow> ('t, reward_row list) db_op" where
  "reward_get_by_epoch tb epoch_id = db_all tb (\<lambda>r. rw_epoch_id r = epoch_id)"

definition reward_get_by_address_and_epoch ::
  "'t rewards \<Rightarrow> i64 \<Rightarrow> string \<Rightarrow> ('t, reward_row option) db_op" where
  "reward_get_by_address_and_epoch tb epoch_id address =
     db_one tb (\<lambda>r. rw_epoch_id r = epoch_id \<and> rw_address r = address)"

definition reward_get_total_for_epoch :: "'t rewards \<Rightarrow> i64 \<Rightarrow> ('t, u64) db_op" where
  "reward_get_total_for_epoch tb epoch_id =
     db_bind (reward_get_by_epoch tb epoch_id) (\<lambda>records.
       db_ok (sum_list (List.map_filter (\<lambda>r. parse_u64 (rw_amount r)) records)))"

subsection \<open>Tick records\<close>

record tick_row =
  tr_id :: int
  tr_epoch :: i64
  tr_address :: string
  tr_tick_count :: u8
  tr_updated_at :: i64

type_synonym 't ticks = "('t, tick_row) table_ops"

definition increment_tick :: "'t ticks \<Rightarrow> i64 \<Rightarrow> i64 \<Rightarrow> string \<Rightarrow> ('t, unit) db_op" where
  "increment_tick tb now epoch address =
     db_bind (db_one tb (\<lambda>r. tr_epoch r = epoch \<and> tr_address r = address)) (\<lambda>found.
       case found of
         Some r \<Rightarrow>
           db_bind (db_update tb (r\<lparr>tr_tick_count := tr_tick_count r + 1, tr_updated_at := now\<rparr>))
             (\<lambda>_. db_ok ())
       | None \<Rightarrow>
           db_bind (db_insert tb \<lparr>tr_id = 0, tr_epoch = epoch, tr_address = address, tr_tick_count = 1,
             tr_updated_at = now\<rparr>) (\<lambda>_. db_ok ()))"

definition get_epoch_records :: "'t ticks \<Rightarrow> i64 \<Rightarrow> ('t, tick_row list) db_op" where
  "get_epoch_records tb epoch = db_sorted tb (\<lambda>r. tr_epoch r = epoch) (\<lambda>r. - int (unat (tr_tick_count r)))"

definition get_max_tick_count :: "'t ticks \<Rightarrow> i64 \<Rightarrow> ('t, u8) db_op" where
  "get_max_tick_count tb epoch =
     db_bind (get_epoch_records tb epoch) (\<lambda>rs.
       db_ok (case rs of [] \<Rightarrow> 0 | r # _ \<Rightarrow> tr_tick_count r))"

definition get_full_time_addresses :: "'t ticks \<Rightarrow> i64 \<Rightarrow> u8 \<Rightarrow> ('t, string list) db_op" where
  "get_full_time_addresses tb epoch threshold =
     db_bind (db_all tb (\<lambda>r. tr_epoch r = epoch \<and> threshold \<le> tr_tick_count r)) (\<lambda>rs.
       db_ok (map tr_address rs))"

definition tick_reset :: "'t ticks \<Rightarrow> ('t, unit) db_op" where
  "tick_reset tb = db_delete tb (\<lambda>_. True)"

subsection \<open>Epochs are numbered without gaps\<close>

definition epochs_ok :: "'t epochs \<Rightarrow> 't \<Rightarrow> bool" where
  "epochs_ok tb t \<longleftrightarrow>
     table_ok tb ep_id (\<lambda>i r. r\<lparr>ep_id := i\<rparr>) \<and> distinct (map ep_id (tb_rows tb t)) \<and>
     distinct (map ep_day (tb_rows tb t)) \<and>
     ep_day ` set (tb_rows tb t) = {0..<int (length (tb_rows tb t))} \<and>
     (\<forall>r \<in> set (tb_rows tb t). ep_day r + 1 < int (length (tb_rows tb t)) \<longrightarrow> ep_settled r)"

lemma epochs_okD:
  assumes "epochs_ok tb t"
  shows "table_ok tb ep_id (\<lambda>i r. r\<lparr>ep_id := i\<rparr>)" "distinct (map ep_id (tb_rows tb t))"
    "distinct (map ep_day (tb_rows tb t))"
    "ep_day ` set (tb_rows tb t) = {0..<int (length (tb_rows tb t))}"
    "r \<in> set (tb_rows tb t) \<Longrightarrow> ep_day r + 1 < int (length (tb_rows tb t)) \<Longrightarrow> ep_settled r"
  using assms by (auto simp: epochs_ok_def)

lemma latest_day:
  assumes ok: "epochs_ok tb t" and "max_by_key ep_day (tb_rows tb t) = Some l"
  shows "l \<in> set (tb_rows tb t)" "ep_day l = int (length (tb_rows tb t)) - 1"
proof -
  have l: "l \<in> set (tb_rows tb t)" "\<forall>x \<in> set (tb_rows tb t). ep_day x \<le> ep_day l"
    using max_by_key_Some [OF assms(2)] by auto
  then have "0 < length (tb_rows tb t)" by auto
  then have "int (length (tb_rows tb t)) - 1 \<in> ep_day ` set (tb_rows tb t)" using epochs_okD(4) [OF ok] by simp
  moreover have "ep_day l \<in> {0..<int (length (tb_rows tb t))}" using epochs_okD(4) [OF ok] l(1) by blast
  ultimately show "l \<in> set (tb_rows tb t)" "ep_day l = int (length (tb_rows tb t)) - 1" using l by auto
qed

lemma epoch_append_ok:
  assumes ok: "epochs_ok tb t" and settled: "\<forall>r \<in> set (tb_rows tb t). ep_settled r"
    and ins: "tb_insert tb r t = Some (r', t')" and day: "ep_day r = int (length (tb_rows tb t))"
  shows "epochs_ok tb t' \<and> length (tb_rows tb t') = Suc (length (tb_rows tb t)) \<and>
    r' \<in> set (tb_rows tb t') \<and> ep_day r' = ep_day r \<and> ep_settled r' = ep_settled r"
proof -
  note tb = epochs_okD(1) [OF ok]
  obtain i where i: "r' = r\<lparr>ep_id := i\<rparr>" "mset (tb_rows tb t') = mset (r' # tb_rows tb t)"
    by (rule insert_rows [OF tb ins])
  have rows: "set (tb_rows tb t') = insert r' (set (tb_rows tb t))" using mset_eq_setD [OF i(2)] by simp
  have len: "length (tb_rows tb t') = Suc (length (tb_rows tb t))" using mset_eq_length [OF i(2)] by simp
  have new: "ep_day r \<notin> ep_day ` set (tb_rows tb t)" using epochs_okD(4) [OF ok] day by simp
  note f = insert_find(1,2) [where key = ep_day, OF tb ins _ _ epochs_okD(2,3) [OF ok] new]
  have "ep_day ` set (tb_rows tb t') = insert (int (length (tb_rows tb t))) {0..<int (length (tb_rows tb t))}"
    using rows i(1) day epochs_okD(4) [OF ok] by simp
  also have "\<dots> = {0..<int (length (tb_rows tb t'))}" using len by auto
  finally have days: "ep_day ` set (tb_rows tb t') = {0..<int (length (tb_rows tb t'))}" .
  have "ep_settled x" if "x \<in> set (tb_rows tb t')" "ep_day x + 1 < int (length (tb_rows tb t'))" for x
    using that settled rows i(1) day len by auto
  then show ?thesis using f tb days len rows i(1) by (auto simp: epochs_ok_def)
qed

lemma epoch_write_ok:
  assumes ok: "epochs_ok tb t" and r: "r \<in> set (tb_rows tb t)"
    and keeps: "ep_id r' = ep_id r" "ep_day r' = ep_day r" "ep_settled r \<longrightarrow> ep_settled r'"
    and upd: "tb_update tb r' t = Some t'"
  shows "epochs_ok tb t'" "length (tb_rows tb t') = length (tb_rows tb t)"
proof -
  note tb = epochs_okD(1) [OF ok]
  let ?u = "\<lambda>x. if ep_id x = ep_id r' then r' else x"
  have m: "mset (tb_rows tb t') = mset (map ?u (tb_rows tb t))"
    using tb upd by (auto simp: table_ok_def update_law_def)
  have rows: "set (tb_rows tb t') = ?u ` set (tb_rows tb t)" using mset_eq_setD [OF m] by simp
  show len: "length (tb_rows tb t') = length (tb_rows tb t)" using mset_eq_length [OF m] by simp
  have u: "ep_day (?u x) = ep_day x \<and> (ep_settled x \<longrightarrow> ep_settled (?u x))" if "x \<in> set (tb_rows tb t)" for x
    using that r keeps epochs_okD(2) [OF ok] by (auto simp: distinct_map dest: inj_onD)
  have "ep_day ` set (tb_rows tb t') = ep_day ` set (tb_rows tb t)"
    unfolding rows image_image by (intro image_cong) (simp_all only: u)
  then have days: "ep_day ` set (tb_rows tb t') = {0..<int (length (tb_rows tb t'))}"
    using epochs_okD(4) [OF ok] len by simp
  have "ep_settled (?u x)" if "x \<in> set (tb_rows tb t)" "ep_day (?u x) + 1 < int (length (tb_rows tb t'))" for x
    using u [OF that(1)] epochs_okD(5) [OF ok that(1)] that(2) len by metis
  then have set: "\<forall>x \<in> set (tb_rows tb t'). ep_day x + 1 < int (length (tb_rows tb t')) \<longrightarrow> ep_settled x"
    unfolding rows by blast
  show "epochs_ok tb t'"
    using update_find(1,2) [where key = ep_day, OF tb upd r _ _ epochs_okD(2,3) [OF ok]] keeps tb days set
    by (simp add: epochs_ok_def)
qed

lemma current_or_create:
  assumes ok: "epochs_ok tb t" and len: "length (tb_rows tb t) < 2 ^ 63"
  shows "case epoch_get_current_or_create tb now pre_hash t of
      (Inr e, t') \<Rightarrow> epochs_ok tb t' \<and> length (tb_rows tb t') \<le> Suc (length (tb_rows tb t)) \<and>
        e \<in> set (tb_rows tb t') \<and> \<not> ep_settled e \<and> ep_day e + 1 = int (length (tb_rows tb t'))
    | (Inl err, t') \<Rightarrow> err = DbErr \<and> t' = t"
proof -
  let ?n = "length (tb_rows tb t)"
  have create: "case epoch_create tb now (int ?n) pre_hash t of
      (Inr e, t') \<Rightarrow> epochs_ok tb t' \<and> length (tb_rows tb t') \<le> Suc ?n \<and>
        e \<in> set (tb_rows tb t') \<and> \<not> ep_settled e \<and> ep_day e + 1 = int (length (tb_rows tb t'))
    | (Inl err, t') \<Rightarrow> err = DbErr \<and> t' = t" if "\<forall>r \<in> set (tb_rows tb t). ep_settled r"
  proof (cases "tb_insert tb \<lparr>ep_id = 0, ep_day = int ?n, ep_start_time = now, ep_end_time = None,
      ep_tick_count = 0, ep_total_reward = [], ep_settled = False, ep_pre_hash = pre_hash, ep_hash = []\<rparr> t")
    case None
    then show ?thesis by (simp add: epoch_create_def db_insert_def)
  next
    case (Some p)
    then obtain e t' where p: "p = (e, t')" by (cases p)
    show ?thesis
      using epoch_append_ok [OF ok that Some [unfolded p]] Some p by (simp add: epoch_create_def db_insert_def)
  qed
  show ?thesis
  proof (cases "max_by_key ep_day (tb_rows tb t)")
    case None
    then show ?thesis
      using create
      by (simp add: epoch_get_current_or_create_def epoch_get_latest_def db_bind_apply db_simps)
  next
    case (Some l)
    note l = latest_day [OF ok Some]
    have wrap: "wrap_i64 (ep_day l + 1) = int ?n" using l len by (simp add: wrap_i64_id)
    have "ep_settled r" if "r \<in> set (tb_rows tb t)" "ep_settled l" for r
    proof -
      have "ep_day r \<in> {0..<int ?n}" using that(1) epochs_okD(4) [OF ok] by blast
      then consider "ep_day r + 1 < int ?n" | "ep_day r = ep_day l" using l(2) by force
      then show ?thesis
        using epochs_okD(5) [OF ok that(1)] that l(1) epochs_okD(3) [OF ok]
        by cases (auto simp: distinct_map dest: inj_onD)
    qed
    then show ?thesis
      using create Some l ok wrap
      by (simp add: epoch_get_current_or_create_def epoch_get_latest_def db_bind_apply db_simps)
  qed
qed

datatype epoch_op =
    OpenEpoch i64 string
  | CountTicks i64 u8
  | CloseEpoch i64 i64 string u8 string

fun run_epoch_op :: "'t epochs \<Rightarrow> epoch_op \<Rightarrow> 't \<Rightarrow> 't" where
  "run_epoch_op tb (OpenEpoch now pre_hash) t = snd (epoch_get_current_or_create tb now pre_hash t)"
| "run_epoch_op tb (CountTicks day n) t = snd (epoch_update_tick_count tb day n t)"
| "run_epoch_op tb (CloseEpoch now day hash n reward) t = snd (epoch_finalize tb now day hash n reward t)"

lemma epoch_update_keeps:
  assumes ok: "epochs_ok tb t"
    and keeps: "\<And>r. ep_id (f r) = ep_id r \<and> ep_day (f r) = ep_day r \<and> (ep_settled r \<longrightarrow> ep_settled (f r))"
  shows "epochs_ok tb (snd (db_bind (epoch_get_by_index tb day) (\<lambda>found. case found of
      None \<Rightarrow> db_err epoch_not_found | Some r \<Rightarrow> db_bind (db_update tb (f r)) (\<lambda>_. db_ok ())) t)) \<and>
    length (tb_rows tb (snd (db_bind (epoch_get_by_index tb day) (\<lambda>found. case found of
      None \<Rightarrow> db_err epoch_not_found | Some r \<Rightarrow> db_bind (db_update tb (f r)) (\<lambda>_. db_ok ())) t))) =
    length (tb_rows tb t)"
proof (cases "tb_up tb t")
  case True
  show ?thesis
  proof (cases "find (\<lambda>r. ep_day r = day) (tb_rows tb t)")
    case (Some r)
    then have r: "r \<in> set (tb_rows tb t)" using find_unique [OF epochs_okD(3) [OF ok]] by blast
    show ?thesis
      using True Some ok epoch_write_ok [OF ok r, of "f r"] keeps [of r]
      by (cases "tb_update tb (f r) t") (simp_all add: epoch_get_by_index_def db_bind_apply db_simps db_update_def)
  qed (simp add: True ok epoch_get_by_index_def db_bind_apply db_simps)
qed (simp add: ok epoch_get_by_index_def db_bind_apply db_simps)

lemma run_epoch_op_ok:
  assumes ok: "epochs_ok tb t" and len: "length (tb_rows tb t) < 2 ^ 63"
  shows "epochs_ok tb (run_epoch_op tb x t) \<and>
    length (tb_rows tb (run_epoch_op tb x t)) \<le> Suc (length (tb_rows tb t))"
proof (cases x)
  case (OpenEpoch now pre_hash)
  then show ?thesis
    using current_or_create [OF ok len, of now pre_hash] ok
    by (auto split: prod.splits sum.splits)
next
  case (CountTicks day n)
  then show ?thesis
    using epoch_update_keeps [OF ok, of "\<lambda>r. r\<lparr>ep_tick_count := n\<rparr>" day]
    by (simp add: epoch_update_tick_count_def)
next
  case (CloseEpoch now day hash n reward)
  then show ?thesis
    using epoch_update_keeps [OF ok, of "\<lambda>r. r\<lparr>ep_end_time := Some now, ep_tick_count := n,
      ep_total_reward := reward, ep_settled := True, ep_hash := hash\<rparr>" day]
    by (simp add: epoch_finalize_def)
qed

lemma run_epoch_ops_ok:
  assumes "epochs_ok tb t" "length (tb_rows tb t) + length ops < 2 ^ 63"
  shows "epochs_ok tb (fold (run_epoch_op tb) ops t) \<and>
    length (tb_rows tb (fold (run_epoch_op tb) ops t)) \<le> length (tb_rows tb t) + length ops"
  using assms
proof (induction ops arbitrary: t)
  case (Cons x ops)
  have "length (tb_rows tb t) < 2 ^ 63" using Cons.prems(2) by simp
  note st = run_epoch_op_ok [OF Cons.prems(1) this, of x]
  show ?case using Cons.IH [of "run_epoch_op tb x t"] st Cons.prems(2) by auto
qed simp

subsection \<open>Rewards add up\<close>

lemma reward_total_insert:
  assumes tb: "table_ok tb rw_id (\<lambda>i r. r\<lparr>rw_id := i\<rparr>)" "tb_up tb t" "tb_up tb t'"
    and ins: "reward_insert tb e address (show_nat (unat v)) t = (Inr r, t')"
    and old: "reward_get_total_for_epoch tb epoch t = (Inr v0, t)"
  shows "reward_get_total_for_epoch tb epoch t' = (Inr (v0 + (if e = epoch then v else 0)), t')"
proof -
  have ins': "tb_insert tb \<lparr>rw_id = 0, rw_epoch_id = e, rw_address = address, rw_amount = show_nat (unat v)\<rparr> t =
      Some (r, t')"
    using ins by (simp add: reward_insert_def db_results)
  obtain i where i: "r = \<lparr>rw_id = i, rw_epoch_id = e, rw_address = address, rw_amount = show_nat (unat v)\<rparr>"
    "mset (tb_rows tb t') = mset (r # tb_rows tb t)"
    by (rule insert_rows [OF tb(1) ins']) auto
  let ?sum = "\<lambda>rs. sum_mset (image_mset (\<lambda>r. case parse_u64 (rw_amount r) of Some v \<Rightarrow> v | None \<Rightarrow> 0)
    (filter_mset (\<lambda>r. rw_epoch_id r = epoch) (mset rs)))"
  have sum: "sum_list (List.map_filter (\<lambda>r. parse_u64 (rw_amount r)) (filter (\<lambda>r. rw_epoch_id r = epoch) rs)) = ?sum rs"
    for rs by (induction rs) (auto split: option.split)
  have "?sum (tb_rows tb t') = ?sum (tb_rows tb t) + (if e = epoch then v else 0)"
    unfolding i(2) by (simp add: i(1) parse_u64_show)
  then show ?thesis
    using old tb(2,3)
    by (simp add: reward_get_total_for_epoch_def reward_get_by_epoch_def db_bind_apply db_simps sum)
qed

subsection \<open>Ticks are counted\<close>

definition tick_key :: "tick_row \<Rightarrow> i64 \<times> string" where
  "tick_key r = (tr_epoch r, tr_address r)"

abbreviation ticks_ok :: "'t ticks \<Rightarrow> 't \<Rightarrow> bool" where
  "ticks_ok tb \<equiv> keyed_ok tb tr_id (\<lambda>i r. r\<lparr>tr_id := i\<rparr>) tick_key"

abbreviation tick_count_of :: "'t ticks \<Rightarrow> 't \<Rightarrow> i64 \<times> string \<Rightarrow> u8 option" where
  "tick_count_of tb \<equiv> row_view tb tick_key tr_tick_count"

lemma increment_tick_upsert:
  "increment_tick tb now e a =
     db_bind (upsert_row tb (\<lambda>r. tr_epoch r = e \<and> tr_address r = a)
       (\<lambda>r. r\<lparr>tr_tick_count := tr_tick_count r + 1, tr_updated_at := now\<rparr>)
       \<lparr>tr_id = 0, tr_epoch = e, tr_address = a, tr_tick_count = 1, tr_updated_at = now\<rparr>) (\<lambda>_. db_ok ())"
  by (rule ext) (simp add: increment_tick_def upsert_row_def db_bind_apply db_simps split: option.split)

lemma increment_tick_ok:
  assumes ok: "ticks_ok tb t" and inc: "increment_tick tb now e a t = (Inr u, t')"
  shows "ticks_ok tb t' \<and> tick_count_of tb t' = (tick_count_of tb t)
    ((e, a) := Some (case tick_count_of tb t (e, a) of None \<Rightarrow> 1 | Some c \<Rightarrow> c + 1))"
proof -
  obtain r' where "upsert_row tb (\<lambda>r. tr_epoch r = e \<and> tr_address r = a)
       (\<lambda>r. r\<lparr>tr_tick_count := tr_tick_count r + 1, tr_updated_at := now\<rparr>)
       \<lparr>tr_id = 0, tr_epoch = e, tr_address = a, tr_tick_count = 1, tr_updated_at = now\<rparr> t = (Inr r', t')"
    using inc by (auto simp: increment_tick_upsert db_results db_simps)
  then show ?thesis
    by (rule upsert_view [where k = "(e, a)" and key = tick_key, OF ok, rotated -1]) (auto simp: tick_key_def)
qed

lemma increment_tick_err: "increment_tick tb now e a t = (Inl err, t') \<Longrightarrow> t' = t"
  by (auto simp: increment_tick_upsert db_results db_simps dest: upsert_row_err)

interpretation tick_log: upsert_store "ticks_ok tb" "tick_count_of tb" "\<lambda>(now, e, a). (e, a)" "\<lambda>_. 1" "\<lambda>_ c. c + 1"
  "\<lambda>(now, e, a). increment_tick tb now e a"
  by unfold_locales (auto dest: increment_tick_ok increment_tick_err)

lemma increment_tick_step:
  assumes ok: "ticks_ok tb t" and w: "table_works tb tick_key"
  shows "ticks_ok tb (snd (increment_tick tb now e a t)) \<and>
    tick_count_of tb (snd (increment_tick tb now e a t)) = (tick_count_of tb t)
      ((e, a) := Some (case tick_count_of tb t (e, a) of None \<Rightarrow> 1 | Some c \<Rightarrow> c + 1))"
proof -
  have "\<exists>r' t'. upsert_row tb (\<lambda>r. tr_epoch r = e \<and> tr_address r = a)
       (\<lambda>r. r\<lparr>tr_tick_count := tr_tick_count r + 1, tr_updated_at := now\<rparr>)
       \<lparr>tr_id = 0, tr_epoch = e, tr_address = a, tr_tick_count = 1, tr_updated_at = now\<rparr> t = (Inr r', t')"
    by (rule upsert_row_works [OF w, of _ "(e, a)"]) (auto simp: tick_key_def)
  then obtain t' where t': "increment_tick tb now e a t = (Inr (), t')"
    by (auto simp: increment_tick_upsert db_results db_simps)
  then show ?thesis using increment_tick_ok [OF ok t'] by simp
qed

lemma increment_ticks:
  assumes "ticks_ok tb t" and w: "table_works tb tick_key"
  shows "ticks_ok tb (fold (\<lambda>(now, e, a) t. snd (increment_tick tb now e a t)) xs t) \<and>
    tick_count_of tb (fold (\<lambda>(now, e, a) t. snd (increment_tick tb now e a t)) xs t) k =
      (let n = length (filter (\<lambda>(now, e, a). (e, a) = k) xs)
       in if n = 0 then tick_count_of tb t k
          else Some ((case tick_count_of tb t k of Some c \<Rightarrow> c | None \<Rightarrow> 0) + word_of_nat n))"
  using assms(1)
proof (induction xs arbitrary: t)
  case (Cons x xs)
  obtain now e a where x: "x = (now, e, a)" by (metis prod_cases3)
  note st = increment_tick_step [OF Cons.prems w, of now e a]
  show ?case
    using Cons.IH [of "snd (increment_tick tb now e a t)"] st
    by (auto simp: x Let_def algebra_simps split: option.split)
qed simp

lemma full_time_set:
  assumes "ticks_ok tb t" "tb_up tb t"
  shows "\<exists>as. get_full_time_addresses tb e thr t = (Inr as, t) \<and>
    set as = {a. \<exists>c. tick_count_of tb t (e, a) = Some c \<and> thr \<le> c}"
proof -
  have d: "distinct (map tick_key (tb_rows tb t))" using assms(1) by (simp add: keyed_ok_def)
  have "(\<exists>c. tick_count_of tb t (e, a) = Some c \<and> thr \<le> c) \<longleftrightarrow>
      (\<exists>r \<in> set (tb_rows tb t). tr_epoch r = e \<and> tr_address r = a \<and> thr \<le> tr_tick_count r)" for a
    using find_unique [OF d, of "(e, a)"] by (auto simp: row_view_def) (auto simp: tick_key_def)
  then show ?thesis
    using assms(2) by (auto simp: get_full_time_addresses_def db_bind_apply db_simps)
qed

subsection \<open>Properties\<close>

definition demo_epochs :: "epoch_row list epochs" where
  "demo_epochs = list_table ep_id (\<lambda>i r. r\<lparr>ep_id := i\<rparr>) (\<lambda>_ _. False)"

definition demo_ticks :: "tick_row list ticks" where
  "demo_ticks = list_table tr_id (\<lambda>i r. r\<lparr>tr_id := i\<rparr>) (\<lambda>_ _. False)"

text \<open>
  C30. When epochs are opened through \<open>get_current_or_create\<close>, then after any sequence of
  openings, tick counts and settlements the epochs are numbered 0 to n - 1 without gaps or
  repetitions, every epoch but the newest is settled, and a further opening returns the newest
  epoch, unsettled, or fails without a change.
\<close>

theorem epochs_sequential:
  assumes "table_ok tb ep_id (\<lambda>i r. r\<lparr>ep_id := i\<rparr>)" "tb_rows tb t = []" "length ops < 2 ^ 63"
    and "t' = fold (run_epoch_op tb) ops t"
  shows "distinct (map ep_day (tb_rows tb t')) \<and>
    ep_day ` set (tb_rows tb t') = {0..<int (length (tb_rows tb t'))} \<and>
    (\<forall>r \<in> set (tb_rows tb t'). ep_day r + 1 < int (length (tb_rows tb t')) \<longrightarrow> ep_settled r) \<and>
    (case epoch_get_current_or_create tb now pre_hash t' of
       (Inr e, t'') \<Rightarrow> e \<in> set (tb_rows tb t'') \<and> \<not> ep_settled e \<and> ep_day e + 1 = int (length (tb_rows tb t''))
     | (Inl err, t'') \<Rightarrow> err = DbErr \<and> t'' = t')"
proof -
  have "epochs_ok tb t" using assms(1,2) by (simp add: epochs_ok_def)
  then have ok: "epochs_ok tb t'" and len: "length (tb_rows tb t') < 2 ^ 63"
    using run_epoch_ops_ok [of tb t ops] assms(2-4) by auto
  show ?thesis
    using current_or_create [OF ok len, of now pre_hash] epochs_okD(3,4,5) [OF ok]
    by (auto split: prod.splits sum.splits)
qed

theorem epochs_sequential_witness:
  "ep_day ` set (tb_rows demo_epochs (fold (run_epoch_op demo_epochs)
       [OpenEpoch 1 ''p'', CloseEpoch 2 0 ''h'' 9 ''5'', OpenEpoch 3 ''h''] [])) = {0, 1}"
proof -
  let ?ops = "[OpenEpoch 1 ''p'', CloseEpoch 2 0 ''h'' 9 ''5'', OpenEpoch 3 ''h'']"
  have ok: "table_ok demo_epochs ep_id (\<lambda>i r. r\<lparr>ep_id := i\<rparr>)"
    unfolding demo_epochs_def by (rule list_table_ok)
  have rows: "tb_rows demo_epochs = (\<lambda>t. t)" by (simp add: demo_epochs_def list_table_def)
  have len: "length (fold (run_epoch_op demo_epochs) ?ops []) = 2"
    by (simp add: demo_epochs_def list_table_def epoch_get_current_or_create_def epoch_get_latest_def
        epoch_finalize_def epoch_get_by_index_def epoch_create_def db_bind_apply db_simps db_insert_def
        db_update_def Let_def max_by_key_def wrap_i64_id)
  have "ep_day ` set (fold (run_epoch_op demo_epochs) ?ops []) = {0..<int 2}"
    using epochs_sequential [OF ok _ _ refl, of "[]" ?ops] len unfolding rows by simp
  also have "{0..<int 2} = {0, 1}" by auto
  finally show ?thesis by (simp only: rows)
qed

text \<open>
  A tick record counts the calls made for its epoch and witness: after any sequence of
  calls on an empty table the count is their number modulo 256, pairs that were never counted
  have no record, and the full-time addresses of an epoch are exactly the witnesses whose
  count reaches the threshold.
\<close>

theorem tick_counts_exact:
  assumes "table_ok tb tr_id (\<lambda>i r. r\<lparr>tr_id := i\<rparr>)" "table_works tb tick_key" "tb_rows tb t = []"
    and "t' = fold (\<lambda>(now, e, a) t. snd (increment_tick tb now e a t)) xs t"
  shows "(\<forall>k. tick_count_of tb t' k =
      (let n = length (filter (\<lambda>(now, e, a). (e, a) = k) xs)
       in if n = 0 then None else Some (word_of_nat n))) \<and>
    (\<exists>as. get_full_time_addresses tb e thr t' = (Inr as, t') \<and>
      set as = {a. \<exists>c. tick_count_of tb t' (e, a) = Some c \<and> thr \<le> c})"
proof -
  have ok: "ticks_ok tb t" "tick_count_of tb t = (\<lambda>_. None)"
    using assms(1,3) by (auto simp: keyed_ok_def row_view_def)
  note inc = increment_ticks [OF ok(1) assms(2), of xs]
  have "tb_up tb t'" using assms(2) unfolding table_works_def by blast
  moreover have "ticks_ok tb t'" and "\<forall>k. tick_count_of tb t' k =
      (let n = length (filter (\<lambda>(now, e, a). (e, a) = k) xs) in if n = 0 then None else Some (word_of_nat n))"
    using inc ok(2) assms(4) by (simp_all add: Let_def)
  ultimately show ?thesis using full_time_set [of tb t' e thr] by blast
qed

theorem tick_counts_exact_witness:
  "tick_count_of demo_ticks (fold (\<lambda>(now, e, a) t. snd (increment_tick demo_ticks now e a t))
     [(1, 7, ''n1''), (2, 7, ''n2''), (3, 7, ''n1'')] []) (7, ''n1'') = Some 2"
proof -
  have ok: "table_ok demo_ticks tr_id (\<lambda>i r. r\<lparr>tr_id := i\<rparr>)"
    unfolding demo_ticks_def by (rule list_table_ok)
  have w: "table_works demo_ticks tick_key" "tb_rows demo_ticks [] = []"
    by (simp_all add: table_works_def demo_ticks_def list_table_def Let_def)
  show ?thesis
    using tick_counts_exact [OF ok w refl, of "[(1, 7, ''n1''), (2, 7, ''n2''), (3, 7, ''n1'')]"]
    by (simp add: Let_def del: fold_simps)
qed

end
