(* ===== verification/Directory.thy ===== *)
theory Directory
  imports Store
begin

text \<open>
  The stores that list other nodes: witnesses (\<^verbatim>\<open>src/db/entity/witness\<close>), witness
  seeds (\<^verbatim>\<open>witness_seed\<close>) and public servers (\<^verbatim>\<open>public_server\<close>). Each is an
  instance of \<open>upsert_store\<close>. A floating point quotient that is only stored is kept as
  the pair of the integers it divides; the JSON encoder is a parameter.
\<close>

subsection \<open>Witnesses\<close>

record witness_row =
  wt_id :: int
  wt_node_id :: i64
  wt_address :: string
  wt_online_seconds :: i64
  wt_weight :: i64
  wt_status :: string
  wt_last_tick_ts :: i64
  wt_resources :: "string option"
  wt_is_public_ip :: bool

type_synonym 't witnesses = "('t, witness_row) table_ops"

definition witness_get_by_address :: "'t witnesses \<Rightarrow> string \<Rightarrow> ('t, witness_row option) db_op" where
  "witness_get_by_address tb address = db_one tb (\<lambda>r. wt_address r = address)"

record witness_input =
  wi_node_id :: i64
  wi_address :: string
  wi_online_seconds :: i64
  wi_weight :: i64
  wi_resources :: "string option"
  wi_is_public_ip :: bool

definition witness_upsert :: "'t witnesses \<Rightarrow> i64 \<Rightarrow> witness_input \<Rightarrow> ('t, witness_row) db_op" where
  "witness_upsert tb now x =
     db_bind (witness_get_by_address tb (wi_address x)) (\<lambda>found.
       case found of
         Some existing \<Rightarrow>
           db_update tb (existing\<lparr>wt_online_seconds := wi_online_seconds x, wt_weight := wi_weight x,
             wt_last_tick_ts := now, wt_resources := wi_resources x, wt_is_public_ip := wi_is_public_ip x\<rparr>)
       | None \<Rightarrow>
           db_insert tb \<lparr>wt_id = 0, wt_node_id = wi_node_id x, wt_address = wi_address x,
             wt_online_seconds = wi_online_seconds x, wt_weight = wi_weight x, wt_status = ''Active'',
             wt_last_tick_ts = now, wt_resources = wi_resources x, wt_is_public_ip = wi_is_public_ip x\<rparr>)"

definition witness_update_online_seconds :: "'t witnesses \<Rightarrow> i64 \<Rightarrow> string \<Rightarrow> i64 \<Rightarrow> ('t, unit) db_op" where
  "witness_update_online_seconds tb now address seconds =
     db_bind (witness_get_by_address tb address) (\<lambda>found.
       case found of
         None \<Rightarrow> db_err (Rejected ''Witness not found'')
       | Some r \<Rightarrow>
           db_bind (db_update tb (r\<lparr>wt_online_seconds := seconds, wt_last_tick_ts := now\<rparr>)) (\<lambda>_. db_ok ()))"

definition witness_get_active :: "'t witnesses \<Rightarrow> ('t, witness_row list) db_op" where
  "witness_get_active tb = db_all tb (\<lambda>r. wt_status r = ''Active'')"

definition witness_get_all :: "'t witnesses \<Rightarrow> ('t, witness_row list) db_op" where
  "witness_get_all tb = db_all tb (\<lambda>_. True)"

subsection \<open>Witness seeds\<close>

record seed_row =
  sd_id :: int
  sd_ip :: string
  sd_port :: int
  sd_node_id :: string
  sd_added_at :: i64
  sd_last_seen :: i64
  sd_is_active :: bool
  sd_success_count :: int
  sd_failure_count :: int
  sd_online_days :: i64
  sd_offline_days :: i64
  sd_online_rate :: "int \<times> int"
  sd_is_connectable :: bool
  sd_inactive_days :: i64
  sd_is_intranet :: bool
  sd_metadata :: string

type_synonym 't seed_table = "('t, seed_row) table_ops"

definition seed_find_by_ip_port :: "'t seed_table \<Rightarrow> string \<Rightarrow> int \<Rightarrow> ('t, seed_row option) db_op" where
  "seed_find_by_ip_port tb ip port = db_one tb (\<lambda>r. sd_ip r = ip \<and> sd_port r = port)"

definition wrap_i32 :: "int \<Rightarrow> int" where
  "wrap_i32 i = signed_take_bit 31 i"

definition seed_seen_again :: "i64 \<Rightarrow> seed_row \<Rightarrow> seed_row" where
  "seed_seen_again now r =
     r\<lparr>sd_last_seen := (if \<not> sd_is_active r then now else sd_last_seen r), sd_is_active := True,
       sd_success_count := wrap_i32 (sd_success_count r + 1),
       sd_online_days := wrap_i64 (sd_online_days r + 1),
       sd_online_rate := (wrap_i64 (sd_online_days r + 1), wrap_i64 (sd_online_days r + sd_offline_days r))\<rparr>"

definition seed_first_seen :: "i64 \<Rightarrow> string \<Rightarrow> int \<Rightarrow> string \<Rightarrow> bool \<Rightarrow> seed_row" where
  "seed_first_seen now ip port node_id is_intranet =
     \<lparr>sd_id = 0, sd_ip = ip, sd_port = port, sd_node_id = node_id, sd_added_at = now, sd_last_seen = now,
      sd_is_active = True, sd_success_count = 1, sd_failure_count = 0, sd_online_days = 1,
      sd_offline_days = 0, sd_online_rate = (1, 1), sd_is_connectable = True, sd_inactive_days = 0,
      sd_is_intranet = is_intranet, sd_metadata = ''{}''\<rparr>"

definition seed_upsert ::
  "'t seed_table \<Rightarrow> i64 \<Rightarrow> string \<Rightarrow> int \<Rightarrow> string \<Rightarrow> bool \<Rightarrow> ('t, unit) db_op" where
  "seed_upsert tb now ip port node_id is_intranet =
     db_bind (seed_find_by_ip_port tb ip port) (\<lambda>found.
       case found of
         Some existing \<Rightarrow> db_bind (db_update tb (seed_seen_again now existing)) (\<lambda>_. db_ok ())
       | None \<Rightarrow> db_bind (db_insert tb (seed_first_seen now ip port node_id is_intranet)) (\<lambda>_. db_ok ()))"

definition seed_get_active :: "'t seed_table \<Rightarrow> ('t, seed_row list) db_op" where
  "seed_get_active tb = db_sorted tb sd_is_active sd_added_at"

definition seed_clear_all :: "'t seed_table \<Rightarrow> ('t, unit) db_op" where
  "seed_clear_all tb = db_delete tb (\<lambda>_. True)"

definition seed_reset :: "'t seed_table \<Rightarrow> ('t, unit) db_op" where
  "seed_reset tb = db_delete tb (\<lambda>_. True)"

subsection \<open>Public servers\<close>

record server_row =
  ps_id :: int
  ps_address :: string
  ps_port :: u16
  ps_historical_addresses :: "string option"
  ps_protocol :: string
  ps_is_active :: bool
  ps_last_seen :: i64
  ps_created_at :: i64

type_synonym 't servers = "('t, server_row) table_ops"

definition server_get_all :: "'t servers \<Rightarrow> ('t, server_row list) db_op" where
  "server_get_all tb = db_sorted tb (\<lambda>_. True) (\<lambda>r. - ps_last_seen r)"

definition server_get_active :: "'t servers \<Rightarrow> ('t, server_row list) db_op" where
  "server_get_active tb = db_sorted tb ps_is_active (\<lambda>r. - ps_last_seen r)"

definition server_model :: "i64 \<Rightarrow> string \<Rightarrow> u16 \<Rightarrow> string option \<Rightarrow> string \<Rightarrow> server_row" where
  "server_model now address port historical protocol =
     \<lparr>ps_id = 0, ps_address = address, ps_port = port, ps_historical_addresses = historical,
      ps_protocol = protocol, ps_is_active = True, ps_last_seen = now, ps_created_at = now\<rparr>"

definition server_upsert ::
  "(string list \<Rightarrow> string option) \<Rightarrow> 't servers \<Rightarrow> i64 \<Rightarrow> string \<Rightarrow> u16 \<Rightarrow> string \<Rightarrow> ('t, server_row) db_op" where
  "server_upsert json tb now address port protocol =
     db_bind (db_one tb (\<lambda>r. ps_address r = address \<and> ps_port r = port)) (\<lambda>found.
       case found of
         Some r \<Rightarrow>
           db_update tb (r\<lparr>ps_last_seen := (if \<not> ps_is_active r then now else ps_last_seen r),
                           ps_is_active := True\<rparr>)
       | None \<Rightarrow> db_insert tb (server_model now address port (json []) protocol))"

definition server_update_with_historical ::
  "(string list \<Rightarrow> string option) \<Rightarrow> 't servers \<Rightarrow> i64 \<Rightarrow> string \<Rightarrow> u16 \<Rightarrow> string \<Rightarrow> string list \<Rightarrow>
   ('t, server_row) db_op" where
  "server_update_with_historical json tb now address port protocol historical =
     db_bind (db_one tb (\<lambda>r. ps_address r = address \<and> ps_port r = port)) (\<lambda>found.
       case found of
         Some r \<Rightarrow>
           db_update tb (r\<lparr>ps_last_seen := now, ps_is_active := True,
                           ps_historical_addresses := json historical\<rparr>)
       | None \<Rightarrow> db_insert tb (server_model now address port (json historical) protocol))"

definition server_not_found :: store_error where
  "server_not_found = Rejected ''Public server not found''"

definition server_mark_inactive :: "'t servers \<Rightarrow> int \<Rightarrow> ('t, unit) db_op" where
  "server_mark_inactive tb i =
     db_bind (db_one tb (\<lambda>r. ps_id r = i)) (\<lambda>found.
       case found of
         None \<Rightarrow> db_err server_not_found
       | Some r \<Rightarrow> db_bind (db_update tb (r\<lparr>ps_is_active := False\<rparr>)) (\<lambda>_. db_ok ()))"

definition server_remove :: "'t servers \<Rightarrow> int \<Rightarrow> ('t, unit) db_op" where
  "server_remove tb i =
     db_bind (db_one tb (\<lambda>r. ps_id r = i)) (\<lambda>found.
       case found of
         None \<Rightarrow> db_err server_not_found
       | Some r \<Rightarrow> db_delete tb (\<lambda>x. ps_id x = ps_id r))"

subsection \<open>Witnesses by address\<close>

definition witness_view :: "witness_row \<Rightarrow> witness_row" where
  "witness_view r = r\<lparr>wt_id := 0\<rparr>"

definition witness_touch :: "i64 \<times> witness_input \<Rightarrow> witness_row \<Rightarrow> witness_row" where
  "witness_touch p r = (case p of (now, x) \<Rightarrow>
     r\<lparr>wt_online_seconds := wi_online_seconds x, wt_weight := wi_weight x,
       wt_last_tick_ts := now, wt_resources := wi_resources x, wt_is_public_ip := wi_is_public_ip x\<rparr>)"

definition witness_fresh :: "i64 \<times> witness_input \<Rightarrow> witness_row" where
  "witness_fresh p = (case p of (now, x) \<Rightarrow>
     \<lparr>wt_id = 0, wt_node_id = wi_node_id x, wt_address = wi_address x,
      wt_online_seconds = wi_online_seconds x, wt_weight = wi_weight x, wt_status = ''Active'',
      wt_last_tick_ts = now, wt_resources = wi_resources x, wt_is_public_ip = wi_is_public_ip x\<rparr>)"

abbreviation witnesses_ok :: "'t witnesses \<Rightarrow> 't \<Rightarrow> bool" where
  "witnesses_ok tb \<equiv> keyed_ok tb wt_id (\<lambda>i r. r\<lparr>wt_id := i\<rparr>) wt_address"

lemma witness_upsert_row:
  "witness_upsert tb now x =
     upsert_row tb (\<lambda>r. wt_address r = wi_address x) (witness_touch (now, x)) (witness_fresh (now, x))"
  by (rule ext)
    (simp add: witness_upsert_def witness_get_by_address_def upsert_row_def witness_touch_def
      witness_fresh_def db_bind_apply db_simps split: option.split)

interpretation witness_store: upsert_store "witnesses_ok tb" "row_view tb wt_address witness_view"
  "\<lambda>(now, x). wi_address x" witness_fresh witness_touch "\<lambda>(now, x). witness_upsert tb now x"
proof (unfold_locales, goal_cases)
  case (1 s x b s')
  obtain now y where x: "x = (now, y)" by (cases x)
  have "upsert_row tb (\<lambda>r. wt_address r = wi_address y) (witness_touch x) (witness_fresh x) s = (Inr b, s')"
    using 1(2) by (simp add: x witness_upsert_row)
  from upsert_view [where k = "wi_address y" and key = wt_address and view = witness_view
      and touch = "witness_touch x" and fresh = "witness_fresh x", OF 1(1) _ _ _ _ this]
  show ?case by (auto simp: x witness_view_def witness_touch_def witness_fresh_def)
qed (auto simp: witness_upsert_row dest: upsert_row_err)

subsection \<open>Seeds by socket\<close>

definition seed_key :: "seed_row \<Rightarrow> string \<times> int" where
  "seed_key r = (sd_ip r, sd_port r)"

definition seed_view :: "seed_row \<Rightarrow> seed_row" where
  "seed_view r = r\<lparr>sd_id := 0\<rparr>"

abbreviation seed_table_ok :: "'t seed_table \<Rightarrow> 't \<Rightarrow> bool" where
  "seed_table_ok tb \<equiv> keyed_ok tb sd_id (\<lambda>i r. r\<lparr>sd_id := i\<rparr>) seed_key"

lemma seed_upsert_row:
  "seed_upsert tb now ip port node_id intra =
     db_bind (upsert_row tb (\<lambda>r. sd_ip r = ip \<and> sd_port r = port) (seed_seen_again now)
       (seed_first_seen now ip port node_id intra)) (\<lambda>_. db_ok ())"
  by (rule ext)
    (simp add: seed_upsert_def seed_find_by_ip_port_def upsert_row_def db_bind_apply db_simps split: option.split)

interpretation seed_store: upsert_store "seed_table_ok tb" "row_view tb seed_key seed_view"
  "\<lambda>(now, ip, port, node_id, intra). (ip, port)"
  "\<lambda>(now, ip, port, node_id, intra). seed_first_seen now ip port node_id intra"
  "\<lambda>(now, ip, port, node_id, intra). seed_seen_again now"
  "\<lambda>(now, ip, port, node_id, intra). seed_upsert tb now ip port node_id intra"
proof (unfold_locales, goal_cases)
  case (1 s x b s')
  obtain now ip port node_id intra where x: "x = (now, ip, port, node_id, intra)" by (metis prod_cases5)
  obtain r' where "upsert_row tb (\<lambda>r. sd_ip r = ip \<and> sd_port r = port) (seed_seen_again now)
      (seed_first_seen now ip port node_id intra) s = (Inr r', s')"
    using 1(2) by (auto simp: x seed_upsert_row db_results db_simps)
  from upsert_view [where k = "(ip, port)" and key = seed_key and view = seed_view
      and touch = "seed_seen_again now" and fresh = "seed_first_seen now ip port node_id intra", OF 1(1) _ _ _ _ this]
  show ?case unfolding x prod.case by (auto simp: seed_view_def seed_key_def seed_seen_again_def seed_first_seen_def)
next
  case (2 x s e s')
  then show ?case by (auto simp: seed_upsert_row db_results db_simps dest: upsert_row_err split: prod.splits)
qed

text \<open>
  The rate is computed with the old number of online days below the line, so a seed that was
  never offline has a rate above one from its second sighting on.
\<close>

lemma seed_rate_above_one:
  assumes "0 < sd_online_days r" "sd_online_days r < 2 ^ 63 - 1" "sd_offline_days r = 0"
  shows "snd (sd_online_rate (seed_seen_again now r)) < fst (sd_online_rate (seed_seen_again now r))"
  using assms by (simp add: seed_seen_again_def wrap_i64_id)

subsection \<open>Servers by socket\<close>

definition server_key :: "server_row \<Rightarrow> string \<times> u16" where
  "server_key r = (ps_address r, ps_port r)"

definition server_view :: "server_row \<Rightarrow> server_row" where
  "server_view r = r\<lparr>ps_id := 0\<rparr>"

datatype server_call =
    Upsert i64 string u16 string
  | WithHistorical i64 string u16 string "string list"

fun server_call_key :: "server_call \<Rightarrow> string \<times> u16" where
  "server_call_key (Upsert now a p proto) = (a, p)"
| "server_call_key (WithHistorical now a p proto hist) = (a, p)"

fun server_call_fresh :: "(string list \<Rightarrow> string option) \<Rightarrow> server_call \<Rightarrow> server_row" where
  "server_call_fresh json (Upsert now a p proto) = server_model now a p (json []) proto"
| "server_call_fresh json (WithHistorical now a p proto hist) = server_model now a p (json hist) proto"

fun server_call_touch :: "(string list \<Rightarrow> string option) \<Rightarrow> server_call \<Rightarrow> server_row \<Rightarrow> server_row" where
  "server_call_touch json (Upsert now a p proto) r =
     r\<lparr>ps_last_seen := (if \<not> ps_is_active r then now else ps_last_seen r), ps_is_active := True\<rparr>"
| "server_call_touch json (WithHistorical now a p proto hist) r =
     r\<lparr>ps_last_seen := now, ps_is_active := True, ps_historical_addresses := json hist\<rparr>"

fun run_server_call :: "(string list \<Rightarrow> string option) \<Rightarrow> 't servers \<Rightarrow> server_call \<Rightarrow> ('t, server_row) db_op" where
  "run_server_call json tb (Upsert now a p proto) = server_upsert json tb now a p proto"
| "run_server_call json tb (WithHistorical now a p proto hist) =
     server_update_with_historical json tb now a p proto hist"

abbreviation servers_ok :: "'t servers \<Rightarrow> 't \<Rightarrow> bool" where
  "servers_ok tb \<equiv> keyed_ok tb ps_id (\<lambda>i r. r\<lparr>ps_id := i\<rparr>) server_key"

lemma run_server_call_row:
  "run_server_call json tb c =
     upsert_row tb (\<lambda>r. ps_address r = fst (server_call_key c) \<and> ps_port r = snd (server_call_key c))
       (server_call_touch json c) (server_call_fresh json c)"
  by (rule ext, cases c)
    (simp_all add: server_upsert_def server_update_with_historical_def upsert_row_def db_bind_apply
      db_simps split: option.split)

interpretation server_store: upsert_store "servers_ok tb" "row_view tb server_key server_view"
  server_call_key "server_call_fresh json" "server_call_touch json" "run_server_call json tb"
proof (unfold_locales, goal_cases)
  case (1 s c b s')
  have "upsert_row tb (\<lambda>r. ps_address r = fst (server_call_key c) \<and> ps_port r = snd (server_call_key c))
       (server_call_touch json c) (server_call_fresh json c) s = (Inr b, s')"
    using 1(2) by (simp add: run_server_call_row)
  from upsert_view [where k = "server_call_key c" and key = server_key and view = server_view
      and touch = "server_call_touch json c" and fresh = "server_call_fresh json c", OF 1(1) _ _ _ _ this]
  show ?case
    by (cases c) (auto simp: server_view_def server_key_def server_model_def)
qed (auto simp: run_server_call_row dest: upsert_row_err)

end
