(* ===== verification/Inbox.thy ===== *)
theory Inbox
  imports Chain
begin

text \<open>
  The stores behind the user interface: contacts (\<^verbatim>\<open>src/db/entity/contact\<close>), chat
  messages (\<^verbatim>\<open>chat_message\<close>) and encrypted messages (\<^verbatim>\<open>encrypted_message\<close>).
  Shown: marking as read leaves no unread message of that contact and touches nothing else,
  a deletion by one party hides a message from that party only, the address of a contact is
  looked up as it was entered.
\<close>

subsection \<open>Contacts\<close>

record contact_row =
  ct_id :: int
  ct_name :: string
  ct_address :: string
  ct_created_at :: i64
  ct_updated_at :: i64

type_synonym 't contacts = "('t, contact_row) table_ops"

definition contact_add :: "'t contacts \<Rightarrow> i64 \<Rightarrow> string \<Rightarrow> string \<Rightarrow> ('t, contact_row) db_op" where
  "contact_add tb now name address =
     db_insert tb \<lparr>ct_id = 0, ct_name = name, ct_address = address, ct_created_at = now, ct_updated_at = now\<rparr>"

definition contact_get_all :: "'t contacts \<Rightarrow> ('t, contact_row list) db_op" where
  "contact_get_all tb = db_sorted tb (\<lambda>_. True) ct_name"

definition contact_find_by_address :: "'t contacts \<Rightarrow> string \<Rightarrow> ('t, contact_row option) db_op" where
  "contact_find_by_address tb address = db_one tb (\<lambda>r. ct_address r = address)"

definition contact_update_name :: "'t contacts \<Rightarrow> i64 \<Rightarrow> string \<Rightarrow> string \<Rightarrow> ('t, unit) db_op" where
  "contact_update_name tb now address name =
     db_bind (contact_find_by_address tb address) (\<lambda>found.
       case found of
         Some r \<Rightarrow> db_bind (db_update tb (r\<lparr>ct_name := name, ct_updated_at := now\<rparr>)) (\<lambda>_. db_ok ())
       | None \<Rightarrow> db_ok ())"

definition contact_delete :: "'t contacts \<Rightarrow> string \<Rightarrow> ('t, unit) db_op" where
  "contact_delete tb address = db_delete tb (\<lambda>r. ct_address r = address)"

subsection \<open>Chat messages\<close>

record chat_row =
  cm_id :: int
  cm_contact_address :: string
  cm_content :: string
  cm_is_sent :: bool
  cm_status :: string
  cm_timestamp :: i64

type_synonym 't chats = "('t, chat_row) table_ops"

record chat_summary =
  cs_address :: string
  cs_last_message :: string
  cs_last_timestamp :: i64
  cs_unread_count :: u64

definition chat_add :: "'t chats \<Rightarrow> i64 \<Rightarrow> string \<Rightarrow> string \<Rightarrow> bool \<Rightarrow> string \<Rightarrow> ('t, chat_row) db_op" where
  "chat_add tb now contact content is_sent status =
     db_insert tb \<lparr>cm_id = 0, cm_contact_address = contact, cm_content = content, cm_is_sent = is_sent,
       cm_status = status, cm_timestamp = now\<rparr>"

definition chat_get_by_contact :: "'t chats \<Rightarrow> string \<Rightarrow> ('t, chat_row list) db_op" where
  "chat_get_by_contact tb contact = db_sorted tb (\<lambda>r. cm_contact_address r = contact) cm_timestamp"

definition chat_get_recent :: "'t chats \<Rightarrow> u64 \<Rightarrow> ('t, chat_row list) db_op" where
  "chat_get_recent tb limit =
     db_bind (db_sorted tb (\<lambda>_. True) (\<lambda>r. - cm_timestamp r)) (\<lambda>rs. db_ok (take (unat limit) rs))"

definition chat_unread :: "chat_row \<Rightarrow> bool" where
  "chat_unread r \<longleftrightarrow> \<not> cm_is_sent r \<and> cm_status r = ''received''"

definition chat_get_unread_count :: "'t chats \<Rightarrow> string \<Rightarrow> ('t, u64) db_op" where
  "chat_get_unread_count tb contact =
     db_bind (db_all tb (\<lambda>r. cm_contact_address r = contact \<and> chat_unread r)) (\<lambda>rs.
       db_ok (word_of_nat (length rs)))"

definition chat_mark_as_read :: "'t chats \<Rightarrow> string \<Rightarrow> ('t, unit) db_op" where
  "chat_mark_as_read tb contact =
     db_bind (db_all tb (\<lambda>r. cm_contact_address r = contact \<and> chat_unread r)) (\<lambda>rs.
       db_each (\<lambda>r. db_bind (db_update tb (r\<lparr>cm_status := ''read''\<rparr>)) (\<lambda>_. db_ok ())) rs)"

definition chat_get_all_contacts_with_unread :: "'t chats \<Rightarrow> ('t, (string \<times> u64) list) db_op" where
  "chat_get_all_contacts_with_unread tb =
     db_bind (db_all tb chat_unread) (\<lambda>rs.
       db_ok (sort_key (\<lambda>p. - uint (snd p))
         (fold (\<lambda>r m. AList.map_default (cm_contact_address r) 1 (\<lambda>n. n + 1) m) rs [])))"

definition chat_group :: "chat_row list \<Rightarrow> (string, chat_row list) hmap" where
  "chat_group rs = fold (\<lambda>r m. AList.map_default (cm_contact_address r) [r] (\<lambda>xs. xs @ [r]) m) rs []"

definition chat_summarise :: "string \<times> chat_row list \<Rightarrow> chat_summary" where
  "chat_summarise p = (case p of (addr, msgs) \<Rightarrow>
     \<lparr>cs_address = addr, cs_last_message = cm_content (hd msgs), cs_last_timestamp = cm_timestamp (hd msgs),
      cs_unread_count = word_of_nat (length (filter chat_unread msgs))\<rparr>)"

definition chat_get_conversations :: "'t chats \<Rightarrow> ('t, chat_summary list) db_op" where
  "chat_get_conversations tb =
     db_bind (db_sorted tb (\<lambda>_. True) (\<lambda>r. - cm_timestamp r)) (\<lambda>rs.
       db_ok (sort_key (\<lambda>c. - cs_last_timestamp c) (map chat_summarise (chat_group rs))))"

subsection \<open>Encrypted messages\<close>

record enc_row =
  em_id :: int
  em_msg_id :: string
  em_from_address :: string
  em_to_address :: string
  em_encrypted_content :: bytes
  em_nonce :: bytes
  em_ephemeral_pk :: bytes
  em_created_at :: i64
  em_size_bytes :: i64
  em_status :: string
  em_deleted_by_sender :: bool
  em_deleted_by_receiver :: bool
  em_pre_hash :: string
  em_hash :: string

type_synonym 't encs = "('t, enc_row) table_ops"

definition compute_hash ::
  "(bytes \<Rightarrow> bytes) \<Rightarrow> string \<Rightarrow> string \<Rightarrow> string \<Rightarrow> bytes \<Rightarrow> i64 \<Rightarrow> string \<Rightarrow> string" where
  "compute_hash sha256 msg_id sender receiver content created_at pre_hash =
     hex_bytes (sha256 (as_bytes msg_id @ as_bytes sender @ as_bytes receiver @ content @
       i64_le_bytes created_at @ as_bytes pre_hash))"

definition enc_insert ::
  "(bytes \<Rightarrow> bytes) \<Rightarrow> 't encs \<Rightarrow> i64 \<Rightarrow> string \<Rightarrow> string \<Rightarrow> string \<Rightarrow> bytes \<Rightarrow> bytes \<Rightarrow> bytes \<Rightarrow>
   ('t, enc_row) db_op" where
  "enc_insert sha256 tb now msg_id sender receiver content nonce pk =
     db_insert tb \<lparr>em_id = 0, em_msg_id = msg_id, em_from_address = sender, em_to_address = receiver,
       em_encrypted_content = content, em_nonce = nonce, em_ephemeral_pk = pk, em_created_at = now,
       em_size_bytes = int (length content), em_status = ''unread'', em_deleted_by_sender = False,
       em_deleted_by_receiver = False, em_pre_hash = genesis_pre_hash,
       em_hash = compute_hash sha256 msg_id sender receiver content now genesis_pre_hash\<rparr>"

definition enc_get_by_id :: "'t encs \<Rightarrow> int \<Rightarrow> ('t, enc_row option) db_op" where
  "enc_get_by_id tb i = db_one tb (\<lambda>r. em_id r = i)"

definition enc_get_by_msg_id :: "'t encs \<Rightarrow> string \<Rightarrow> ('t, enc_row option) db_op" where
  "enc_get_by_msg_id tb msg_id = db_one tb (\<lambda>r. em_msg_id r = msg_id)"

definition enc_get_for_recipient :: "'t encs \<Rightarrow> string \<Rightarrow> ('t, enc_row list) db_op" where
  "enc_get_for_recipient tb address =
     db_sorted tb (\<lambda>r. em_to_address r = address \<and> \<not> em_deleted_by_receiver r) em_created_at"

definition enc_get_sent :: "'t encs \<Rightarrow> string \<Rightarrow> ('t, enc_row list) db_op" where
  "enc_get_sent tb address =
     db_sorted tb (\<lambda>r. em_from_address r = address \<and> \<not> em_deleted_by_sender r) (\<lambda>r. - em_created_at r)"

definition enc_get_unread_count :: "'t encs \<Rightarrow> string \<Rightarrow> ('t, u64) db_op" where
  "enc_get_unread_count tb address =
     db_bind (db_all tb (\<lambda>r. em_to_address r = address \<and> em_status r = ''unread'')) (\<lambda>rs.
       db_ok (word_of_nat (length rs)))"

definition message_not_found :: store_error where
  "message_not_found = Rejected ''message not found''"

text \<open>The shape of \<open>mark_read\<close>, \<open>delete_by_sender\<close> and \<open>delete_by_receiver\<close>.\<close>

definition enc_modify :: "'t encs \<Rightarrow> (enc_row \<Rightarrow> bool) \<Rightarrow> (enc_row \<Rightarrow> enc_row) \<Rightarrow> ('t, unit) db_op" where
  "enc_modify tb P f =
     db_bind (db_one tb P) (\<lambda>found.
       case found of
         None \<Rightarrow> db_err message_not_found
       | Some r \<Rightarrow> db_bind (db_update tb (f r)) (\<lambda>_. db_ok ()))"

definition enc_mark_read :: "'t encs \<Rightarrow> string \<Rightarrow> string \<Rightarrow> ('t, unit) db_op" where
  "enc_mark_read tb msg_id recipient =
     enc_modify tb (\<lambda>r. em_msg_id r = msg_id \<and> em_to_address r = recipient) (\<lambda>r. r\<lparr>em_status := ''read''\<rparr>)"

definition enc_mark_read_all :: "'t encs \<Rightarrow> string \<Rightarrow> ('t, unit) db_op" where
  "enc_mark_read_all tb address =
     db_bind (db_all tb (\<lambda>r. em_to_address r = address \<and> em_status r = ''unread'')) (\<lambda>rs.
       db_each (\<lambda>r. db_bind (db_update tb (r\<lparr>em_status := ''read''\<rparr>)) (\<lambda>_. db_ok ())) rs)"

definition enc_delete_by_sender :: "'t encs \<Rightarrow> string \<Rightarrow> string \<Rightarrow> ('t, unit) db_op" where
  "enc_delete_by_sender tb msg_id sender =
     enc_modify tb (\<lambda>r. em_msg_id r = msg_id \<and> em_from_address r = sender) (\<lambda>r. r\<lparr>em_deleted_by_sender := True\<rparr>)"

definition enc_delete_by_receiver :: "'t encs \<Rightarrow> string \<Rightarrow> string \<Rightarrow> ('t, unit) db_op" where
  "enc_delete_by_receiver tb msg_id receiver =
     enc_modify tb (\<lambda>r. em_msg_id r = msg_id \<and> em_to_address r = receiver) (\<lambda>r. r\<lparr>em_deleted_by_receiver := True\<rparr>)"

definition enc_get_total_size_for_address :: "'t encs \<Rightarrow> string \<Rightarrow> ('t, i64) db_op" where
  "enc_get_total_size_for_address tb address =
     db_bind (db_all tb (\<lambda>r. em_to_address r = address)) (\<lambda>rs.
       db_ok (wrap_i64 (sum_list (map em_size_bytes rs))))"

definition enc_get_message_count_for_epoch :: "'t encs \<Rightarrow> i64 \<Rightarrow> string \<Rightarrow> ('t, i64 \<times> i64) db_op" where
  "enc_get_message_count_for_epoch tb epoch address =
     (let start_ts = wrap_i64 (epoch * 86400); end_ts = wrap_i64 (start_ts + 86400)
      in db_bind (db_all tb (\<lambda>r. em_from_address r = address \<and> start_ts \<le> em_created_at r \<and>
                                  em_created_at r < end_ts)) (\<lambda>rs.
           db_ok (int (length rs), wrap_i64 (sum_list (map em_size_bytes rs)))))"

definition enc_reset :: "'t encs \<Rightarrow> ('t, unit) db_op" where
  "enc_reset tb = db_delete tb (\<lambda>_. True)"

subsection \<open>Contacts by address\<close>

abbreviation contacts_ok :: "'t contacts \<Rightarrow> 't \<Rightarrow> bool" where
  "contacts_ok tb \<equiv> keyed_ok tb ct_id (\<lambda>i r. r\<lparr>ct_id := i\<rparr>) ct_address"

lemma contact_add_found:
  assumes ok: "contacts_ok tb t" and u: "unique_column tb ct_address"
    and add: "contact_add tb now name address t = (Inr r, t')" and up: "tb_up tb t'"
  shows "contacts_ok tb t' \<and> ct_name r = name \<and> contact_find_by_address tb address t' = (Inr (Some r), t')"
proof -
  let ?r = "\<lparr>ct_id = 0, ct_name = name, ct_address = address, ct_created_at = now, ct_updated_at = now\<rparr>"
  have ins: "tb_insert tb ?r t = Some (r, t')" using add by (simp add: contact_add_def db_results)
  have tb: "table_ok tb ct_id (\<lambda>i r. r\<lparr>ct_id := i\<rparr>)" "distinct (map ct_id (tb_rows tb t))"
    "distinct (map ct_address (tb_rows tb t))" using ok by (auto simp: keyed_ok_def)
  have new: "ct_address ?r \<notin> ct_address ` set (tb_rows tb t)"
    using u ins unfolding unique_column_def by blast
  obtain i where "r = ?r\<lparr>ct_id := i\<rparr>" by (rule insert_rows [OF tb(1) ins])
  with insert_find [where key = ct_address, OF tb(1) ins _ _ tb(2,3) new] show ?thesis
    using tb(1) up by (simp add: keyed_ok_def contact_find_by_address_def db_simps)
qed

lemma contact_delete_gone:
  assumes "table_ok tb ct_id (\<lambda>i r. r\<lparr>ct_id := i\<rparr>)" "contact_delete tb address t = (Inr u, t')" "tb_up tb t'"
  shows "contact_find_by_address tb address t' = (Inr None, t')"
proof -
  have m: "mset (tb_rows tb t') = mset (filter (\<lambda>r. ct_address r \<noteq> address) (tb_rows tb t))"
    using assms(1,2) by (auto simp: contact_delete_def db_results table_ok_def delete_law_def)
  show ?thesis
    using assms(3) mset_eq_setD [OF m] by (auto simp: contact_find_by_address_def db_simps find_None_iff)
qed

subsection \<open>Marking as read\<close>

lemma chat_mark_as_read_rows:
  assumes tb: "rows_ok tb cm_id (\<lambda>i r. r\<lparr>cm_id := i\<rparr>) t" and run: "chat_mark_as_read tb contact t = (Inr u, t')"
  shows "mset (tb_rows tb t') = mset (map (\<lambda>r. if cm_contact_address r = contact \<and> chat_unread r
      then r\<lparr>cm_status := ''read''\<rparr> else r) (tb_rows tb t))"
proof -
  let ?P = "\<lambda>r. cm_contact_address r = contact \<and> chat_unread r"
  have d: "distinct (map cm_id (tb_rows tb t))" using tb by (simp add: rows_ok_def)
  have "mset (tb_rows tb t') = mset (map (\<lambda>r. if r \<in> set (filter ?P (tb_rows tb t))
      then r\<lparr>cm_status := ''read''\<rparr> else r) (tb_rows tb t))"
  proof (rule update_each [where rid = cm_id])
    show "table_ok tb cm_id (\<lambda>i r. r\<lparr>cm_id := i\<rparr>)" using tb by (simp add: rows_ok_def)
    show "db_each (\<lambda>r. db_bind (db_update tb (r\<lparr>cm_status := ''read''\<rparr>)) (\<lambda>_. db_ok ()))
        (filter ?P (tb_rows tb t)) t = (Inr (), t')"
      using run unfolding chat_mark_as_read_def db_bind_Inr db_reads by (auto split: if_splits)
  qed (use d in \<open>auto simp: distinct_map_filter\<close>)
  also have "map (\<lambda>r. if r \<in> set (filter ?P (tb_rows tb t)) then r\<lparr>cm_status := ''read''\<rparr> else r) (tb_rows tb t) =
      map (\<lambda>r. if ?P r then r\<lparr>cm_status := ''read''\<rparr> else r) (tb_rows tb t)"
    by (rule map_cong) auto
  finally show ?thesis .
qed

lemma enc_mark_read_all_rows:
  assumes tb: "rows_ok tb em_id (\<lambda>i r. r\<lparr>em_id := i\<rparr>) t" and run: "enc_mark_read_all tb address t = (Inr u, t')"
  shows "mset (tb_rows tb t') = mset (map (\<lambda>r. if em_to_address r = address \<and> em_status r = ''unread''
      then r\<lparr>em_status := ''read''\<rparr> else r) (tb_rows tb t))"
proof -
  let ?P = "\<lambda>r. em_to_address r = address \<and> em_status r = ''unread''"
  have d: "distinct (map em_id (tb_rows tb t))" using tb by (simp add: rows_ok_def)
  have "mset (tb_rows tb t') = mset (map (\<lambda>r. if r \<in> set (filter ?P (tb_rows tb t))
      then r\<lparr>em_status := ''read''\<rparr> else r) (tb_rows tb t))"
  proof (rule update_each [where rid = em_id])
    show "table_ok tb em_id (\<lambda>i r. r\<lparr>em_id := i\<rparr>)" using tb by (simp add: rows_ok_def)
    show "db_each (\<lambda>r. db_bind (db_update tb (r\<lparr>em_status := ''read''\<rparr>)) (\<lambda>_. db_ok ()))
        (filter ?P (tb_rows tb t)) t = (Inr (), t')"
      using run unfolding enc_mark_read_all_def db_bind_Inr db_reads by (auto split: if_splits)
  qed (use d in \<open>auto simp: distinct_map_filter\<close>)
  also have "map (\<lambda>r. if r \<in> set (filter ?P (tb_rows tb t)) then r\<lparr>em_status := ''read''\<rparr> else r) (tb_rows tb t) =
      map (\<lambda>r. if ?P r then r\<lparr>em_status := ''read''\<rparr> else r) (tb_rows tb t)"
    by (rule map_cong) auto
  finally show ?thesis .
qed

text \<open>The unread count of the contact drops to zero, that of every other contact stays.\<close>

lemma chat_mark_as_read_counts:
  assumes "rows_ok tb cm_id (\<lambda>i r. r\<lparr>cm_id := i\<rparr>) t" "chat_mark_as_read tb contact t = (Inr u, t')"
    "tb_up tb t" "tb_up tb t'"
  shows "fst (chat_get_unread_count tb c t') =
    (if c = contact then Inr 0 else fst (chat_get_unread_count tb c t))"
proof -
  let ?P = "\<lambda>c r. cm_contact_address r = c \<and> chat_unread r"
  let ?f = "\<lambda>r. if ?P contact r then r\<lparr>cm_status := ''read''\<rparr> else r"
  have len: "length (filter (?P c) (tb_rows tb t')) = length (filter (?P c) (map ?f (tb_rows tb t)))"
    by (rule length_filter_mset [OF chat_mark_as_read_rows [OF assms(1,2)]])
  have "?P c (?f r) \<longleftrightarrow> c \<noteq> contact \<and> ?P c r" for r by (auto simp: chat_unread_def)
  then have "length (filter (?P c) (map ?f (tb_rows tb t))) =
      (if c = contact then 0 else length (filter (?P c) (tb_rows tb t)))"
    by (simp add: filter_map o_def)
  then show ?thesis using len assms(3,4) by (simp add: chat_get_unread_count_def db_bind_apply db_simps)
qed

subsection \<open>Conversations\<close>

lemma chat_group_lookup:
  "map_of (chat_group rs) a = (let ms = filter (\<lambda>r. cm_contact_address r = a) rs in if ms = [] then None else Some ms)"
proof (induction rs rule: rev_induct)
  case (snoc r rs)
  then show ?case by (auto simp: chat_group_def map_laws Let_def split: option.splits if_splits)
qed (simp add: chat_group_def)

lemma chat_group_distinct: "distinct (hkeys (chat_group rs))"
  by (induction rs rule: rev_induct) (simp_all add: chat_group_def map_laws)

text \<open>
  There is one summary per contact with messages, and it shows a newest message of that
  contact and the number of its unread messages.
\<close>

lemma conversations_complete:
  assumes "tb_up tb t" "chat_get_conversations tb t = (Inr cs, t')"
  shows "distinct (map cs_address cs)" "set (map cs_address cs) = cm_contact_address ` set (tb_rows tb t)"
    "sorted (map (\<lambda>c. - cs_last_timestamp c) cs)"
    "c \<in> set cs \<Longrightarrow> cs_unread_count c =
       word_of_nat (length (filter (\<lambda>r. cm_contact_address r = cs_address c \<and> chat_unread r) (tb_rows tb t)))"
    "c \<in> set cs \<Longrightarrow> r \<in> set (tb_rows tb t) \<Longrightarrow> cm_contact_address r = cs_address c \<Longrightarrow>
       cm_timestamp r \<le> cs_last_timestamp c"
proof -
  define rs where "rs = sort_key (\<lambda>r. - cm_timestamp r) (tb_rows tb t)"
  have rs: "set rs = set (tb_rows tb t)" "sorted (map (\<lambda>r. - cm_timestamp r) rs)" by (simp_all add: rs_def)
  have cs: "cs = sort_key (\<lambda>c. - cs_last_timestamp c) (map chat_summarise (chat_group rs))"
    using assms by (auto simp: chat_get_conversations_def db_bind_apply db_simps rs_def)
  have addr: "map cs_address (map chat_summarise (chat_group rs)) = hkeys (chat_group rs)"
    by (auto simp: chat_summarise_def)
  have m: "mset (map cs_address cs) = mset (hkeys (chat_group rs))"
    unfolding addr [symmetric] cs by (simp only: mset_map mset_sort)
  then show "distinct (map cs_address cs)" using chat_group_distinct [of rs] mset_eq_imp_distinct_iff by blast
  have keys: "set (hkeys (chat_group rs)) = cm_contact_address ` set rs"
    using chat_group_lookup [of rs] by (auto simp: dom_map_of_conv_image_fst [symmetric] Let_def filter_empty_conv split: if_splits)
  then show "set (map cs_address cs) = cm_contact_address ` set (tb_rows tb t)"
    using mset_eq_setD [OF m] rs(1) by simp
  show "sorted (map (\<lambda>c. - cs_last_timestamp c) cs)" by (simp add: cs)
  assume c: "c \<in> set cs"
  then obtain a ms where c: "c = chat_summarise (a, ms)" and "(a, ms) \<in> set (chat_group rs)"
    unfolding cs by (auto simp: chat_summarise_def)
  then have "map_of (chat_group rs) a = Some ms" using chat_group_distinct [of rs] by simp
  then have ms: "ms = filter (\<lambda>r. cm_contact_address r = a) rs" "ms \<noteq> []"
    by (auto simp: chat_group_lookup Let_def split: if_splits)
  have "length (filter chat_unread ms) =
      length (filter (\<lambda>r. cm_contact_address r = a \<and> chat_unread r) rs)"
    by (simp add: ms(1) conj_commute)
  also have "\<dots> = length (filter (\<lambda>r. cm_contact_address r = a \<and> chat_unread r) (tb_rows tb t))"
    by (rule length_filter_mset) (simp add: rs_def)
  finally show "cs_unread_count c =
       word_of_nat (length (filter (\<lambda>r. cm_contact_address r = cs_address c \<and> chat_unread r) (tb_rows tb t)))"
    by (simp add: c chat_summarise_def)
  assume r: "r \<in> set (tb_rows tb t)" "cm_contact_address r = cs_address c"
  have "r \<in> set ms" using r rs(1) by (simp add: ms(1) c chat_summarise_def)
  moreover have "sorted (map (\<lambda>r. - cm_timestamp r) ms)" using rs(2) unfolding ms(1) by (rule sorted_filter)
  ultimately show "cm_timestamp r \<le> cs_last_timestamp c"
    using ms(2) by (cases ms) (auto simp: c chat_summarise_def)
qed

subsection \<open>Encrypted messages\<close>

lemma enc_modify_rows:
  assumes tb: "rows_ok tb em_id (\<lambda>i r. r\<lparr>em_id := i\<rparr>) t" and f: "\<And>r. em_id (f r) = em_id r"
    and run: "enc_modify tb P f t = (Inr u, t')"
  shows "\<exists>x \<in> set (tb_rows tb t). P x \<and>
    mset (tb_rows tb t') = mset (map (\<lambda>r. if r = x then f x else r) (tb_rows tb t))"
proof -
  obtain x where x: "find P (tb_rows tb t) = Some x" and upd: "tb_update tb (f x) t = Some t'"
    using run by (auto simp: enc_modify_def db_results db_simps split: if_splits option.splits)
  have mem: "x \<in> set (tb_rows tb t)" "P x" using x by (auto simp: find_Some_iff in_set_conv_nth)
  have "mset (tb_rows tb t') = mset (map (\<lambda>r. if em_id r = em_id (f x) then f x else r) (tb_rows tb t))"
    using tb upd by (auto simp: rows_ok_def table_ok_def update_law_def)
  also have "map (\<lambda>r. if em_id r = em_id (f x) then f x else r) (tb_rows tb t) =
      map (\<lambda>r. if r = x then f x else r) (tb_rows tb t)"
    using tb mem(1) f by (intro map_cong) (auto simp: rows_ok_def distinct_map dest: inj_onD)
  finally show ?thesis using mem by blast
qed

text \<open>A deletion by the sender does not change what the recipient is shown.\<close>

lemma delete_by_sender_keeps_recipient:
  assumes tb: "rows_ok tb em_id (\<lambda>i r. r\<lparr>em_id := i\<rparr>) t" and run: "enc_delete_by_sender tb m s t = (Inr u, t')"
    and up: "tb_up tb t" "tb_up tb t'" and res: "enc_get_for_recipient tb a t = (Inr xs, t1)"
      "enc_get_for_recipient tb a t' = (Inr ys, t2)"
  shows "mset (map em_msg_id ys) = mset (map em_msg_id xs)"
proof -
  let ?P = "\<lambda>r. em_to_address r = a \<and> \<not> em_deleted_by_receiver r"
  obtain x where x: "mset (tb_rows tb t') =
      mset (map (\<lambda>r. if r = x then x\<lparr>em_deleted_by_sender := True\<rparr> else r) (tb_rows tb t))" (is "_ = mset (map ?f _)")
    using enc_modify_rows [OF tb _ run [unfolded enc_delete_by_sender_def]] by auto
  have same: "map em_msg_id (filter ?P (map ?f rows)) = map em_msg_id (filter ?P rows)" for rows
    by (induction rows) auto
  have "mset (map em_msg_id ys) = image_mset em_msg_id (filter_mset ?P (mset (tb_rows tb t')))"
    using res(2) up(2) by (auto simp: enc_get_for_recipient_def db_simps)
  also have "\<dots> = mset (map em_msg_id (filter ?P (map ?f (tb_rows tb t))))"
    unfolding x by (simp only: mset_map mset_filter)
  also have "\<dots> = mset (map em_msg_id (filter ?P (tb_rows tb t)))" by (simp only: same)
  also have "\<dots> = mset (map em_msg_id xs)"
    using res(1) up(1) by (auto simp: enc_get_for_recipient_def db_simps)
  finally show ?thesis .
qed

text \<open>Every row is hashed against the same genesis value: the messages do not form a chain.\<close>

lemma enc_rows_unchained: "enc_insert sha256 tb now m a b c n p t = (Inr r, t') \<Longrightarrow>
  table_ok tb em_id (\<lambda>i r. r\<lparr>em_id := i\<rparr>) \<Longrightarrow> em_pre_hash r = genesis_pre_hash"
  by (auto simp: enc_insert_def db_results elim!: insert_rows)

end
