(* ===== verification/Text.thy ===== *)
theory Text
  imports Prelude
begin

text \<open>
  Text as the program handles it: a Rust string is a sequence of UTF-8 bytes, a
  \<^typ>\<open>string\<close> here has one character per byte. White space, \<^verbatim>\<open>trim\<close>,
  \<^verbatim>\<open>split_whitespace\<close>, \<^verbatim>\<open>split\<close> and the test for valid UTF-8.
\<close>

subsection \<open>Code points\<close>

definition is_cont :: "char \<Rightarrow> bool" where
  "is_cont c \<longleftrightarrow> (let n = (of_char c :: nat) in 128 \<le> n \<and> n < 192)"

text \<open>The code points of a string, each with its bytes.\<close>

function utf8_chars :: "string \<Rightarrow> string list" where
  "utf8_chars [] = []"
| "utf8_chars (c # cs) = (c # takeWhile is_cont cs) # utf8_chars (dropWhile is_cont cs)"
  by pat_completeness auto
termination
  by (relation "measure length") (auto simp: length_dropWhile_le le_imp_less_Suc)

text \<open>The Unicode white space characters, by their bytes.\<close>

definition ws_bytes :: "nat list \<Rightarrow> bool" where
  "ws_bytes bs \<longleftrightarrow>
     (case bs of
        [a] \<Rightarrow> 9 \<le> a \<and> a \<le> 13 \<or> a = 32
      | [a, b] \<Rightarrow> a = 0xC2 \<and> (b = 0x85 \<or> b = 0xA0)
      | [a, b, c] \<Rightarrow>
          a = 0xE1 \<and> b = 0x9A \<and> c = 0x80 \<or> a = 0xE3 \<and> b = 0x80 \<and> c = 0x80 \<or>
          a = 0xE2 \<and> b = 0x81 \<and> c = 0x9F \<or>
          a = 0xE2 \<and> b = 0x80 \<and> (0x80 \<le> c \<and> c \<le> 0x8A \<or> c = 0xA8 \<or> c = 0xA9 \<or> c = 0xAF)
      | _ \<Rightarrow> False)"

definition is_ws :: "string \<Rightarrow> bool" where
  "is_ws p = ws_bytes (map of_char p)"

definition trim :: "string \<Rightarrow> string" where
  "trim s = concat (rev (dropWhile is_ws (rev (dropWhile is_ws (utf8_chars s)))))"

fun split_chars :: "string list \<Rightarrow> string list" where
  "split_chars [] = [[]]"
| "split_chars (p # ps) =
     (if is_ws p then [] # split_chars ps
      else (case split_chars ps of [] \<Rightarrow> [p] | w # ws \<Rightarrow> (p @ w) # ws))"

definition split_whitespace :: "string \<Rightarrow> string list" where
  "split_whitespace s = filter (\<lambda>w. w \<noteq> []) (split_chars (utf8_chars s))"

text \<open>\<^verbatim>\<open>str::split\<close> at an ASCII character: always at least one piece.\<close>

fun split_on :: "char \<Rightarrow> string \<Rightarrow> string list" where
  "split_on d [] = [[]]"
| "split_on d (c # cs) =
     (if c = d then [] # split_on d cs
      else (case split_on d cs of [] \<Rightarrow> [[c]] | w # ws \<Rightarrow> (c # w) # ws))"

subsection \<open>Valid UTF-8\<close>

text \<open>
  \<open>utf8_from n lo hi\<close> wants \<open>n\<close> continuation bytes, the first of them between
  \<open>lo\<close> and \<open>hi\<close>.
\<close>

fun utf8_from :: "nat \<Rightarrow> u8 \<Rightarrow> u8 \<Rightarrow> bytes \<Rightarrow> bool" where
  "utf8_from (Suc n) lo hi bs =
     (case bs of [] \<Rightarrow> False | b # cs \<Rightarrow> lo \<le> b \<and> b \<le> hi \<and> utf8_from n 0x80 0xBF cs)"
| "utf8_from 0 lo hi bs =
     (case bs of
        [] \<Rightarrow> True
      | a # cs \<Rightarrow>
          if a < 0x80 then utf8_from 0 lo hi cs
          else if 0xC2 \<le> a \<and> a \<le> 0xDF then utf8_from 1 0x80 0xBF cs
          else if a = 0xE0 then utf8_from 2 0xA0 0xBF cs
          else if a = 0xED then utf8_from 2 0x80 0x9F cs
          else if 0xE1 \<le> a \<and> a \<le> 0xEF then utf8_from 2 0x80 0xBF cs
          else if a = 0xF0 then utf8_from 3 0x90 0xBF cs
          else if 0xF1 \<le> a \<and> a \<le> 0xF3 then utf8_from 3 0x80 0xBF cs
          else if a = 0xF4 then utf8_from 3 0x80 0x8F cs
          else False)"

definition utf8_valid :: "bytes \<Rightarrow> bool" where
  "utf8_valid bs = utf8_from 0 0x80 0xBF bs"

text \<open>Bytes as text.\<close>

definition of_bytes :: "bytes \<Rightarrow> string" where
  "of_bytes bs = map (\<lambda>b. char_of (unat b)) bs"

definition string_from_utf8 :: "bytes \<Rightarrow> string option" where
  "string_from_utf8 bs = (if utf8_valid bs then Some (of_bytes bs) else None)"

subsection \<open>Lemmas\<close>

lemma concat_utf8_chars [simp]: "concat (utf8_chars s) = s"
  by (induction s rule: utf8_chars.induct) simp_all

lemma utf8_chars_not_empty: "p \<in> set (utf8_chars s) \<Longrightarrow> p \<noteq> []"
  by (induction s rule: utf8_chars.induct) auto

lemma utf8_chars_eq_Nil [simp]: "utf8_chars s = [] \<longleftrightarrow> s = []"
  by (cases s) simp_all

lemma split_chars_not_Nil [simp]: "split_chars ps \<noteq> []"
  by (induction ps) (auto split: list.splits)

lemma concat_split_chars: "concat (split_chars ps) = concat (filter (\<lambda>p. \<not> is_ws p) ps)"
  by (induction ps) (auto split: list.splits)

text \<open>The words of a line are its characters other than white space, in order.\<close>

lemma concat_split_whitespace: "concat (split_whitespace s) = concat (filter (\<lambda>p. \<not> is_ws p) (utf8_chars s))"
proof -
  have "concat (filter (\<lambda>w. w \<noteq> []) ws) = concat ws" for ws :: "string list"
    by (induction ws) auto
  then show ?thesis by (simp add: split_whitespace_def concat_split_chars)
qed

lemma dropWhile_all: "dropWhile P xs = [] \<longleftrightarrow> (\<forall>x \<in> set xs. P x)"
  by (induction xs) auto

lemma trim_empty: "trim s = [] \<longleftrightarrow> (\<forall>p \<in> set (utf8_chars s). is_ws p)"
proof -
  define d where "d = dropWhile is_ws (utf8_chars s)"
  define e where "e = dropWhile is_ws (rev d)"
  have "p \<noteq> []" if "p \<in> set e" for p
    using that utf8_chars_not_empty [of p s] by (auto simp: d_def e_def dest!: set_dropWhileD)
  then have "trim s = [] \<longleftrightarrow> e = []"
    by (cases e) (auto simp: trim_def d_def [symmetric] e_def [symmetric])
  also have "\<dots> \<longleftrightarrow> (\<forall>p \<in> set d. is_ws p)" by (simp add: e_def dropWhile_all)
  also have "\<dots> \<longleftrightarrow> d = []"
    by (cases d) (use hd_dropWhile [of is_ws "utf8_chars s"] in \<open>auto simp: d_def [symmetric]\<close>)
  finally show ?thesis by (simp add: d_def dropWhile_all)
qed

text \<open>A line that is not blank has a first word: taking it cannot fail.\<close>

lemma split_whitespace_not_Nil: "trim s \<noteq> [] \<Longrightarrow> split_whitespace s \<noteq> []"
proof -
  assume "trim s \<noteq> []"
  then obtain p where "p \<in> set (utf8_chars s)" "\<not> is_ws p" by (auto simp: trim_empty)
  then have "concat (split_whitespace s) \<noteq> []"
    using utf8_chars_not_empty by (auto simp: concat_split_whitespace)
  then show ?thesis by auto
qed

lemma split_on_not_Nil [simp]: "split_on d s \<noteq> []"
  by (induction s) (auto split: list.splits)

lemma split_on_single: "d \<notin> set s \<Longrightarrow> split_on d s = [s]"
  by (induction s) auto

lemma split_on_pieces: "w \<in> set (split_on d s) \<Longrightarrow> d \<notin> set w"
  by (induction s arbitrary: w) (auto split: list.splits if_splits)

lemma of_bytes_as_bytes [simp]: "of_bytes (as_bytes s) = s"
proof -
  have "char_of (unat (word_of_nat (of_char c) :: u8)) = c" for c :: char
    using char_of_char [of c] of_char_of [of "of_char c :: nat"]
    by (simp add: unat_of_nat)
  then show ?thesis by (simp add: of_bytes_def as_bytes_def comp_def)
qed

lemma ascii_valid: "list_all (\<lambda>c. (of_char c :: nat) < 128) s \<Longrightarrow> string_from_utf8 (as_bytes s) = Some s"
proof -
  assume ascii: "list_all (\<lambda>c. (of_char c :: nat) < 128) s"
  have "(word_of_nat n :: u8) < 0x80" if "n < 128" for n
    using that by (simp add: word_less_nat_alt unat_of_nat)
  then have "utf8_from 0 0x80 0xBF (as_bytes s)"
    using ascii by (induction s) (simp_all add: as_bytes_def)
  then show ?thesis by (simp add: string_from_utf8_def utf8_valid_def)
qed

text \<open>A list of code points is what the text it spells is cut into.\<close>

fun code_points :: "string list \<Rightarrow> bool" where
  "code_points [] = True"
| "code_points (p # ps) \<longleftrightarrow>
     p \<noteq> [] \<and> list_all is_cont (tl p) \<and> list_all (\<lambda>q. \<not> is_cont (hd q)) ps \<and> code_points ps"

lemma code_points_utf8_chars: "code_points (utf8_chars s) \<and> list_all (\<lambda>q. \<not> is_cont (hd q)) (tl (utf8_chars s))"
proof (induction s rule: utf8_chars.induct)
  case (2 c cs)
  have t: "list_all is_cont (takeWhile is_cont cs)" by (auto simp: list_all_iff dest: set_takeWhileD)
  show ?case
  proof (cases "dropWhile is_cont cs")
    case Nil
    show ?thesis unfolding utf8_chars.simps(2) Nil by (simp add: t)
  next
    case (Cons x xs)
    have "\<not> is_cont x" using hd_dropWhile [of is_cont cs] unfolding Cons by simp
    then show ?thesis using 2 t unfolding utf8_chars.simps(2) [of c] Cons by simp
  qed
qed simp

lemma code_points_append: "code_points (ps @ qs) \<Longrightarrow> code_points ps \<and> code_points qs"
  by (induction ps) auto

lemma utf8_chars_concat: "code_points ps \<Longrightarrow> utf8_chars (concat ps) = ps"
proof (induction ps)
  case (Cons p ps)
  obtain c cs where p: "p = c # cs" using Cons.prems by (cases p) auto
  have cs: "\<forall>x \<in> set cs. is_cont x" using Cons.prems by (simp add: p list_all_iff)
  have "concat ps = [] \<or> \<not> is_cont (hd (concat ps))"
    using Cons.prems by (cases ps) (auto simp: hd_append)
  moreover have "takeWhile is_cont z = [] \<and> dropWhile is_cont z = z" if "z = [] \<or> \<not> is_cont (hd z)" for z
    using that by (cases z) auto
  ultimately have "takeWhile is_cont (cs @ concat ps) = cs" "dropWhile is_cont (cs @ concat ps) = concat ps"
    using cs by (simp_all only: takeWhile_append2 dropWhile_append2) simp
  moreover have "concat (p # ps) = c # cs @ concat ps" by (simp add: p)
  ultimately show ?case using Cons by (simp only: utf8_chars.simps) (simp add: p)
qed simp

lemma trim_not_blank: "trim s \<noteq> [] \<Longrightarrow> trim (trim s) \<noteq> []"
proof -
  assume ne: "trim s \<noteq> []"
  define d where "d = dropWhile is_ws (utf8_chars s)"
  define e where "e = dropWhile is_ws (rev d)"
  have t: "trim s = concat (rev e)" by (simp add: trim_def d_def e_def)
  have "code_points d"
    using code_points_append [of "takeWhile is_ws (utf8_chars s)" d] code_points_utf8_chars [of s]
    by (simp add: d_def)
  moreover have "d = rev e @ rev (takeWhile is_ws (rev d))"
    unfolding e_def by (metis rev_append rev_rev_ident takeWhile_dropWhile_id)
  ultimately have "utf8_chars (trim s) = rev e"
    using code_points_append [of "rev e"] utf8_chars_concat [of "rev e"] t by metis
  moreover have "e \<noteq> []" using ne t by auto
  moreover have "\<not> is_ws (hd e)" using \<open>e \<noteq> []\<close> hd_dropWhile [of is_ws "rev d"] by (simp add: e_def)
  ultimately show ?thesis by (metis hd_in_set set_rev trim_empty)
qed

end
