(* ===== verification/Files.thy ===== *)
theory Files
  imports Text "HOL-Library.Sublist"
begin

text \<open>
  Paths and the file system that \<^verbatim>\<open>src/user_store.rs\<close> uses. \<^verbatim>\<open>Path::join\<close> and
  \<^verbatim>\<open>Path::parent\<close> are definitions; the file system itself is a parameter, the record
  \<open>fs_ops\<close>, and \<open>fs_ok\<close> states what the operations promise: a successful write is read back,
  and an operation on one path leaves alone what is read from a path that it cannot reach.
  Creating a directory may change what its own path and the paths above it give, writing or
  removing a file what the paths at and below it give; nothing is said of paths with the
  component \<^verbatim>\<open>..\<close>, which lead through directories that may not exist yet. That two
  paths with different components name different files holds where the storage has no links
  and tells upper and lower case. A tree of directories and files meets the contract.
\<close>

subsection \<open>Operations\<close>

datatype read_result = FileData bytes | FileMissing | FileErr

datatype remove_result = Removed | RemoveMissing | RemoveErr

datatype file_kind = IsFile | IsDir | IsOther | KindErr

datatype dir_entry = Entry "string option" file_kind | EntryErr

datatype dir_result = DirEntries "dir_entry list" | DirMissing | DirErr

record 'f fs_ops =
  fs_read :: "string \<Rightarrow> 'f \<Rightarrow> read_result"
  fs_write :: "string \<Rightarrow> bytes \<Rightarrow> 'f \<Rightarrow> bool \<times> 'f"
  fs_create_dir_all :: "string \<Rightarrow> 'f \<Rightarrow> bool \<times> 'f"
  fs_remove_file :: "string \<Rightarrow> 'f \<Rightarrow> remove_result \<times> 'f"
  fs_read_dir :: "string \<Rightarrow> 'f \<Rightarrow> dir_result"

subsection \<open>Paths\<close>

text \<open>\<^verbatim>\<open>Path::join\<close> and \<^verbatim>\<open>Path::parent\<close> on Unix paths: an absolute argument replaces the base.\<close>

definition path_join :: "string \<Rightarrow> string \<Rightarrow> string" where
  "path_join base rel =
     (if rel \<noteq> [] \<and> hd rel = CHR ''/'' then rel
      else if base = [] \<or> last base = CHR ''/'' then base @ rel
      else base @ ''/'' @ rel)"

definition path_parent :: "string \<Rightarrow> string option" where
  "path_parent p =
     (case dropWhile (\<lambda>c. c = CHR ''/'') (rev p) of
        [] \<Rightarrow> None
      | r \<Rightarrow>
          (case dropWhile (\<lambda>c. c \<noteq> CHR ''/'') r of
             [] \<Rightarrow> Some []
           | r' \<Rightarrow>
               (let q = dropWhile (\<lambda>c. c = CHR ''/'') r'
                in Some (if q = [] then ''/'' else rev q))))"

text \<open>The components that matter: empty ones and dots name the directory itself.\<close>

definition path_parts :: "string \<Rightarrow> string list" where
  "path_parts p = filter (\<lambda>c. c \<noteq> [] \<and> c \<noteq> ''.'') (split_on (CHR ''/'') p)"

definition path_abs :: "string \<Rightarrow> bool" where
  "path_abs p \<longleftrightarrow> p \<noteq> [] \<and> hd p = CHR ''/''"

definition path_plain :: "string \<Rightarrow> bool" where
  "path_plain p \<longleftrightarrow> ''..'' \<notin> set (path_parts p)"

text \<open>The second path does not lie at or below the first.\<close>

definition path_apart :: "string \<Rightarrow> string \<Rightarrow> bool" where
  "path_apart p q \<longleftrightarrow>
     path_plain p \<and> path_plain q \<and> path_abs p = path_abs q \<and> \<not> prefix (path_parts p) (path_parts q)"

text \<open>A name of one file: a single component.\<close>

definition plain_name :: "string \<Rightarrow> bool" where
  "plain_name n \<longleftrightarrow> n \<noteq> [] \<and> n \<noteq> ''.'' \<and> n \<noteq> ''..'' \<and> CHR ''/'' \<notin> set n"

definition fs_ok :: "'f fs_ops \<Rightarrow> bool" where
  "fs_ok fs \<longleftrightarrow>
     (\<forall>p b s s'. fs_write fs p b s = (True, s') \<longrightarrow> fs_read fs p s' = FileData b) \<and>
     (\<forall>p b s ok s' q. fs_write fs p b s = (ok, s') \<longrightarrow> path_apart p q \<longrightarrow> fs_read fs q s' = fs_read fs q s) \<and>
     (\<forall>p s ok s' q. fs_create_dir_all fs p s = (ok, s') \<longrightarrow> path_apart q p \<longrightarrow> fs_read fs q s' = fs_read fs q s) \<and>
     (\<forall>p s s'. fs_remove_file fs p s = (Removed, s') \<longrightarrow> fs_read fs p s' = FileMissing) \<and>
     (\<forall>p s r s' q. fs_remove_file fs p s = (r, s') \<longrightarrow> path_apart p q \<longrightarrow> fs_read fs q s' = fs_read fs q s)"

subsection \<open>Components of joined paths\<close>

lemma split_on_append: "split_on d (xs @ d # ys) = split_on d xs @ split_on d ys"
  by (induction xs) (auto split: list.splits)

lemma path_parts_append: "path_parts (xs @ CHR ''/'' # ys) = path_parts xs @ path_parts ys"
  by (simp add: path_parts_def split_on_append)

lemma path_parts_Nil [simp]: "path_parts [] = []"
  by (simp add: path_parts_def)

lemma path_parts_name: "plain_name n \<Longrightarrow> path_parts n = [n]"
  by (simp add: path_parts_def plain_name_def split_on_single)

lemma path_parts_join:
  assumes "\<not> path_abs rel"
  shows "path_parts (path_join base rel) = path_parts base @ path_parts rel"
proof (cases base rule: rev_cases)
  case (snoc b c)
  show ?thesis
  proof (cases "c = CHR ''/''")
    case True
    then show ?thesis
      using assms path_parts_append [of b rel] path_parts_append [of b "[]"]
      by (auto simp: path_join_def path_abs_def snoc)
  next
    case False
    then show ?thesis
      using assms path_parts_append [of base rel] by (auto simp: path_join_def path_abs_def snoc)
  qed
qed (use assms in \<open>auto simp: path_join_def path_abs_def\<close>)

lemma path_abs_join: "base \<noteq> [] \<Longrightarrow> \<not> path_abs rel \<Longrightarrow> path_abs (path_join base rel) = path_abs base"
  by (auto simp: path_join_def path_abs_def)

lemma path_join_not_Nil [simp]: "rel \<noteq> [] \<Longrightarrow> path_join base rel \<noteq> []" "base \<noteq> [] \<Longrightarrow> path_join base rel \<noteq> []"
  by (auto simp: path_join_def)

lemma path_parts_slashes: "path_parts (rev (dropWhile (\<lambda>c. c = CHR ''/'') (rev p))) = path_parts p"
proof (induction p rule: rev_induct)
  case (snoc c p)
  then show ?case using path_parts_append [of p "[]"] by simp
qed simp

lemma path_abs_slashes:
  "dropWhile (\<lambda>c. c = CHR ''/'') (rev p) \<noteq> [] \<Longrightarrow>
   path_abs (rev (dropWhile (\<lambda>c. c = CHR ''/'') (rev p))) = path_abs p"
proof (induction p rule: rev_induct)
  case (snoc c p)
  then show ?case by (cases p) (auto simp: path_abs_def split: if_splits)
qed simp

text \<open>The parent of a file in a directory is that directory, up to slashes at its end.\<close>

lemma path_parent_join:
  assumes n: "plain_name n" and d: "d \<noteq> []"
  obtains d' where "path_parent (path_join d n) = Some d'" "path_parts d' = path_parts d" "path_abs d' = path_abs d"
    "last d \<noteq> CHR ''/'' \<Longrightarrow> d' = d"
proof -
  let ?drop = "dropWhile (\<lambda>c. c = CHR ''/'')"
  obtain x xs where rx: "rev n = x # xs" using n by (cases "rev n") (auto simp: plain_name_def)
  have x: "CHR ''/'' \<notin> set (x # xs)" using n rx by (metis plain_name_def set_rev)
  obtain e where j: "path_join d n = e @ CHR ''/'' # n" and e: "e = d \<or> d = e @ [CHR ''/'']"
  proof (cases d rule: rev_cases)
    case (snoc b c)
    then show ?thesis using that [of b] that [of d] n
      by (cases "c = CHR ''/''"; cases n) (auto simp: path_join_def plain_name_def)
  qed (use d in simp)
  have strip: "?drop (CHR ''/'' # rev e) = ?drop (rev d)" using e by auto
  have drop: "dropWhile (\<lambda>c. c \<noteq> CHR ''/'') (x # xs @ CHR ''/'' # rev e) = CHR ''/'' # rev e"
    using x by (subst append_Cons [symmetric], subst dropWhile_append2) auto
  have p: "path_parent (path_join d n) = Some (if ?drop (rev d) = [] then ''/'' else rev (?drop (rev d)))"
  proof -
    have "?drop (rev (path_join d n)) = x # xs @ CHR ''/'' # rev e" using x by (auto simp: j rx)
    then show ?thesis unfolding path_parent_def by (simp only: list.case drop Let_def strip)
  qed
  show thesis
  proof (cases "?drop (rev d)")
    case Nil
    then have all: "\<forall>x \<in> set d. x = CHR ''/''" unfolding dropWhile_eq_Nil_conv by simp
    then have "path_abs d" "last d = CHR ''/''" using d by (simp_all add: path_abs_def)
    moreover have "path_parts d = []" using path_parts_slashes [of d] unfolding Nil by simp
    ultimately show ?thesis
      using that [OF p] path_parts_append [of "[]" "[]"] unfolding Nil by (simp add: path_abs_def)
  next
    case (Cons y ys)
    have "?drop (rev d) = rev d" if "last d \<noteq> CHR ''/''"
      using that d by (cases d rule: rev_cases) simp_all
    then have "rev (?drop (rev d)) = d" if "last d \<noteq> CHR ''/''" using that by (metis rev_rev_ident)
    then show ?thesis using that [OF p] path_parts_slashes [of d] path_abs_slashes [of d] unfolding Cons by simp
  qed
qed

text \<open>Which paths an operation can reach depends on their components only.\<close>

lemma path_apart_parts:
  "path_parts p = path_parts p' \<Longrightarrow> path_abs p = path_abs p' \<Longrightarrow> path_apart q p = path_apart q p'"
  by (simp add: path_apart_def path_plain_def)

text \<open>A file in a directory is out of the reach of creating that directory.\<close>

lemma path_apart_above:
  assumes "path_plain (path_join d n)" "plain_name n" "d \<noteq> []"
  shows "path_apart (path_join d n) d"
proof -
  have n: "\<not> path_abs n" using assms(2) by (cases n) (auto simp: plain_name_def path_abs_def)
  then have "path_parts (path_join d n) = path_parts d @ [n]"
    using assms(2) by (simp add: path_parts_join path_parts_name)
  then show ?thesis
    using assms(1,3) n prefix_length_le [of "path_parts d @ [n]" "path_parts d"]
    by (auto simp: path_apart_def path_plain_def path_abs_join)
qed

subsection \<open>A tree of directories and files\<close>

text \<open>
  Every node has a key, its components from the root; a file has contents, a directory none.
  Nothing can be reached through a file.
\<close>

type_synonym tree = "(string list \<times> bytes option) list"

definition node_file :: "tree \<Rightarrow> string list \<Rightarrow> bool" where
  "node_file s k \<longleftrightarrow> (case map_of s k of Some (Some b) \<Rightarrow> True | _ \<Rightarrow> False)"

definition blocked :: "tree \<Rightarrow> string list \<Rightarrow> bool" where
  "blocked s k \<longleftrightarrow> ''..'' \<in> set k \<or> list_ex (\<lambda>i. node_file s (take i k)) [0..<length k]"

definition node_read :: "tree \<Rightarrow> string list \<Rightarrow> read_result" where
  "node_read s k =
     (if blocked s k then FileErr
      else (case map_of s k of Some (Some b) \<Rightarrow> FileData b | Some None \<Rightarrow> FileErr | None \<Rightarrow> FileMissing))"

definition add_dirs :: "string list \<Rightarrow> tree \<Rightarrow> tree" where
  "add_dirs k s = map (\<lambda>i. (take (Suc i) k, None)) [0..<length k] @ s"

definition tree_fs :: "tree fs_ops" where
  "tree_fs =
     \<lparr>fs_read = (\<lambda>p s. node_read s (path_parts p)),
      fs_write = (\<lambda>p b s. let k = path_parts p in
        if blocked s k \<or> k = [] \<or> map_of s k = Some None \<or> butlast k \<noteq> [] \<and> map_of s (butlast k) \<noteq> Some None
        then (False, s) else (True, (k, Some b) # s)),
      fs_create_dir_all = (\<lambda>p s. let k = path_parts p in
        if blocked s k \<or> node_file s k then (False, s) else (True, add_dirs k s)),
      fs_remove_file = (\<lambda>p s. let k = path_parts p in
        if blocked s k then (RemoveErr, s)
        else (case map_of s k of
                Some (Some b) \<Rightarrow> (Removed, AList.delete k s) | Some None \<Rightarrow> (RemoveErr, s) | None \<Rightarrow> (RemoveMissing, s))),
      fs_read_dir = (\<lambda>p s. let k = path_parts p in
        if blocked s k \<or> node_file s k then DirErr
        else if k \<noteq> [] \<and> map_of s k = None then DirMissing
        else DirEntries (map (\<lambda>j. Entry (Some (last j)) (if node_file s j then IsFile else IsDir))
               (filter (\<lambda>j. j \<noteq> [] \<and> butlast j = k) (remdups (map fst s)))))\<rparr>"

lemma node_read_cong:
  assumes "\<And>i. i < length k \<Longrightarrow> node_file s' (take i k) = node_file s (take i k)" "map_of s' k = map_of s k"
  shows "node_read s' k = node_read s k"
proof -
  have "blocked s' k = blocked s k" using assms(1) by (auto simp: blocked_def list_ex_iff)
  then show ?thesis by (simp add: node_read_def assms(2))
qed

text \<open>A change at one key is seen at that key and below it only.\<close>

lemma node_read_elsewhere:
  assumes "\<And>j. j \<noteq> k \<Longrightarrow> map_of s' j = map_of s j" "\<not> prefix k q"
  shows "node_read s' q = node_read s q"
proof (rule node_read_cong)
  have j: "take i q \<noteq> k" for i using assms(2) by (metis take_is_prefix)
  then show "node_file s' (take i q) = node_file s (take i q)" for i
    using assms(1) by (simp add: node_file_def)
  show "map_of s' q = map_of s q" using j [of "length q"] assms(1) by simp
qed

lemma add_dirs_lookup:
  "map_of (add_dirs k s) j = (if j \<noteq> [] \<and> prefix j k then Some None else map_of s j)"
proof -
  let ?ds = "map (\<lambda>i. (take (Suc i) k, None :: bytes option)) [0..<length k]"
  have keys: "j \<in> fst ` set ?ds \<longleftrightarrow> j \<noteq> [] \<and> prefix j k"
  proof
    assume "j \<noteq> [] \<and> prefix j k"
    then obtain n where n: "length j = Suc n" "n < length k" "j = take (Suc n) k"
      by (metis Suc_le_lessD append_eq_conv_conj length_Suc_conv list.exhaust prefixE prefix_length_le)
    then show "j \<in> fst ` set ?ds" by force
  qed (auto simp: take_is_prefix)
  show ?thesis
  proof (cases "map_of ?ds j")
    case None
    then have "j \<notin> fst ` set ?ds" by (simp only: map_of_eq_None_iff not_False_eq_True)
    then show ?thesis using None keys unfolding add_dirs_def map_of_append map_add_def by auto
  next
    case (Some v)
    then have "(j, v) \<in> set ?ds" by (rule map_of_SomeD)
    then have "v = None" "j \<in> fst ` set ?ds" by auto force
    then show ?thesis using Some keys unfolding add_dirs_def map_of_append map_add_def by simp
  qed
qed

lemma node_file_add_dirs:
  assumes "\<not> blocked s k" "\<not> node_file s k"
  shows "node_file (add_dirs k s) j = node_file s j"
proof (cases "j \<noteq> [] \<and> prefix j k")
  case True
  then obtain i where "j = take i k" "i \<le> length k" by (metis append_eq_conv_conj prefixE prefix_length_le)
  then have "\<not> node_file s j" using assms by (cases "i = length k") (auto simp: blocked_def list_ex_iff)
  then show ?thesis using True by (simp add: node_file_def add_dirs_lookup)
qed (auto simp: node_file_def add_dirs_lookup)

lemma tree_fs_ok: "fs_ok tree_fs"
proof -
  have "fs_read tree_fs p s' = FileData b" if "fs_write tree_fs p b s = (True, s')" for p b s s'
  proof -
    have "s' = (path_parts p, Some b) # s" "\<not> blocked s (path_parts p)" "path_parts p \<noteq> []"
      using that by (auto simp: tree_fs_def Let_def split: if_splits)
    moreover have "take i (path_parts p) \<noteq> path_parts p" if "i < length (path_parts p)" for i
      using that by (metis length_take min.absorb4 nat_neq_iff)
    ultimately show ?thesis
      by (auto simp: tree_fs_def node_read_def blocked_def list_ex_iff node_file_def)
  qed
  moreover have "fs_read tree_fs q s' = fs_read tree_fs q s"
    if "fs_write tree_fs p b s = (ok, s')" "path_apart p q" for p b s ok s' q
    using that node_read_elsewhere [of "path_parts p" "(path_parts p, Some b) # s" s "path_parts q"]
    by (auto simp: tree_fs_def Let_def path_apart_def split: if_splits)
  moreover have "fs_read tree_fs q s' = fs_read tree_fs q s"
    if "fs_create_dir_all tree_fs p s = (ok, s')" "path_apart q p" for p s ok s' q
    using that node_read_cong [of "path_parts q" "add_dirs (path_parts p) s" s]
    by (auto simp: tree_fs_def Let_def path_apart_def node_file_add_dirs add_dirs_lookup split: if_splits)
  moreover have "fs_read tree_fs p s' = FileMissing" if "fs_remove_file tree_fs p s = (Removed, s')" for p s s'
  proof -
    have "s' = AList.delete (path_parts p) s" "\<not> blocked s (path_parts p)"
      using that by (auto simp: tree_fs_def Let_def split: if_splits option.splits)
    moreover have "node_file s j" if "node_file (AList.delete k s) j" for j k
      using that by (auto simp: node_file_def AList.delete_conv split: if_splits option.splits)
    ultimately show ?thesis
      by (auto simp: tree_fs_def node_read_def blocked_def list_ex_iff AList.delete_conv)
  qed
  moreover have "fs_read tree_fs q s' = fs_read tree_fs q s"
    if "fs_remove_file tree_fs p s = (r, s')" "path_apart p q" for p s r s' q
    using that node_read_elsewhere [of "path_parts p" "AList.delete (path_parts p) s" s "path_parts q"]
    by (auto simp: tree_fs_def Let_def path_apart_def AList.delete_conv split: if_splits option.splits)
  ultimately show ?thesis unfolding fs_ok_def by blast
qed

end
