(* ===== verification/UserStore.thy ===== *)
theory UserStore
  imports Context Store Files
begin

text \<open>
  The per-address files of \<^verbatim>\<open>src/user_store.rs\<close>: chat histories, profiles with
  their cache, images, in the file system of \<open>Files\<close>. JSON is a codec. Shown: a chat
  history is append-only and numbered from one, contacts whose addresses are plain names do
  not interfere, a saved profile is what is loaded, with or without the cache. An address
  that is itself a path can take the file of another contact away.
\<close>

subsection \<open>Data\<close>

record chat_message =
  ch_id :: u64
  ch_contact_address :: string
  ch_content :: string
  ch_is_sent :: bool
  ch_status :: string
  ch_timestamp :: i64

record conversation =
  cv_contact_address :: string
  cv_last_content :: string
  cv_last_timestamp :: i64
  cv_last_is_sent :: bool
  cv_unread_count :: u64

record user_profile =
  up_name :: string
  up_notes :: string
  up_avatar_path :: "string option"
  up_added_at :: i64
  up_nickname :: string
  up_gender :: string
  up_age :: u32
  up_country :: string
  up_ethnicity :: string
  up_blood_type :: string
  up_height_cm :: u32
  up_weight_kg :: u32
  up_education :: string
  up_home_address :: string

definition default_profile :: "i64 \<Rightarrow> user_profile" where
  "default_profile now =
     \<lparr>up_name = [], up_notes = [], up_avatar_path = None, up_added_at = now, up_nickname = [],
      up_gender = [], up_age = 0, up_country = [], up_ethnicity = [], up_blood_type = [],
      up_height_cm = 0, up_weight_kg = 0, up_education = [], up_home_address = []\<rparr>"

record 'f user_store =
  us_base_path :: string
  us_files :: 'f
  us_profile_cache :: "(string, user_profile) hmap"

record 'f user_env =
  ue_fs :: "'f fs_ops"
  ue_chat :: "chat_message list codec"
  ue_profile :: "user_profile codec"

definition user_store_new :: "string \<Rightarrow> 'f \<Rightarrow> 'f user_store" where
  "user_store_new base files = \<lparr>us_base_path = base, us_files = files, us_profile_cache = []\<rparr>"

text \<open>Clearing runs in a task of its own; this is what the task does.\<close>

definition clear_profile_cache :: "'f user_store \<Rightarrow> 'f user_store" where
  "clear_profile_cache u = u\<lparr>us_profile_cache := []\<rparr>"

definition user_dir :: "string \<Rightarrow> string \<Rightarrow> string" where
  "user_dir base address = path_join (path_join base ''users'') address"

definition images_dir :: "string \<Rightarrow> string \<Rightarrow> string" where
  "images_dir base address = path_join (user_dir base address) ''images''"

definition chat_path :: "string \<Rightarrow> string \<Rightarrow> string" where
  "chat_path base address = path_join (user_dir base address) ''chat.json''"

subsection \<open>Generic file helpers\<close>

definition us_mkdirs :: "'f user_env \<Rightarrow> string \<Rightarrow> ('f user_store, unit) db_op" where
  "us_mkdirs ue p = (\<lambda>u. case fs_create_dir_all (ue_fs ue) p (us_files u) of (ok, f) \<Rightarrow>
     (if ok then Inr () else Inl IoErr, u\<lparr>us_files := f\<rparr>))"

definition us_write :: "'f user_env \<Rightarrow> string \<Rightarrow> bytes \<Rightarrow> ('f user_store, unit) db_op" where
  "us_write ue p b = (\<lambda>u. case fs_write (ue_fs ue) p b (us_files u) of (ok, f) \<Rightarrow>
     (if ok then Inr () else Inl IoErr, u\<lparr>us_files := f\<rparr>))"

definition us_mk_parent :: "'f user_env \<Rightarrow> string \<Rightarrow> ('f user_store, unit) db_op" where
  "us_mk_parent ue full = (case path_parent full of Some p \<Rightarrow> us_mkdirs ue p | None \<Rightarrow> db_ok ())"

definition ensure_user_dir :: "'f user_env \<Rightarrow> string \<Rightarrow> ('f user_store, string) db_op" where
  "ensure_user_dir ue address = (\<lambda>u.
     db_bind (us_mkdirs ue (user_dir (us_base_path u) address))
       (\<lambda>_. db_ok (user_dir (us_base_path u) address)) u)"

definition ensure_images_dir :: "'f user_env \<Rightarrow> string \<Rightarrow> ('f user_store, string) db_op" where
  "ensure_images_dir ue address = (\<lambda>u.
     db_bind (us_mkdirs ue (images_dir (us_base_path u) address))
       (\<lambda>_. db_ok (images_dir (us_base_path u) address)) u)"

definition store_file :: "'f user_env \<Rightarrow> string \<Rightarrow> string \<Rightarrow> bytes \<Rightarrow> ('f user_store, unit) db_op" where
  "store_file ue address rel_path data = (\<lambda>u.
     let full = path_join (user_dir (us_base_path u) address) rel_path
     in db_bind (us_mk_parent ue full) (\<lambda>_. us_write ue full data) u)"

definition read_file :: "'f user_env \<Rightarrow> string \<Rightarrow> string \<Rightarrow> ('f user_store, bytes option) db_op" where
  "read_file ue address rel_path = (\<lambda>u.
     (case fs_read (ue_fs ue) (path_join (user_dir (us_base_path u) address) rel_path) (us_files u) of
        FileData b \<Rightarrow> Inr (Some b) | FileMissing \<Rightarrow> Inr None | FileErr \<Rightarrow> Inl IoErr, u))"

definition delete_file :: "'f user_env \<Rightarrow> string \<Rightarrow> string \<Rightarrow> ('f user_store, bool) db_op" where
  "delete_file ue address rel_path = (\<lambda>u.
     case fs_remove_file (ue_fs ue) (path_join (user_dir (us_base_path u) address) rel_path) (us_files u) of
       (r, f) \<Rightarrow> (case r of Removed \<Rightarrow> Inr True | RemoveMissing \<Rightarrow> Inr False | RemoveErr \<Rightarrow> Inl IoErr,
                  u\<lparr>us_files := f\<rparr>))"

fun collect_files :: "dir_entry list \<Rightarrow> store_error + string list" where
  "collect_files [] = Inr []"
| "collect_files (EntryErr # es) = Inl IoErr"
| "collect_files (Entry name kind # es) =
     (if kind = KindErr then Inl IoErr
      else (case collect_files es of
              Inl e \<Rightarrow> Inl e
            | Inr names \<Rightarrow>
                Inr ((if kind = IsFile then (case name of Some n \<Rightarrow> [n] | None \<Rightarrow> []) else []) @ names)))"

definition list_files :: "'f user_env \<Rightarrow> string \<Rightarrow> string \<Rightarrow> ('f user_store, string list) db_op" where
  "list_files ue address subdir = (\<lambda>u.
     (case fs_read_dir (ue_fs ue) (path_join (user_dir (us_base_path u) address) subdir) (us_files u) of
        DirMissing \<Rightarrow> Inr []
      | DirErr \<Rightarrow> Inl IoErr
      | DirEntries es \<Rightarrow> (case collect_files es of Inl e \<Rightarrow> Inl e | Inr names \<Rightarrow> Inr (sort names)), u))"

definition store_json :: "'f user_env \<Rightarrow> 'a codec \<Rightarrow> string \<Rightarrow> string \<Rightarrow> 'a \<Rightarrow> ('f user_store, unit) db_op" where
  "store_json ue c address rel_path v =
     (case enc c v of None \<Rightarrow> db_err SerdeErr | Some data \<Rightarrow> store_file ue address rel_path data)"

definition load_json :: "'f user_env \<Rightarrow> 'a codec \<Rightarrow> string \<Rightarrow> string \<Rightarrow> ('f user_store, 'a option) db_op" where
  "load_json ue c address rel_path =
     db_bind (read_file ue address rel_path) (\<lambda>b.
       case b of
         None \<Rightarrow> db_ok None
       | Some data \<Rightarrow> (case dec c data of Some v \<Rightarrow> db_ok (Some v) | None \<Rightarrow> db_err SerdeErr))"

subsection \<open>Chat messages\<close>

text \<open>\<^verbatim>\<open>str::trim\<close> leaves nothing: the text consists of Unicode white space in UTF-8.\<close>

fun blank :: "bytes \<Rightarrow> bool" where
  "blank [] = True"
| "blank (a # bs) =
     (if a \<in> {9, 10, 11, 12, 13, 32} then blank bs
      else (case bs of
              b # cs \<Rightarrow>
                if a = 0xC2 \<and> b \<in> {0x85, 0xA0} then blank cs
                else (case cs of
                        c # ds \<Rightarrow>
                          if (a, b, c) = (0xE1, 0x9A, 0x80) \<or> (a, b, c) = (0xE3, 0x80, 0x80) \<or>
                             (a, b, c) = (0xE2, 0x81, 0x9F) \<or>
                             (a, b) = (0xE2, 0x80) \<and> (0x80 \<le> c \<and> c \<le> 0x8A \<or> c \<in> {0xA8, 0xA9, 0xAF})
                          then blank ds else False
                      | [] \<Rightarrow> False)
            | [] \<Rightarrow> False))"

text \<open>\<^verbatim>\<open>read_to_string\<close> fails on a file that is not UTF-8.\<close>

definition read_messages_raw ::
  "'f user_env \<Rightarrow> string \<Rightarrow> 'f user_store \<Rightarrow> store_error + chat_message list" where
  "read_messages_raw ue address u =
     (case fs_read (ue_fs ue) (chat_path (us_base_path u) address) (us_files u) of
        FileData content \<Rightarrow>
          if \<not> utf8_valid content then Inl IoErr
          else if blank content then Inr []
          else (case dec (ue_chat ue) content of Some ms \<Rightarrow> Inr ms | None \<Rightarrow> Inl SerdeErr)
      | FileMissing \<Rightarrow> Inr []
      | FileErr \<Rightarrow> Inl IoErr)"

definition us_read_messages :: "'f user_env \<Rightarrow> string \<Rightarrow> ('f user_store, chat_message list) db_op" where
  "us_read_messages ue address = (\<lambda>u. (read_messages_raw ue address u, u))"

definition write_messages_raw ::
  "'f user_env \<Rightarrow> string \<Rightarrow> chat_message list \<Rightarrow> ('f user_store, unit) db_op" where
  "write_messages_raw ue address msgs = (\<lambda>u.
     case enc (ue_chat ue) msgs of
       None \<Rightarrow> (Inl SerdeErr, u)
     | Some content \<Rightarrow>
         (let full = chat_path (us_base_path u) address
          in db_bind (us_mk_parent ue full) (\<lambda>_. us_write ue full content) u))"

definition next_message_id :: "chat_message list \<Rightarrow> u64" where
  "next_message_id msgs = (if msgs = [] then 1 else ch_id (last msgs) + 1)"

definition add_message ::
  "'f user_env \<Rightarrow> i64 \<Rightarrow> string \<Rightarrow> string \<Rightarrow> bool \<Rightarrow> string \<Rightarrow> ('f user_store, chat_message) db_op" where
  "add_message ue now contact content is_sent status =
     db_bind (ensure_user_dir ue contact) (\<lambda>_.
       db_bind (us_read_messages ue contact) (\<lambda>msgs.
         let msg = \<lparr>ch_id = next_message_id msgs, ch_contact_address = contact, ch_content = content,
                    ch_is_sent = is_sent, ch_status = status, ch_timestamp = now\<rparr>
         in db_bind (write_messages_raw ue contact (msgs @ [msg])) (\<lambda>_. db_ok msg)))"

text \<open>The last sent message gets the new status.\<close>

fun set_last_sent :: "string \<Rightarrow> chat_message list \<Rightarrow> chat_message list" where
  "set_last_sent st [] = []"
| "set_last_sent st (m # ms) =
     (if ch_is_sent m then m\<lparr>ch_status := st\<rparr> # ms else m # set_last_sent st ms)"

definition update_last_sent_status :: "'f user_env \<Rightarrow> string \<Rightarrow> string \<Rightarrow> ('f user_store, unit) db_op" where
  "update_last_sent_status ue contact new_status =
     db_bind (us_read_messages ue contact) (\<lambda>msgs.
       if list_ex ch_is_sent msgs
       then write_messages_raw ue contact (rev (set_last_sent new_status (rev msgs)))
       else db_ok ())"

definition get_messages :: "'f user_env \<Rightarrow> string \<Rightarrow> ('f user_store, chat_message list) db_op" where
  "get_messages ue contact = us_read_messages ue contact"

definition msg_unread :: "chat_message \<Rightarrow> bool" where
  "msg_unread m \<longleftrightarrow> \<not> ch_is_sent m \<and> ch_status m = ''received''"

definition us_mark_as_read :: "'f user_env \<Rightarrow> string \<Rightarrow> ('f user_store, unit) db_op" where
  "us_mark_as_read ue contact =
     db_bind (us_read_messages ue contact) (\<lambda>msgs.
       if list_ex msg_unread msgs
       then write_messages_raw ue contact
              (map (\<lambda>m. if msg_unread m then m\<lparr>ch_status := ''read''\<rparr> else m) msgs)
       else db_ok ())"

definition unread_count :: "chat_message list \<Rightarrow> u64" where
  "unread_count msgs = word_of_nat (length (filter msg_unread msgs))"

definition us_get_unread_count :: "'f user_env \<Rightarrow> string \<Rightarrow> ('f user_store, u64) db_op" where
  "us_get_unread_count ue contact =
     db_bind (us_read_messages ue contact) (\<lambda>msgs. db_ok (unread_count msgs))"

text \<open>The loop over the directories of all users, with the messages of each.\<close>

fun collect_users ::
  "(string \<Rightarrow> store_error + chat_message list) \<Rightarrow> (string \<Rightarrow> chat_message list \<Rightarrow> 'a list) \<Rightarrow>
   dir_entry list \<Rightarrow> store_error + 'a list" where
  "collect_users rd f [] = Inr []"
| "collect_users rd f (EntryErr # es) = Inl IoErr"
| "collect_users rd f (Entry name kind # es) =
     (if kind = KindErr then Inl IoErr
      else (case collect_users rd f es of
              Inl e \<Rightarrow> Inl e
            | Inr xs \<Rightarrow>
                Inr ((if kind = IsDir then
                        (case name of
                           Some n \<Rightarrow> f n (case rd n of Inr ms \<Rightarrow> ms | Inl _ \<Rightarrow> [])
                         | None \<Rightarrow> [])
                      else []) @ xs)))"

definition us_users ::
  "'f user_env \<Rightarrow> (string \<Rightarrow> chat_message list \<Rightarrow> 'a list) \<Rightarrow> ('f user_store, 'a list) db_op" where
  "us_users ue f = (\<lambda>u.
     (case fs_read_dir (ue_fs ue) (path_join (us_base_path u) ''users'') (us_files u) of
        DirMissing \<Rightarrow> Inr []
      | DirErr \<Rightarrow> Inl IoErr
      | DirEntries es \<Rightarrow> collect_users (\<lambda>n. read_messages_raw ue n u) f es, u))"

definition us_get_all_contacts_with_unread :: "'f user_env \<Rightarrow> ('f user_store, (string \<times> u64) list) db_op" where
  "us_get_all_contacts_with_unread ue =
     db_bind (us_users ue (\<lambda>n ms. [(n, unread_count ms)])) (\<lambda>xs. db_ok (sort_key fst xs))"

definition conversation_of :: "string \<Rightarrow> chat_message list \<Rightarrow> conversation list" where
  "conversation_of name ms =
     (if ms = [] then []
      else [\<lparr>cv_contact_address = name, cv_last_content = ch_content (last ms),
             cv_last_timestamp = ch_timestamp (last ms), cv_last_is_sent = ch_is_sent (last ms),
             cv_unread_count = unread_count ms\<rparr>])"

definition us_get_conversations :: "'f user_env \<Rightarrow> ('f user_store, conversation list) db_op" where
  "us_get_conversations ue =
     db_bind (us_users ue conversation_of) (\<lambda>cs. db_ok (sort_key (\<lambda>c. - cv_last_timestamp c) cs))"

subsection \<open>Profiles\<close>

definition cache_profile :: "string \<Rightarrow> user_profile \<Rightarrow> ('f user_store, unit) db_op" where
  "cache_profile address p = (\<lambda>u.
     (Inr (), u\<lparr>us_profile_cache := AList.update address p (us_profile_cache u)\<rparr>))"

definition save_profile :: "'f user_env \<Rightarrow> string \<Rightarrow> user_profile \<Rightarrow> ('f user_store, unit) db_op" where
  "save_profile ue address p =
     db_bind (ensure_user_dir ue address) (\<lambda>_.
       db_bind (store_json ue (ue_profile ue) address ''profile.json'' p) (\<lambda>_. cache_profile address p))"

definition load_profile :: "'f user_env \<Rightarrow> i64 \<Rightarrow> string \<Rightarrow> ('f user_store, user_profile) db_op" where
  "load_profile ue now address = (\<lambda>u.
     case map_of (us_profile_cache u) address of
       Some p \<Rightarrow> (Inr p, u)
     | None \<Rightarrow>
         db_bind (load_json ue (ue_profile ue) address ''profile.json'') (\<lambda>found.
           let p = (case found of Some p \<Rightarrow> p | None \<Rightarrow> default_profile now)
           in db_bind (cache_profile address p) (\<lambda>_. db_ok p)) u)"

subsection \<open>Images\<close>

definition save_image :: "'f user_env \<Rightarrow> string \<Rightarrow> string \<Rightarrow> bytes \<Rightarrow> ('f user_store, unit) db_op" where
  "save_image ue address name data =
     db_bind (ensure_images_dir ue address) (\<lambda>_. store_file ue address (''images/'' @ name) data)"

definition load_image :: "'f user_env \<Rightarrow> string \<Rightarrow> string \<Rightarrow> ('f user_store, bytes option) db_op" where
  "load_image ue address name = read_file ue address (''images/'' @ name)"

definition delete_image :: "'f user_env \<Rightarrow> string \<Rightarrow> string \<Rightarrow> ('f user_store, bool) db_op" where
  "delete_image ue address name = delete_file ue address (''images/'' @ name)"

definition list_images :: "'f user_env \<Rightarrow> string \<Rightarrow> ('f user_store, string list) db_op" where
  "list_images ue address = list_files ue address ''images''"

subsection \<open>What operations do to files\<close>

definition user_env_ok :: "'f user_env \<Rightarrow> bool" where
  "user_env_ok ue \<longleftrightarrow>
     fs_ok (ue_fs ue) \<and> codec_ok (ue_chat ue) \<and> codec_ok (ue_profile ue) \<and>
     (\<forall>ms b. enc (ue_chat ue) ms = Some b \<longrightarrow> utf8_valid b \<and> \<not> blank b)"

abbreviation file_at :: "'f user_env \<Rightarrow> 'f user_store \<Rightarrow> string \<Rightarrow> read_result" where
  "file_at ue u q \<equiv> fs_read (ue_fs ue) q (us_files u)"

lemma mkdirs_files:
  assumes "fs_ok (ue_fs ue)" "us_mkdirs ue p u = (r, u')"
  shows "us_base_path u' = us_base_path u \<and> us_profile_cache u' = us_profile_cache u \<and>
    (path_apart q p \<longrightarrow> file_at ue u' q = file_at ue u q)"
  using assms by (auto simp: us_mkdirs_def fs_ok_def split: prod.splits)

lemma mk_parent_files:
  assumes "fs_ok (ue_fs ue)" "us_mk_parent ue p u = (r, u')"
  shows "us_base_path u' = us_base_path u \<and> us_profile_cache u' = us_profile_cache u \<and>
    ((\<forall>d. path_parent p = Some d \<longrightarrow> path_apart q d) \<longrightarrow> file_at ue u' q = file_at ue u q)"
  using assms mkdirs_files [OF assms(1)] by (auto simp: us_mk_parent_def db_simps split: option.splits)

lemma us_write_files:
  assumes "fs_ok (ue_fs ue)" "us_write ue p b u = (r, u')"
  shows "us_base_path u' = us_base_path u \<and> us_profile_cache u' = us_profile_cache u \<and>
    (path_apart p q \<longrightarrow> file_at ue u' q = file_at ue u q) \<and> (r = Inr () \<longrightarrow> file_at ue u' p = FileData b)"
  using assms by (auto simp: us_write_def fs_ok_def split: prod.splits if_splits)

lemma put_file:
  assumes fs: "fs_ok (ue_fs ue)"
    and run: "db_bind (us_mk_parent ue p) (\<lambda>_. us_write ue p b) u = (r, u')"
  shows "us_base_path u' = us_base_path u \<and> us_profile_cache u' = us_profile_cache u \<and>
    (path_apart p q \<longrightarrow> (\<forall>d. path_parent p = Some d \<longrightarrow> path_apart q d) \<longrightarrow> file_at ue u' q = file_at ue u q) \<and>
    (r = Inr () \<longrightarrow> file_at ue u' p = FileData b)"
proof (cases "us_mk_parent ue p u")
  case (Pair r1 u1)
  note m = mk_parent_files [OF fs Pair]
  show ?thesis
  proof (cases r1)
    case (Inl e)
    then show ?thesis using run Pair m by (auto simp: db_bind_apply)
  next
    case (Inr x)
    then have "us_write ue p b u1 = (r, u')" using run Pair by (simp add: db_bind_apply)
    from us_write_files [OF fs this] m show ?thesis by auto
  qed
qed

lemma ensure_user_dir_files:
  assumes "fs_ok (ue_fs ue)" "ensure_user_dir ue a u = (r, u')"
  shows "us_base_path u' = us_base_path u \<and> us_profile_cache u' = us_profile_cache u \<and>
    (path_apart q (user_dir (us_base_path u) a) \<longrightarrow> file_at ue u' q = file_at ue u q)"
  using assms mkdirs_files [OF assms(1)]
  by (auto simp: ensure_user_dir_def db_bind_apply db_simps split: prod.splits sum.splits)

lemma store_file_files:
  assumes "fs_ok (ue_fs ue)" "store_file ue a rel b u = (r, u')"
  shows "us_base_path u' = us_base_path u \<and> us_profile_cache u' = us_profile_cache u \<and>
    (r = Inr () \<longrightarrow> file_at ue u' (path_join (user_dir (us_base_path u) a) rel) = FileData b)"
  using put_file [OF assms(1)] assms(2) by (auto simp: store_file_def Let_def)

subsection \<open>Chat histories\<close>

text \<open>Two addresses whose chat files, and the directory of the one and the file of the other, are apart.\<close>

definition chat_apart :: "string \<Rightarrow> string \<Rightarrow> string \<Rightarrow> bool" where
  "chat_apart base a c \<longleftrightarrow>
     path_apart (chat_path base a) (chat_path base c) \<and> path_apart (chat_path base c) (user_dir base a)"

lemma user_dir_not_Nil [simp]: "user_dir base a \<noteq> []"
  by (simp add: user_dir_def)

lemma chat_json_name: "plain_name ''chat.json''"
  by (simp add: plain_name_def)

lemma chat_parent:
  "\<exists>d. path_parent (chat_path base a) = Some d \<and> path_apart q d = path_apart q (user_dir base a)"
proof -
  obtain d where "path_parent (chat_path base a) = Some d" "path_parts d = path_parts (user_dir base a)"
    "path_abs d = path_abs (user_dir base a)"
    unfolding chat_path_def by (rule path_parent_join [OF chat_json_name user_dir_not_Nil])
  then show ?thesis using path_apart_parts by blast
qed

lemma user_parts:
  assumes "plain_name a"
  shows "path_parts (user_dir base a) = path_parts base @ [''users'', a]"
    "path_abs (user_dir base a) = path_abs (path_join base ''users'')"
    "last (user_dir base a) \<noteq> CHR ''/''"
proof -
  have rel: "\<not> path_abs a" using assms by (cases a) (auto simp: plain_name_def path_abs_def)
  have "plain_name ''users''" by (simp add: plain_name_def)
  then show "path_parts (user_dir base a) = path_parts base @ [''users'', a]"
    "path_abs (user_dir base a) = path_abs (path_join base ''users'')"
    using rel assms by (simp_all add: user_dir_def path_parts_join path_parts_name path_abs_def [of "''users''"] path_abs_join)
  have "last a \<noteq> CHR ''/''" "a \<noteq> []" using assms by (auto simp: plain_name_def) (metis last_in_set)
  then show "last (user_dir base a) \<noteq> CHR ''/''"
    using assms rel by (auto simp: user_dir_def path_join_def plain_name_def path_abs_def)
qed

text \<open>A file of a user is in the directory of the user.\<close>

lemma user_file_parts:
  assumes "plain_name a" "plain_name n"
  shows "path_parts (path_join (user_dir base a) n) = path_parts base @ [''users'', a, n]"
    "path_abs (path_join (user_dir base a) n) = path_abs (path_join base ''users'')"
    "path_parent (path_join (user_dir base a) n) = Some (user_dir base a)"
proof -
  have "\<not> path_abs n" using assms by (cases n) (auto simp: plain_name_def path_abs_def)
  then show "path_parts (path_join (user_dir base a) n) = path_parts base @ [''users'', a, n]"
    "path_abs (path_join (user_dir base a) n) = path_abs (path_join base ''users'')"
    using assms by (simp_all add: path_parts_join path_abs_join user_parts path_parts_name)
  show "path_parent (path_join (user_dir base a) n) = Some (user_dir base a)"
    using path_parent_join [OF assms(2) user_dir_not_Nil, of base a] user_parts(3) [OF assms(1)] by metis
qed

lemmas chat_file_parts = user_file_parts [OF _ chat_json_name, folded chat_path_def]

text \<open>Plain names under a plain base directory never meet.\<close>

lemma plain_chat_apart:
  assumes "path_plain base" "plain_name a" "plain_name c" "a \<noteq> c"
  shows "chat_apart base a c"
  using assms by (auto simp: chat_apart_def path_apart_def path_plain_def plain_name_def user_parts chat_file_parts)

lemma write_messages_effect:
  assumes env: "user_env_ok ue" and run: "write_messages_raw ue a ms u = (r, u')"
  shows "us_base_path u' = us_base_path u \<and>
    (r = Inr () \<longrightarrow> read_messages_raw ue a u' = Inr ms) \<and>
    (chat_apart (us_base_path u) a c \<longrightarrow> read_messages_raw ue c u' = read_messages_raw ue c u)"
proof (cases "enc (ue_chat ue) ms")
  case None
  then show ?thesis using run by (auto simp: write_messages_raw_def)
next
  case (Some b)
  have fs: "fs_ok (ue_fs ue)" using env by (simp add: user_env_ok_def)
  have b: "utf8_valid b" "\<not> blank b" "dec (ue_chat ue) b = Some ms"
    using env Some by (auto simp: user_env_ok_def codec_ok_def)
  have put: "db_bind (us_mk_parent ue (chat_path (us_base_path u) a))
      (\<lambda>_. us_write ue (chat_path (us_base_path u) a) b) u = (r, u')"
    using run Some by (simp add: write_messages_raw_def Let_def)
  obtain d where "path_parent (chat_path (us_base_path u) a) = Some d"
    "path_apart (chat_path (us_base_path u) c) d = path_apart (chat_path (us_base_path u) c) (user_dir (us_base_path u) a)"
    using chat_parent by blast
  then show ?thesis
    using b put_file [OF fs put, of "chat_path (us_base_path u) c"] by (auto simp: read_messages_raw_def chat_apart_def)
qed

text \<open>
  Adding a message appends it to what the history held before. With the component
  \<^verbatim>\<open>..\<close> in the path, creating the directory may bring an older file into reach.
\<close>

lemma add_message_effect:
  assumes env: "user_env_ok ue" and run: "add_message ue now a content sent st u = (Inr m, u')"
  obtains ms where "path_plain (chat_path (us_base_path u) a) \<Longrightarrow> read_messages_raw ue a u = Inr ms"
    "us_base_path u' = us_base_path u"
    "m = \<lparr>ch_id = next_message_id ms, ch_contact_address = a, ch_content = content, ch_is_sent = sent,
       ch_status = st, ch_timestamp = now\<rparr>"
    "read_messages_raw ue a u' = Inr (ms @ [m])"
    "\<And>c. chat_apart (us_base_path u) a c \<Longrightarrow> read_messages_raw ue c u' = read_messages_raw ue c u"
proof -
  have fs: "fs_ok (ue_fs ue)" using env by (simp add: user_env_ok_def)
  obtain d u1 ms where e: "ensure_user_dir ue a u = (Inr d, u1)" and ms: "read_messages_raw ue a u1 = Inr ms"
    and m: "m = \<lparr>ch_id = next_message_id ms, ch_contact_address = a, ch_content = content, ch_is_sent = sent,
       ch_status = st, ch_timestamp = now\<rparr>"
    and w: "write_messages_raw ue a (ms @ [m]) u1 = (Inr (), u')"
    using run by (auto simp: add_message_def us_read_messages_def Let_def db_results db_simps)
  have base: "us_base_path u1 = us_base_path u" using ensure_user_dir_files [OF fs e] by blast
  have rd: "read_messages_raw ue c u1 = read_messages_raw ue c u"
    if "path_apart (chat_path (us_base_path u) c) (user_dir (us_base_path u) a)" for c
    using ensure_user_dir_files [OF fs e, of "chat_path (us_base_path u) c"] that by (simp add: read_messages_raw_def base)
  show thesis
  proof (rule that)
    show "read_messages_raw ue a u = Inr ms" if "path_plain (chat_path (us_base_path u) a)"
      using that ms rd [of a] path_apart_above [OF _ chat_json_name user_dir_not_Nil] by (simp add: chat_path_def)
    show "us_base_path u' = us_base_path u" "read_messages_raw ue a u' = Inr (ms @ [m])"
      using write_messages_effect [OF env w] base by auto
    show "read_messages_raw ue c u' = read_messages_raw ue c u" if "chat_apart (us_base_path u) a c" for c
      using write_messages_effect [OF env w, of c] base rd that by (simp add: chat_apart_def)
  qed (rule m)
qed

text \<open>One entry of a history: what was added, under the next number.\<close>

type_synonym chat_call = "i64 \<times> string \<times> string \<times> bool \<times> string"

definition add_call :: "'f user_env \<Rightarrow> chat_call \<Rightarrow> ('f user_store, unit) db_op" where
  "add_call ue x = (case x of (now, contact, content, sent, st) \<Rightarrow>
     db_bind (add_message ue now contact content sent st) (\<lambda>_. db_ok ()))"

definition call_contact :: "chat_call \<Rightarrow> string" where
  "call_contact x = (case x of (now, contact, content, sent, st) \<Rightarrow> contact)"

definition call_content :: "chat_call \<Rightarrow> string" where
  "call_content x = (case x of (now, contact, content, sent, st) \<Rightarrow> content)"

lemma add_calls:
  assumes env: "user_env_ok ue" and base: "path_plain (us_base_path u)"
    and names: "\<And>x. x \<in> set xs \<Longrightarrow> plain_name (call_contact x)" "plain_name c" and run: "db_each (add_call ue) xs u = (Inr x, u')"
    and start: "read_messages_raw ue c u = Inr ms" "map ch_id ms = map word_of_nat [1..<Suc (length ms)]"
  shows "\<exists>ms'. read_messages_raw ue c u' = Inr ms' \<and> map ch_id ms' = map word_of_nat [1..<Suc (length ms')] \<and>
    map ch_content ms' = map ch_content ms @ map call_content (filter (\<lambda>x. call_contact x = c) xs)"
  using base names run start
proof (induction xs arbitrary: u ms)
  case Nil
  then show ?case by (auto simp: db_simps)
next
  case (Cons y xs)
  obtain now a content sent st where y: "y = (now, a, content, sent, st)" by (metis prod_cases5)
  obtain u1 where call: "add_call ue y u = (Inr (), u1)" and rest: "db_each (add_call ue) xs u1 = (Inr x, u')"
    using Cons.prems(4) unfolding db_each.simps db_bind_Inr by auto
  obtain m where add: "add_message ue now a content sent st u = (Inr m, u1)"
    using call by (auto simp: y add_call_def db_results db_simps)
  have a: "plain_name a" using Cons.prems(2) [of y] by (simp add: y call_contact_def)
  have "path_plain (chat_path (us_base_path u) c)" if "plain_name c" for c
    using Cons.prems(1) that by (simp add: path_plain_def chat_file_parts) (auto simp: plain_name_def)
  then obtain ms0 where e: "read_messages_raw ue a u = Inr ms0" "us_base_path u1 = us_base_path u"
    "m = \<lparr>ch_id = next_message_id ms0, ch_contact_address = a, ch_content = content, ch_is_sent = sent,
       ch_status = st, ch_timestamp = now\<rparr>"
    "read_messages_raw ue a u1 = Inr (ms0 @ [m])"
    and other: "\<And>c. chat_apart (us_base_path u) a c \<Longrightarrow> read_messages_raw ue c u1 = read_messages_raw ue c u"
    using add_message_effect [OF env add] a by metis
  note IH = Cons.IH [of u1, unfolded e(2), OF Cons.prems(1) Cons.prems(2) Cons.prems(3) rest]
  show ?case
  proof (cases "a = c")
    case True
    then have "ms0 = ms" using e(1) Cons.prems(5) by simp
    moreover have "map ch_id (ms @ [m]) = map word_of_nat [1..<Suc (length (ms @ [m]))]"
    proof (cases ms rule: rev_cases)
      case (snoc ms' l)
      have "ch_id l = word_of_nat (length ms)" using Cons.prems(6) by (simp add: snoc)
      then show ?thesis using Cons.prems(6) e(3) \<open>ms0 = ms\<close> snoc by (simp add: next_message_id_def)
    qed (simp add: e(3) \<open>ms0 = ms\<close> next_message_id_def)
    ultimately show ?thesis
      using IH [of "ms @ [m]"] e(3,4) True Cons.prems(2) by (simp add: y call_contact_def call_content_def)
  next
    case False
    then have "chat_apart (us_base_path u) a c" using plain_chat_apart Cons.prems(1,3) a by blast
    then show ?thesis
      using IH [of ms] other Cons.prems(2,5,6) False by (simp add: y call_contact_def)
  qed
qed

text \<open>Marking as read leaves nothing unread and changes no content.\<close>

lemma mark_as_read_effect:
  assumes env: "user_env_ok ue" and run: "us_mark_as_read ue a u = (Inr x, u')"
  shows "us_get_unread_count ue a u' = (Inr 0, u')"
    "\<exists>ms ms'. read_messages_raw ue a u = Inr ms \<and> read_messages_raw ue a u' = Inr ms' \<and>
       map ch_content ms' = map ch_content ms"
proof -
  let ?f = "\<lambda>m. if msg_unread m then m\<lparr>ch_status := ''read''\<rparr> else m"
  obtain ms where ms: "read_messages_raw ue a u = Inr ms"
    and w: "if list_ex msg_unread ms then write_messages_raw ue a (map ?f ms) u = (Inr (), u') else u' = u"
    using run by (auto simp: us_mark_as_read_def us_read_messages_def db_results db_simps split: if_splits)
  have "filter msg_unread (map ?f ms) = []" by (auto simp: filter_empty_conv msg_unread_def)
  moreover have "filter msg_unread ms = []" if "\<not> list_ex msg_unread ms"
    using that by (simp add: list_ex_iff filter_empty_conv)
  moreover have "map ch_content (map ?f ms) = map ch_content ms" by simp
  ultimately show "us_get_unread_count ue a u' = (Inr 0, u')"
    "\<exists>ms ms'. read_messages_raw ue a u = Inr ms \<and> read_messages_raw ue a u' = Inr ms' \<and>
       map ch_content ms' = map ch_content ms"
    using ms w write_messages_effect [OF env, of a "map ?f ms" u "Inr ()" u']
    by (auto simp: us_get_unread_count_def us_read_messages_def unread_count_def db_bind_apply db_simps
        split: if_splits)
qed

lemma confirm_effect:
  assumes env: "user_env_ok ue" and run: "update_last_sent_status ue a st u = (Inr x, u')"
    and ms: "read_messages_raw ue a u = Inr (ms @ [m])" "ch_is_sent m"
  shows "read_messages_raw ue a u' = Inr (ms @ [m\<lparr>ch_status := st\<rparr>])"
proof -
  have "write_messages_raw ue a (ms @ [m\<lparr>ch_status := st\<rparr>]) u = (Inr (), u')"
    using run ms by (auto simp: update_last_sent_status_def us_read_messages_def db_bind_apply list_ex_iff)
  then show ?thesis using write_messages_effect [OF env] by blast
qed

text \<open>
  A receipt confirms whatever was sent last: with two messages sent, the confirmation of
  the first one marks the second.
\<close>

lemma confirms_last_sent:
  "ch_is_sent m1 \<Longrightarrow> ch_is_sent m2 \<Longrightarrow>
   rev (set_last_sent st (rev [m1, m2])) = [m1, m2\<lparr>ch_status := st\<rparr>]"
  by simp

text \<open>An address that is an absolute path leaves the base directory.\<close>

lemma user_dir_absolute: "user_dir base (CHR ''/'' # rest) = CHR ''/'' # rest"
  by (simp add: user_dir_def path_join_def)

text \<open>
  An address that is a path can reach the files of another contact: creating the directory
  of \<^verbatim>\<open>c/chat.json\<close> puts a directory where the history of \<^verbatim>\<open>c\<close> would be.
\<close>

lemma nested_address_hides_history:
  assumes fs: "ue_fs ue = tree_fs" and c: "plain_name c"
    and run: "ensure_user_dir ue (c @ ''/chat.json'') u = (Inr d, u')"
  shows "read_messages_raw ue c u' = Inl IoErr"
proof -
  let ?k = "path_parts (us_base_path u) @ [''users'', c, ''chat.json'']" and ?s = "us_files u"
  have "\<not> path_abs c" "\<not> path_abs (c @ ''/chat.json'')"
    using c by (cases c; auto simp: plain_name_def path_abs_def)+
  then have k: "path_parts (user_dir (us_base_path u) (c @ ''/chat.json'')) = ?k"
    "path_parts (chat_path (us_base_path u) c) = ?k"
    using c path_parts_append [of c "''chat.json''"] path_parts_name [of "''users''"]
    by (simp_all add: user_dir_def chat_path_def path_parts_join path_parts_name plain_name_def path_abs_def)
  have u': "us_base_path u' = us_base_path u" "us_files u' = add_dirs ?k ?s"
    using run by (auto simp: ensure_user_dir_def us_mkdirs_def fs tree_fs_def k Let_def db_results db_simps split: if_splits)
  have "node_read (us_files u') ?k = FileErr" by (simp add: u' node_read_def add_dirs_lookup)
  then show ?thesis by (simp add: read_messages_raw_def u'(1) k fs tree_fs_def)
qed

subsection \<open>Profiles\<close>

lemma save_profile_effect:
  assumes env: "user_env_ok ue" and run: "save_profile ue a p u = (Inr x, u')"
  shows "us_base_path u' = us_base_path u \<and> map_of (us_profile_cache u') a = Some p \<and>
    (\<exists>b. file_at ue u' (path_join (user_dir (us_base_path u) a) ''profile.json'') = FileData b \<and>
      dec (ue_profile ue) b = Some p)"
proof -
  have fs: "fs_ok (ue_fs ue)" using env by (simp add: user_env_ok_def)
  obtain d u1 b u2 where e: "ensure_user_dir ue a u = (Inr d, u1)" and b: "enc (ue_profile ue) p = Some b"
    and st: "store_file ue a ''profile.json'' b u1 = (Inr (), u2)"
    and u': "u' = u2\<lparr>us_profile_cache := AList.update a p (us_profile_cache u2)\<rparr>"
    using run by (auto simp: save_profile_def store_json_def cache_profile_def db_results db_simps
        split: option.splits)
  have "us_base_path u1 = us_base_path u" using ensure_user_dir_files [OF fs e] by blast
  moreover have "dec (ue_profile ue) b = Some p" using env b by (auto simp: user_env_ok_def codec_ok_def)
  ultimately show ?thesis using store_file_files [OF fs st] u' by (auto simp: map_laws)
qed

lemma load_profile_cached: "map_of (us_profile_cache u) a = Some p \<Longrightarrow> load_profile ue now a u = (Inr p, u)"
  by (simp add: load_profile_def)

lemma load_profile_stored:
  assumes "map_of (us_profile_cache u) a = None"
    and "file_at ue u (path_join (user_dir (us_base_path u) a) ''profile.json'') = FileData b"
    and "dec (ue_profile ue) b = Some p"
  shows "fst (load_profile ue now a u) = Inr p"
  using assms by (simp add: load_profile_def load_json_def read_file_def cache_profile_def Let_def
      db_bind_apply db_simps)

subsection \<open>Properties\<close>

definition demo_chat :: "u64 \<Rightarrow> string \<Rightarrow> chat_message" where
  "demo_chat i t = \<lparr>ch_id = i, ch_contact_address = ''ann'', ch_content = t, ch_is_sent = True,
     ch_status = ''sent'', ch_timestamp = 7\<rparr>"

definition demo_user_env :: "tree user_env" where
  "demo_user_env =
     \<lparr>ue_fs = tree_fs,
      ue_chat = pair_codec [([demo_chat 1 ''hi''], [91, 49]), ([demo_chat 1 ''hi'', demo_chat 2 ''ho''], [91, 50]),
        ([demo_chat 1 ''you''\<lparr>ch_contact_address := ''bob''\<rparr>], [91, 51])],
      ue_profile = pair_codec [(default_profile 7, [123])]\<rparr>"

lemma demo_user_env_ok: "user_env_ok demo_user_env"
proof -
  have "enc (ue_chat demo_user_env) ms = Some b \<longrightarrow> utf8_valid b \<and> \<not> blank b" for ms b
    by (auto simp: demo_user_env_def pair_codec_def utf8_valid_def split: if_splits)
  then show ?thesis by (simp add: user_env_ok_def tree_fs_ok) (simp add: demo_user_env_def tree_fs_ok codec_ok_pairs)
qed

text \<open>What evaluates the operations on files and histories below the directory \<^verbatim>\<open>d\<close>.\<close>

lemma base_parts: "path_parts ''d'' = [''d'']"
  by (simp add: path_parts_def)

lemmas tree_fs_simps = tree_fs_def node_read_def node_file_def blocked_def add_dirs_def

lemmas demo_store_simps = tree_fs_simps user_parts chat_file_parts user_file_parts base_parts plain_name_def user_store_new_def add_message_def
  ensure_user_dir_def us_mkdirs_def us_read_messages_def read_messages_raw_def write_messages_raw_def us_mk_parent_def
  us_write_def next_message_id_def demo_user_env_def pair_codec_def demo_chat_def utf8_valid_def db_bind_apply
  db_simps Let_def

text \<open>
  C21. Chat histories are complete and in order. Whatever messages are added for whatever
  contacts whose addresses are plain names (not empty, without slash, neither one dot nor
  two), when every call succeeds the history of such a contact, empty at first, holds exactly
  the contents added for it, in that order and numbered from one, whatever was added for the
  others in between. The file system and the JSON codec behave as documented and the base
  directory is given without the component \<^verbatim>\<open>..\<close>.
\<close>

theorem chat_history_exact:
  assumes "user_env_ok ue" "path_plain (us_base_path u)"
    and "\<And>x. x \<in> set xs \<Longrightarrow> plain_name (call_contact x)" "plain_name c"
    and "read_messages_raw ue c u = Inr []" "db_each (add_call ue) xs u = (Inr (), u')"
  shows "\<exists>ms. get_messages ue c u' = (Inr ms, u') \<and>
    map ch_content ms = map call_content (filter (\<lambda>x. call_contact x = c) xs) \<and>
    map ch_id ms = map word_of_nat [1..<Suc (length ms)]"
  using add_calls [OF assms(1-4,6,5)] by (auto simp: get_messages_def us_read_messages_def)

text \<open>
  C31. A saved profile is what is loaded afterwards, from the cache and, once the cache is
  emptied as after a restart, from the file.
\<close>

theorem profile_roundtrip:
  assumes "user_env_ok ue" "save_profile ue a p u = (Inr (), u')"
  shows "fst (load_profile ue now a u') = Inr p \<and> fst (load_profile ue now a (clear_profile_cache u')) = Inr p"
proof -
  obtain b where "us_base_path u' = us_base_path u" "map_of (us_profile_cache u') a = Some p"
    "file_at ue u' (path_join (user_dir (us_base_path u) a) ''profile.json'') = FileData b"
    "dec (ue_profile ue) b = Some p"
    using save_profile_effect [OF assms] by auto
  then show ?thesis
    by (simp add: load_profile_cached load_profile_stored [where b = b] clear_profile_cache_def)
qed

definition demo_calls :: "chat_call list" where
  "demo_calls = [(7, ''ann'', ''hi'', True, ''sent''), (7, ''bob'', ''you'', True, ''sent''),
     (7, ''ann'', ''ho'', True, ''sent'')]"

definition demo_after :: "tree user_store" where
  "demo_after = snd (db_each (add_call demo_user_env) demo_calls (user_store_new ''d'' []))"

text \<open>Three messages for two contacts; the history of the first.\<close>

lemma chat_history_exact_witness:
  "\<exists>ms. get_messages demo_user_env ''ann'' demo_after = (Inr ms, demo_after) \<and>
    map ch_content ms = [''hi'', ''ho''] \<and> map ch_id ms = map word_of_nat [1..<Suc (length ms)]"
proof -
  have run: "db_each (add_call demo_user_env) demo_calls (user_store_new ''d'' []) = (Inr (), demo_after)"
    by (simp add: demo_after_def demo_calls_def add_call_def demo_store_simps)
  have base: "path_plain (us_base_path (user_store_new ''d'' []))"
    by (simp add: path_plain_def path_parts_def user_store_new_def)
  have "read_messages_raw demo_user_env ''ann'' (user_store_new ''d'' []) = Inr []"
    by (simp add: demo_store_simps)
  moreover have "plain_name (call_contact x)" if "x \<in> set demo_calls" for x
    using that by (auto simp: demo_calls_def call_contact_def plain_name_def)
  ultimately show ?thesis
    using chat_history_exact [OF demo_user_env_ok base _ _ _ run, of "''ann''"]
    by (simp add: demo_calls_def call_contact_def call_content_def plain_name_def)
qed

lemma profile_roundtrip_witness:
  "let u' = snd (save_profile demo_user_env ''ann'' (default_profile 7) (user_store_new ''d'' []))
   in fst (load_profile demo_user_env 9 ''ann'' u') = Inr (default_profile 7) \<and>
      fst (load_profile demo_user_env 9 ''ann'' (clear_profile_cache u')) = Inr (default_profile 7)"
proof -
  have "save_profile demo_user_env ''ann'' (default_profile 7) (user_store_new ''d'' []) =
    (Inr (), snd (save_profile demo_user_env ''ann'' (default_profile 7) (user_store_new ''d'' [])))"
    by (simp add: save_profile_def store_json_def store_file_def cache_profile_def demo_store_simps)
  from profile_roundtrip [OF demo_user_env_ok this] show ?thesis
    by (simp add: Let_def)
qed

end
