(* ===== verification/PeerBook.thy ===== *)
theory PeerBook
  imports Handshake Text
begin

text \<open>
  The records of other nodes in \<^verbatim>\<open>src/record.rs\<close> and the step of \<^verbatim>\<open>src/node.rs\<close>
  that copies an active connection into them. A point in time is its number of
  nanoseconds; the clock is read through arguments; the protocols of \<^verbatim>\<open>aex\<close> are a
  parameter. Shown: the periods of activity are the contacts cut at the pauses of an
  hour, and the available nodes are exactly those seen within five days.
\<close>

subsection \<open>Peer records\<close>

type_synonym instant = int

text \<open>\<^verbatim>\<open>num_minutes\<close> and \<^verbatim>\<open>num_days\<close> of a duration round towards zero.\<close>

definition whole_units :: "int \<Rightarrow> int \<Rightarrow> int" where
  "whole_units u d = sgn d * (\<bar>d\<bar> div u)"

definition num_minutes :: "int \<Rightarrow> int" where
  "num_minutes d = whole_units (60 * 10 ^ 9) d"

definition num_days :: "int \<Rightarrow> int" where
  "num_days d = whole_units (86400 * 10 ^ 9) d"

record 'q node_record =
  pr_endpoint :: socket_addr
  pr_protocols :: "'q set"
  pr_first_seen :: instant
  pr_last_seen :: instant
  pr_periods :: "(instant \<times> instant) list"
  pr_tries :: "u64 \<times> u64"
  pr_is_available :: bool

record 'q peer_env =
  pe_http :: 'q
  pe_tcp :: 'q
  pe_from_timestamp :: "i64 \<Rightarrow> instant option"

definition max_valid_days :: int where
  "max_valid_days = 5"

definition record_new :: "'q peer_env \<Rightarrow> instant \<Rightarrow> socket_addr \<Rightarrow> 'q node_record" where
  "record_new pe now endpoint =
     \<lparr>pr_endpoint = endpoint, pr_protocols = {pe_http pe, pe_tcp pe}, pr_first_seen = now,
      pr_last_seen = now, pr_periods = [], pr_tries = (0, 0), pr_is_available = True\<rparr>"

definition extend_periods :: "instant \<Rightarrow> (instant \<times> instant) list \<Rightarrow> (instant \<times> instant) list" where
  "extend_periods now ps =
     (if ps \<noteq> [] \<and> num_minutes (now - snd (last ps)) < 60
      then butlast ps @ [(fst (last ps), now)]
      else ps @ [(now, now)])"

definition update_periods :: "instant \<Rightarrow> 'q node_record \<Rightarrow> 'q node_record" where
  "update_periods now r = r\<lparr>pr_periods := extend_periods now (pr_periods r)\<rparr>"

definition update_status :: "instant \<Rightarrow> bool \<Rightarrow> 'q node_record \<Rightarrow> 'q node_record" where
  "update_status now success r =
     (if success
      then update_periods now
             (r\<lparr>pr_last_seen := now, pr_tries := (fst (pr_tries r) + 1, snd (pr_tries r)),
                pr_is_available := True\<rparr>)
      else r\<lparr>pr_tries := (fst (pr_tries r), snd (pr_tries r) + 1)\<rparr>)"

definition is_expired :: "instant \<Rightarrow> 'q node_record \<Rightarrow> bool" where
  "is_expired now r \<longleftrightarrow> max_valid_days \<le> num_days (now - pr_last_seen r)"

definition check_expiry :: "instant \<Rightarrow> 'q node_record \<Rightarrow> 'q node_record" where
  "check_expiry now r =
     (if max_valid_days \<le> num_days (now - pr_last_seen r) then r\<lparr>pr_is_available := False\<rparr> else r)"

definition sync_metadata :: "'q peer_env \<Rightarrow> instant \<Rightarrow> u64 \<Rightarrow> 'q node_record \<Rightarrow> 'q node_record" where
  "sync_metadata pe now last_active_secs r =
     (let r1 = (case pe_from_timestamp pe (sint last_active_secs) of
                  Some dt \<Rightarrow> r\<lparr>pr_last_seen := dt\<rparr> | None \<Rightarrow> r)
      in update_status now True (r1\<lparr>pr_is_available := True\<rparr>))"

subsection \<open>The set of records\<close>

text \<open>
  A \<^verbatim>\<open>HashSet\<close> whose elements are equal when their endpoints are: a list in some
  order. Inserting an element that is already there leaves the old one.
\<close>

type_synonym 'q peer_book = "'q node_record list"

definition book_take :: "socket_addr \<Rightarrow> 'q peer_book \<Rightarrow> 'q node_record option \<times> 'q peer_book" where
  "book_take endpoint b =
     (find (\<lambda>r. pr_endpoint r = endpoint) b, filter (\<lambda>r. pr_endpoint r \<noteq> endpoint) b)"

definition book_insert :: "'q node_record \<Rightarrow> 'q peer_book \<Rightarrow> 'q peer_book" where
  "book_insert r b = (if pr_endpoint r \<in> pr_endpoint ` set b then b else b @ [r])"

definition take_or_new ::
  "'q peer_env \<Rightarrow> instant \<Rightarrow> socket_addr \<Rightarrow> 'q peer_book \<Rightarrow> 'q node_record \<times> 'q peer_book" where
  "take_or_new pe now endpoint b =
     (case book_take endpoint b of
        (found, rest) \<Rightarrow> (case found of Some r \<Rightarrow> r | None \<Rightarrow> record_new pe now endpoint, rest))"

text \<open>\<open>now1\<close> is read when a new record is made, \<open>now2\<close> when the status is updated.\<close>

definition book_upsert ::
  "'q peer_env \<Rightarrow> instant \<Rightarrow> instant \<Rightarrow> socket_addr \<Rightarrow> bool \<Rightarrow> 'q peer_book \<Rightarrow> 'q peer_book" where
  "book_upsert pe now1 now2 endpoint success b =
     (case take_or_new pe now1 endpoint b of
        (r, rest) \<Rightarrow> book_insert (update_status now2 success r) rest)"

text \<open>Every record is tested with its own reading of the clock.\<close>

definition get_available_nodes :: "(nat \<Rightarrow> instant) \<Rightarrow> 'q peer_book \<Rightarrow> 'q node_record list" where
  "get_available_nodes clock b =
     map snd (filter (\<lambda>(k, r). pr_is_available r \<and> \<not> is_expired (clock k) r) (enumerate 0 b))"

definition on_startup_maintenance :: "(nat \<Rightarrow> instant) \<Rightarrow> 'q peer_book \<Rightarrow> 'q peer_book" where
  "on_startup_maintenance clock b =
     fold (\<lambda>(k, r) nodes. book_insert (check_expiry (clock k) r) nodes) (enumerate 0 b) []"

definition book_new :: "(nat \<Rightarrow> instant) \<Rightarrow> 'q peer_book \<Rightarrow> 'q peer_book" where
  "book_new clock nodes = on_startup_maintenance clock nodes"

subsection \<open>Periods of activity\<close>

text \<open>
  The reference: the successful contacts, cut wherever an hour or more passes between
  one and the next. The record keeps the first and the last contact of every piece.
\<close>

fun sessions :: "instant list \<Rightarrow> instant list list" where
  "sessions [] = []"
| "sessions (t # ts) =
     (case sessions ts of
        [] \<Rightarrow> [[t]]
      | g # gs \<Rightarrow> if num_minutes (hd g - t) < 60 then (t # g) # gs else [t] # g # gs)"

definition session_periods :: "instant list \<Rightarrow> (instant \<times> instant) list" where
  "session_periods ts = map (\<lambda>g. (hd g, last g)) (sessions ts)"

definition run_status :: "(instant \<times> bool) list \<Rightarrow> 'q node_record \<Rightarrow> 'q node_record" where
  "run_status xs r = fold (\<lambda>(t, ok). update_status t ok) xs r"

lemma sessions_not_empty: "g \<in> set (sessions ts) \<Longrightarrow> g \<noteq> []"
  by (induction ts) (auto split: list.splits if_splits)

lemma sessions_eq_Nil [simp]: "sessions ts = [] \<longleftrightarrow> ts = []"
  by (cases ts) (auto split: list.splits)

lemma concat_sessions: "concat (sessions ts) = ts"
  by (induction ts) (auto split: list.splits)

lemma hd_sessions: "ts \<noteq> [] \<Longrightarrow> hd (hd (sessions ts)) = hd ts"
  by (cases ts) (auto split: list.splits)

lemma sessions_snoc:
  "sessions (ts @ [t]) =
     (if ts \<noteq> [] \<and> num_minutes (t - last ts) < 60
      then butlast (sessions ts) @ [last (sessions ts) @ [t]]
      else sessions ts @ [[t]])"
proof (induction ts)
  case (Cons u ts)
  show ?case
  proof (cases "ts = []")
    case False
    obtain g gs where g: "sessions ts = g # gs" using False by (cases "sessions ts") auto
    have "g \<noteq> []" using sessions_not_empty [of g ts] by (simp add: g)
    with False g Cons.IH show ?thesis
      by (cases gs) (auto split: list.splits)
  qed simp
qed simp

lemma session_periods_snoc: "session_periods (ts @ [t]) = extend_periods t (session_periods ts)"
proof (cases "ts = []")
  case False
  obtain gs g where g: "sessions ts = gs @ [g]" using False by (cases "sessions ts" rule: rev_cases) auto
  have "g \<noteq> []" using sessions_not_empty [of g ts] by (simp add: g)
  moreover have "last ts = last g" using concat_sessions [of ts] \<open>g \<noteq> []\<close> by (auto simp: g)
  ultimately show ?thesis
    using False by (simp add: session_periods_def extend_periods_def sessions_snoc g)
qed (simp add: session_periods_def extend_periods_def)

lemma run_status_snoc: "run_status (xs @ [(t, ok)]) r = update_status t ok (run_status xs r)"
  by (simp add: run_status_def)

lemma periods_are_sessions:
  "pr_periods (run_status xs (record_new pe t0 e)) = session_periods (map fst (filter snd xs))"
proof (induction xs rule: rev_induct)
  case Nil
  show ?case by (simp add: run_status_def record_new_def session_periods_def)
next
  case (snoc x xs)
  then show ?case
    by (cases x) (simp add: run_status_snoc update_status_def update_periods_def session_periods_snoc)
qed

lemma status_counts:
  "pr_tries (run_status xs (record_new pe t0 e)) =
     (word_of_nat (length (filter snd xs)), word_of_nat (length (filter (\<lambda>x. \<not> snd x) xs)))"
  by (induction xs rule: rev_induct)
    (auto simp: run_status_snoc update_status_def update_periods_def, simp add: run_status_def record_new_def)

lemma status_last_seen:
  "pr_last_seen (run_status xs (record_new pe t0 e)) = last (t0 # map fst (filter snd xs))"
  by (induction xs rule: rev_induct)
    (auto simp: run_status_snoc update_status_def update_periods_def, simp add: run_status_def record_new_def)

text \<open>
  Synchronising with a connection does not keep the time the connection was last active:
  the update that follows overwrites it with the present.
\<close>

lemma sync_metadata_forgets_activity: "pr_last_seen (sync_metadata pe now secs r) = now"
  by (simp add: sync_metadata_def update_status_def update_periods_def Let_def)

subsection \<open>Availability\<close>

text \<open>
  One active connection copied into the book: \<open>now\<close> is read once for all
  connections, \<open>now1\<close> and \<open>now2\<close> for this one; the last component is what the
  peer says about its protocols. The end of the last period is written into a copy of the
  list of periods that is dropped, so the list only changes when it is empty.
\<close>

definition sync_connection ::
  "'q peer_env \<Rightarrow> instant \<Rightarrow> instant \<Rightarrow> instant \<Rightarrow> socket_addr \<times> 'q set option \<Rightarrow> 'q peer_book \<Rightarrow> 'q peer_book" where
  "sync_connection pe now now1 now2 c b =
     (case take_or_new pe now1 (fst c) b of
        (r, rest) \<Rightarrow>
          (let r1 = update_status now2 True (r\<lparr>pr_last_seen := now, pr_is_available := True\<rparr>);
               r2 = (case snd c of
                       None \<Rightarrow> r1
                     | Some protocols \<Rightarrow>
                         (let r' = r1\<lparr>pr_protocols := pr_protocols r1 \<union> protocols\<rparr>
                          in if pr_periods r' = [] then r'\<lparr>pr_periods := [(now, now)]\<rparr> else r'))
           in book_insert r2 rest))"

text \<open>The books that occur, with the time up to which the clock was read.\<close>

inductive book_run :: "'q peer_env \<Rightarrow> instant \<Rightarrow> 'q peer_book \<Rightarrow> bool" for pe where
  run_empty: "book_run pe t []"
| run_upsert: "book_run pe t b \<Longrightarrow> t \<le> t1 \<Longrightarrow> t1 \<le> t2 \<Longrightarrow> book_run pe t2 (book_upsert pe t1 t2 e ok b)"
| run_sync: "book_run pe t b \<Longrightarrow> t \<le> t0 \<Longrightarrow> t0 \<le> t1 \<Longrightarrow> t1 \<le> t2 \<Longrightarrow> book_run pe t2 (sync_connection pe t0 t1 t2 c b)"
| run_restart: "book_run pe t b \<Longrightarrow> mset b' = mset b \<Longrightarrow> (\<And>k. t \<le> clock k) \<Longrightarrow> (\<And>k. clock k \<le> t') \<Longrightarrow>
    book_run pe t' (book_new clock b')"

definition book_ok :: "instant \<Rightarrow> 'q peer_book \<Rightarrow> bool" where
  "book_ok t b \<longleftrightarrow> distinct (map pr_endpoint b) \<and> (\<forall>r \<in> set b. pr_is_available r \<or> is_expired t r)"

lemma whole_units_mono: "0 < u \<Longrightarrow> d \<le> d' \<Longrightarrow> whole_units u d \<le> whole_units u d'"
proof -
  assume u: "0 < u" and le: "d \<le> d'"
  have nonneg: "0 \<le> \<bar>e\<bar> div u" for e using u by (simp add: pos_imp_zdiv_nonneg_iff)
  consider "0 \<le> d" | "d < 0" "0 \<le> d'" | "d < 0" "d' < 0" by linarith
  then show ?thesis
  proof cases
    case 1
    then show ?thesis using u le nonneg [of d'] by (auto simp: whole_units_def sgn_if intro: zdiv_mono1)
  next
    case 2
    then show ?thesis using nonneg [of d] nonneg [of d'] by (auto simp: whole_units_def sgn_if)
  next
    case 3
    then show ?thesis using u le by (auto simp: whole_units_def sgn_if intro: zdiv_mono1)
  qed
qed

lemma is_expired_mono: "is_expired t r \<Longrightarrow> t \<le> t' \<Longrightarrow> is_expired t' r"
  using whole_units_mono [of "86400 * 10 ^ 9" "t - pr_last_seen r" "t' - pr_last_seen r"]
  by (simp add: is_expired_def num_days_def)

lemma endpoint_simps [simp]:
  "pr_endpoint (update_periods t r) = pr_endpoint r"
  "pr_endpoint (update_status t ok r) = pr_endpoint r"
  "pr_endpoint (check_expiry t r) = pr_endpoint r"
  "pr_endpoint (record_new pe t e) = e"
  "pr_last_seen (check_expiry t r) = pr_last_seen r"
  "pr_is_available (record_new pe t e)"
  by (simp_all add: update_status_def update_periods_def check_expiry_def record_new_def)

lemma take_or_new_endpoint:
  "take_or_new pe t e b = (r, rest) \<Longrightarrow>
     pr_endpoint r = e \<and> rest = filter (\<lambda>r. pr_endpoint r \<noteq> e) b \<and> (r \<in> set b \<or> r = record_new pe t e)"
  by (auto simp: take_or_new_def book_take_def find_Some_iff split: option.splits)

lemma put_back:
  assumes "book_ok t b" "t \<le> t'" "take_or_new pe t1 e b = (r, rest)" "pr_endpoint r' = e"
    and "pr_is_available r' \<or> is_expired t' r'"
  shows "book_ok t' (book_insert r' rest)"
  using assms take_or_new_endpoint [OF assms(3)]
  by (auto simp: book_ok_def book_insert_def distinct_map_filter intro: is_expired_mono)

lemma upsert_ok:
  assumes "book_ok t b" "t \<le> t1" "t1 \<le> t2"
  shows "book_ok t2 (book_upsert pe t1 t2 e ok b)"
proof -
  obtain r rest where r: "take_or_new pe t1 e b = (r, rest)" by fastforce
  note q = take_or_new_endpoint [OF r]
  have "pr_is_available r \<or> is_expired t r"
  proof (cases "r \<in> set b")
    case False
    then have "r = record_new pe t1 e" using q by blast
    then show ?thesis by simp
  qed (use assms(1) in \<open>simp add: book_ok_def\<close>)
  then have "pr_is_available (update_status t2 ok r) \<or> is_expired t2 (update_status t2 ok r)"
    using is_expired_mono [of t r t2] assms(2,3)
    by (auto simp: update_status_def update_periods_def is_expired_def)
  then show ?thesis
    using put_back [OF assms(1) _ r, of t2 "update_status t2 ok r"] assms q by (simp add: book_upsert_def r)
qed

lemma sync_connection_ok:
  assumes "book_ok t b" "t \<le> t0" "t0 \<le> t1" "t1 \<le> t2"
  shows "book_ok t2 (sync_connection pe t0 t1 t2 c b)"
proof -
  obtain r rest where r: "take_or_new pe t1 (fst c) b = (r, rest)" by fastforce
  show ?thesis
    unfolding sync_connection_def r prod.case Let_def
    by (rule put_back [OF assms(1) _ r])
      (use assms take_or_new_endpoint [OF r] in \<open>auto simp: update_status_def update_periods_def
        split: option.splits\<close>)
qed

text \<open>With distinct endpoints the maintenance at startup is a map over the book.\<close>

lemma startup_fold:
  "distinct (map pr_endpoint (b0 @ b)) \<Longrightarrow>
   fold (\<lambda>(k, r) nodes. book_insert (check_expiry (clock k) r) nodes) (enumerate n b) b0 =
     b0 @ map (\<lambda>(k, r). check_expiry (clock k) r) (enumerate n b)"
proof (induction b arbitrary: n b0)
  case (Cons r b)
  from Cons.prems have "pr_endpoint r \<notin> pr_endpoint ` set b0" by auto
  with Cons.IH [of "b0 @ [check_expiry (clock n) r]" "Suc n"] Cons.prems show ?case
    by (simp add: book_insert_def)
qed simp

lemma book_new_map:
  "distinct (map pr_endpoint b) \<Longrightarrow>
   book_new clock b = map (\<lambda>(k, r). check_expiry (clock k) r) (enumerate 0 b)"
  by (simp add: book_new_def on_startup_maintenance_def startup_fold)

lemma book_new_endpoints: "distinct (map pr_endpoint b) \<Longrightarrow> map pr_endpoint (book_new clock b) = map pr_endpoint b"
proof -
  have "map (\<lambda>x. pr_endpoint (snd x)) (enumerate n b) = map pr_endpoint b" for n
    by (induction b arbitrary: n) simp_all
  moreover assume "distinct (map pr_endpoint b)"
  ultimately show ?thesis by (simp add: book_new_map comp_def case_prod_unfold)
qed

lemma book_new_members:
  assumes "distinct (map pr_endpoint b)" "r \<in> set (book_new clock b)"
  shows "\<exists>k. \<exists>r0 \<in> set b. r = check_expiry (clock k) r0"
proof -
  obtain k r0 where "r = check_expiry (clock k) r0" "(k, r0) \<in> set (enumerate 0 b)"
    using assms by (auto simp: book_new_map)
  moreover from this(2) have "r0 \<in> set b" using imageI [of "(k, r0)" _ snd] by (metis set_map snd_conv map_snd_enumerate)
  ultimately show ?thesis by blast
qed

lemma distinct_mset: "distinct (map f b) \<Longrightarrow> mset b' = mset b \<Longrightarrow> distinct (map f b')"
  by (metis mset_eq_imp_distinct_iff mset_map)

lemma book_new_ok:
  assumes "book_ok t b" "mset b' = mset b" "\<And>k. t \<le> clock k" "\<And>k. clock k \<le> t'"
  shows "book_ok t' (book_new clock b')"
proof -
  have d: "distinct (map pr_endpoint b')" using assms(1,2) distinct_mset by (auto simp: book_ok_def)
  have "pr_is_available r \<or> is_expired t' r" if mem: "r \<in> set (book_new clock b')" for r
  proof -
    obtain k r0 where r: "r = check_expiry (clock k) r0" "r0 \<in> set b'"
      using book_new_members [OF d mem] by blast
    have "r0 \<in> set b" using r(2) assms(2) by (metis set_mset_mset)
    then have "pr_is_available r0 \<or> is_expired t r0" using assms(1) by (auto simp: book_ok_def)
    moreover have "t \<le> t'" using assms(3,4) [of k] by simp
    ultimately show ?thesis
      using is_expired_mono [of t r0 t'] is_expired_mono [of "clock k" r0 t'] assms(4)
      by (auto simp: r(1) check_expiry_def is_expired_def split: if_splits)
  qed
  then show ?thesis using d by (simp add: book_ok_def book_new_endpoints)
qed

lemma book_run_ok: "book_run pe t b \<Longrightarrow> book_ok t b"
  by (induction rule: book_run.induct)
    (auto intro: upsert_ok sync_connection_ok book_new_ok simp: book_ok_def [of _ "[]"])

lemma available_iff_seen:
  assumes "book_ok t b" "\<And>k. t \<le> clock k"
  shows "get_available_nodes clock b = map snd (filter (\<lambda>(k, r). \<not> is_expired (clock k) r) (enumerate 0 b))"
proof -
  have "pr_is_available r \<and> \<not> is_expired (clock k) r \<longleftrightarrow> \<not> is_expired (clock k) r"
    if "(k, r) \<in> set (enumerate 0 b)" for k r
    using that assms is_expired_mono [of t r "clock k"] by (fastforce simp: book_ok_def in_set_enumerate_eq)
  then show ?thesis unfolding get_available_nodes_def by (intro arg_cong [where f = "map snd"] filter_cong) auto
qed

subsection \<open>Properties\<close>

text \<open>
  C32. Contact histories. Whatever succeeds and fails with a peer, its record counts the
  successes and the failures, keeps the time of the last success, and its periods are the
  first and last times of the sessions: the successful contacts cut wherever an hour or
  more passes.
\<close>

theorem contact_history:
  "let r = run_status xs (record_new pe t0 e); ts = map fst (filter snd xs)
   in pr_periods r = map (\<lambda>g. (hd g, last g)) (sessions ts) \<and> concat (sessions ts) = ts \<and>
      pr_tries r = (word_of_nat (length (filter snd xs)), word_of_nat (length (filter (\<lambda>x. \<not> snd x) xs))) \<and>
      pr_last_seen r = last (t0 # ts) \<and> pr_is_available r"
proof -
  have "pr_is_available (run_status xs (record_new pe t0 e))"
    by (induction xs rule: rev_induct)
      (auto simp: run_status_snoc update_status_def update_periods_def, simp add: run_status_def)
  then show ?thesis
    by (simp add: Let_def periods_are_sessions status_counts status_last_seen session_periods_def
        concat_sessions)
qed

text \<open>
  C33. Availability. Whatever updates, synchronisations and restarts happen, as long as the
  clock does not run backwards the nodes listed as available are exactly those whose field
  \<^verbatim>\<open>last_seen\<close> is less than five days back, and every endpoint has one record. A new record
  starts with the time of its creation there, also when the first contact failed.
\<close>

theorem available_iff_recent:
  assumes "book_run pe t b" "\<And>k. t \<le> clock k"
  shows "distinct (map pr_endpoint b) \<and>
    get_available_nodes clock b =
      map snd (filter (\<lambda>(k, r). num_days (clock k - pr_last_seen r) < 5) (enumerate 0 b))"
  using available_iff_seen [OF book_run_ok [OF assms(1)] assms(2)] book_run_ok [OF assms(1)]
  by (simp add: book_ok_def is_expired_def max_valid_days_def not_le)

text \<open>A peer seen once, a restart six days later: it is no longer listed.\<close>

definition demo_peer_env :: "nat peer_env" where
  "demo_peer_env = \<lparr>pe_http = 0, pe_tcp = 1, pe_from_timestamp = Some\<rparr>"

definition demo_peer_sock :: socket_addr where
  "demo_peer_sock = SockV4 (Ipv4 10 0 0 1) 7"

definition demo_book :: "nat peer_book" where
  "demo_book = book_new (\<lambda>_. 518400000000000) (book_upsert demo_peer_env 0 0 demo_peer_sock True [])"

lemma available_iff_recent_witness:
  "distinct (map pr_endpoint demo_book) \<and>
   get_available_nodes (\<lambda>_. 518400000000000) demo_book = []"
proof -
  have "book_run demo_peer_env 0 (book_upsert demo_peer_env 0 0 demo_peer_sock True [])"
    by (rule run_upsert [OF run_empty [of _ 0]]) simp_all
  then have "book_run demo_peer_env 518400000000000 demo_book"
    unfolding demo_book_def by (rule run_restart) simp_all
  from available_iff_recent [OF this, of "\<lambda>_. 518400000000000"] show ?thesis
    by (simp add: demo_book_def book_new_def on_startup_maintenance_def book_upsert_def take_or_new_def
        book_take_def book_insert_def record_new_def update_status_def update_periods_def extend_periods_def
        check_expiry_def num_days_def whole_units_def max_valid_days_def)
qed

end
