(* ===== verification/NodeState.thy ===== *)
theory NodeState
  imports PeerBook
begin

text \<open>
  The typed files of \<^verbatim>\<open>src/io_storage.rs\<close> and the life of a node in
  \<^verbatim>\<open>src/node.rs\<close>: start, connecting to known peers, saving, stop. The storage and the
  connection manager of \<^verbatim>\<open>aex\<close> are parameters; \<open>storage_ok\<close> is what the node
  relies on. Shown: what a stopped node knew is known after a restart, and which identity
  a node starts with.
\<close>

subsection \<open>Typed files\<close>

text \<open>
  The two types the node stores, and the storage of \<^verbatim>\<open>aex\<close>: reading a file as a type
  fails, finds nothing or finds a value.
\<close>

datatype io_type = AddressT | RecordsT

datatype 'q io_value = AddressV account | RecordsV "'q peer_book"

record ('s, 'q) storage_ops =
  sg_read :: "io_type \<Rightarrow> string \<Rightarrow> 's \<Rightarrow> unit + 'q io_value option"
  sg_save :: "string \<Rightarrow> 'q io_value \<Rightarrow> 's \<Rightarrow> bool \<times> 's"

record io_entry =
  ie_type :: io_type
  ie_file :: string

type_synonym io_stores = "(string, io_entry) hmap"

definition io_insert :: "string \<Rightarrow> io_type \<Rightarrow> string \<Rightarrow> io_stores \<Rightarrow> io_stores" where
  "io_insert key ty file ios = AList.update key \<lparr>ie_type = ty, ie_file = file\<rparr> ios"

definition io_get :: "io_type \<Rightarrow> string \<Rightarrow> io_stores \<Rightarrow> io_entry option" where
  "io_get ty key ios =
     (case map_of ios key of
        Some e \<Rightarrow> if ie_type e = ty then Some e else None
      | None \<Rightarrow> None)"

text \<open>
  The default of an entry, as the macro \<^verbatim>\<open>storage!\<close> makes it: a random address or no
  records, saved to the file at once. \<open>random\<close> is the address generated.
\<close>

definition io_default ::
  "('s, 'q) storage_ops \<Rightarrow> account \<Rightarrow> io_entry \<Rightarrow> 's \<Rightarrow> 'q io_value \<times> 's" where
  "io_default so random e s =
     (let v = (case ie_type e of AddressT \<Rightarrow> AddressV random | RecordsT \<Rightarrow> RecordsV [])
      in (v, snd (sg_save so (ie_file e) v s)))"

definition storage_read ::
  "('s, 'q) storage_ops \<Rightarrow> account \<Rightarrow> io_entry \<Rightarrow> 's \<Rightarrow> 'q io_value \<times> 's" where
  "storage_read so random e s =
     (case sg_read so (ie_type e) (ie_file e) s of
        Inr (Some v) \<Rightarrow> (v, s)
      | Inr None \<Rightarrow>
          (case io_default so random e s of (v, s1) \<Rightarrow> (v, snd (sg_save so (ie_file e) v s1)))
      | Inl _ \<Rightarrow> io_default so random e s)"

definition io_read ::
  "('s, 'q) storage_ops \<Rightarrow> account \<Rightarrow> io_type \<Rightarrow> string \<Rightarrow> io_stores \<Rightarrow> 's \<Rightarrow> 'q io_value option \<times> 's" where
  "io_read so random ty key ios s =
     (case io_get ty key ios of
        Some e \<Rightarrow> (case storage_read so random e s of (v, s') \<Rightarrow> (Some v, s'))
      | None \<Rightarrow> (None, s))"

definition io_save ::
  "('s, 'q) storage_ops \<Rightarrow> io_type \<Rightarrow> string \<Rightarrow> 'q io_value \<Rightarrow> io_stores \<Rightarrow> 's \<Rightarrow> 's" where
  "io_save so ty key v ios s =
     (case io_get ty key ios of
        Some e \<Rightarrow> snd (sg_save so (ie_file e) v s)
      | None \<Rightarrow> s)"

record opt =
  opt_name :: string
  opt_ip :: string
  opt_port :: u16
  opt_data_dir :: "string option"
  opt_address_file :: "string option"
  opt_inner_server_file :: "string option"
  opt_external_server_file :: "string option"
  opt_seeds :: "string option"
  opt_test :: bool

definition storage_address :: string where
  "storage_address = ''address''"

definition storage_inner_server :: string where
  "storage_inner_server = ''inner_server''"

definition storage_external_server :: string where
  "storage_external_server = ''external_server''"

definition or_default :: "string \<Rightarrow> string option \<Rightarrow> string" where
  "or_default d f = (case f of Some x \<Rightarrow> x | None \<Rightarrow> d)"

definition io_storage_init :: "opt \<Rightarrow> io_stores" where
  "io_storage_init o' =
     io_insert storage_external_server RecordsT (or_default ''external-server-list.json'' (opt_external_server_file o'))
       (io_insert storage_inner_server RecordsT (or_default ''inner-server-list.json'' (opt_inner_server_file o'))
         (io_insert storage_address AddressT (or_default ''address.json'' (opt_address_file o')) []))"

subsection \<open>The node\<close>

text \<open>
  The fields of \<^verbatim>\<open>Node\<close> beyond those the handlers use; \<open>nd_files\<close> is the state
  behind its storage.
\<close>

record ('s, 'q) full_node = p2p_node +
  nd_name :: string
  nd_id :: account
  nd_inner :: "'q peer_book"
  nd_external :: "'q peer_book"
  nd_stores :: io_stores
  nd_files :: 's
  nd_addr :: socket_addr

definition read_records ::
  "('s, 'q) storage_ops \<Rightarrow> account \<Rightarrow> string \<Rightarrow> io_stores \<Rightarrow> 's \<Rightarrow> 'q peer_book \<times> 's" where
  "read_records so random key ios s =
     (case io_read so random RecordsT key ios s of
        (v, s') \<Rightarrow> (case v of Some (RecordsV b) \<Rightarrow> b | _ \<Rightarrow> [], s'))"

definition read_address ::
  "('s, 'q) storage_ops \<Rightarrow> account \<Rightarrow> io_stores \<Rightarrow> 's \<Rightarrow> account \<times> 's" where
  "read_address so random ios s =
     (case io_read so random AddressT storage_address ios s of
        (v, s') \<Rightarrow> (case v of Some (AddressV a) \<Rightarrow> a | _ \<Rightarrow> random, s'))"

definition node_new ::
  "('s, 'q) storage_ops \<Rightarrow> account \<Rightarrow> (nat \<Rightarrow> instant) \<Rightarrow> (nat \<Rightarrow> instant) \<Rightarrow> string \<Rightarrow> io_stores \<Rightarrow>
   socket_addr \<Rightarrow> node_registry \<Rightarrow> socket_addr list \<Rightarrow> 's \<Rightarrow> ('s, 'q) full_node" where
  "node_new so random clock1 clock2 name ios addr registry peers s =
     (case read_address so random ios s of
        (nid, s1) \<Rightarrow>
          (case read_records so random storage_inner_server ios s1 of
             (inner, s2) \<Rightarrow>
               (case read_records so random storage_external_server ios s2 of
                  (external, s3) \<Rightarrow>
                    \<lparr>n_registry = registry, n_peer_addrs = peers, nd_name = name, nd_id = nid,
                     nd_inner = book_new clock1 inner, nd_external = book_new clock2 external,
                     nd_stores = ios, nd_files = s3, nd_addr = addr\<rparr>)))"

definition save_registries ::
  "('s, 'q) storage_ops \<Rightarrow> ('s, 'q) full_node \<Rightarrow> ('s, 'q) full_node" where
  "save_registries so n =
     n\<lparr>nd_files := io_save so RecordsT storage_external_server (RecordsV (nd_external n)) (nd_stores n)
         (io_save so RecordsT storage_inner_server (RecordsV (nd_inner n)) (nd_stores n) (nd_files n))\<rparr>"

text \<open>\<open>shutdown_all\<close> of the connection manager leaves the node's own state alone.\<close>

definition node_stop :: "('s, 'q) storage_ops \<Rightarrow> ('s, 'q) full_node \<Rightarrow> ('s, 'q) full_node" where
  "node_stop so n = save_registries so n"

text \<open>
  \<open>connect_to\<close>: the endpoint enters both books before the connection is made, and the
  books are saved only when it is. \<open>ticks\<close> are the readings of the clock.
\<close>

definition connect_to ::
  "('s, 'q) storage_ops \<Rightarrow> 'q peer_env \<Rightarrow> (nat \<Rightarrow> instant) \<Rightarrow> (socket_addr \<Rightarrow> bool) \<Rightarrow> string \<Rightarrow>
   ('s, 'q) full_node \<Rightarrow> bool \<times> ('s, 'q) full_node" where
  "connect_to so pe ticks dial peer_addr n =
     (case parse_sock peer_addr of
        None \<Rightarrow> (False, n)
      | Some endpoint \<Rightarrow>
          (let n' = n\<lparr>nd_inner := book_upsert pe (ticks 0) (ticks 1) endpoint True (nd_inner n),
                      nd_external := book_upsert pe (ticks 2) (ticks 3) endpoint True (nd_external n)\<rparr>
           in if dial endpoint then (True, save_registries so n') else (False, n')))"

text \<open>
  Copying the active connections into the books by scope. The future that would save the
  books is created and dropped, so nothing is written.
\<close>

definition sync_from_connections ::
  "'q peer_env \<Rightarrow> (ip_addr \<Rightarrow> network_scope) \<Rightarrow> instant \<Rightarrow> (nat \<Rightarrow> instant \<times> instant) \<Rightarrow>
   (socket_addr \<times> 'q set option) list \<Rightarrow> ('s, 'q) full_node \<Rightarrow> ('s, 'q) full_node" where
  "sync_from_connections pe from_ip now ticks conns n =
     fold (\<lambda>(k, c) n.
         if from_ip (sock_ip (fst c)) = Extranet
         then n\<lparr>nd_external := sync_connection pe now (fst (ticks k)) (snd (ticks k)) c (nd_external n)\<rparr>
         else n\<lparr>nd_inner := sync_connection pe now (fst (ticks k)) (snd (ticks k)) c (nd_inner n)\<rparr>)
       (enumerate 0 conns) n"

definition is_public_ip :: "ip_addr \<Rightarrow> bool" where
  "is_public_ip ip \<longleftrightarrow> \<not> is_loopback ip \<and> \<not> is_unspecified ip"

definition is_public_addr :: "socket_addr \<Rightarrow> bool" where
  "is_public_addr a = is_public_ip (sock_ip a)"

definition filter_entries :: "socket_addr list \<Rightarrow> socket_addr list" where
  "filter_entries addrs = filter is_public_addr addrs"

text \<open>The endpoints \<open>connect\<close> dials: the socket of the node decides who calls.\<close>

definition connect_targets :: "('s, 'q) full_node \<Rightarrow> socket_addr list" where
  "connect_targets n =
     filter (\<lambda>e. sock_less (nd_addr n) e) (map pr_endpoint (nd_inner n))"

text \<open>What a new outbound connection of \<open>connect\<close> sends: the command that opens a session.\<close>

definition node_greeting ::
  "('p, 'z) hs_env_scheme \<Rightarrow> (nat \<Rightarrow> i64) \<Rightarrow> node_registry \<Rightarrow> 'p global_ctx \<Rightarrow>
   (online_command \<times> 'p global_ctx) option" where
  "node_greeting he clock registry g =
     (case g_psk g of
        None \<Rightarrow> None
      | Some p \<Rightarrow>
          (case psk_create (hs_psk he) p of
             ((session_id, key), p') \<Rightarrow>
               (let node = hs_from_system he (sock_port (g_addr g)) (an_id (g_local_node g)) 1
                in Some (\<lparr>on_session_id = session_id, on_node = node, on_key = key,
                          on_intranet_ips = announced_ips Intranet node,
                          on_wan_ips = announced_ips Extranet node,
                          on_seeds = Some (seeds_command_new (hs_sha256 he) (registry_records clock registry))\<rparr>,
                         g\<lparr>g_psk := Some p'\<rparr>))))"

definition node_connect_one ::
  "('p, 'z) hs_env_scheme \<Rightarrow> (nat \<Rightarrow> i64) \<Rightarrow> u64 \<Rightarrow> node_registry \<Rightarrow> conn \<Rightarrow> 'p global_ctx \<Rightarrow>
   bytes option \<times> 'p global_ctx" where
  "node_connect_one he clock nonce registry c g =
     (case node_greeting he clock registry g of
        None \<Rightarrow> (None, g)
      | Some (cmd, g') \<Rightarrow>
          (case frame_send he (hs_psk he) (hs_online he) nonce g' c (Some cmd) ENode OnLine False of
             Inr sent \<Rightarrow> sent
           | Inl e \<Rightarrow> None, g'))"

subsection \<open>Start\<close>

text \<open>The sockets of the node itself: its bind address and its system addresses, without loopback.\<close>

definition own_sockets :: "socket_addr \<Rightarrow> (network_scope \<times> ip_addr) list \<Rightarrow> socket_addr list" where
  "own_sockets addr ips =
     (if \<not> is_loopback (sock_ip addr) then [addr] else []) @
     map (\<lambda>(_, ip). sock_new ip (sock_port addr))
       (filter (\<lambda>(_, ip). ip \<noteq> sock_ip addr \<and> \<not> is_loopback ip) ips)"

definition register_own ::
  "(ip_addr \<Rightarrow> network_scope) \<Rightarrow> u64 \<Rightarrow> string \<Rightarrow> socket_addr list \<Rightarrow> node_registry \<Rightarrow> node_registry" where
  "register_own from_ip now self socks reg =
     fold (\<lambda>a. nr_register now self a (from_ip (sock_ip a))) socks reg"

definition parse_seeds :: "string option \<Rightarrow> socket_addr list" where
  "parse_seeds seeds =
     (case seeds of
        Some s \<Rightarrow> List.map_filter (\<lambda>x. parse_sock (trim x)) (split_on (CHR '','') s)
      | None \<Rightarrow> [])"

text \<open>
  \<open>node_init\<close>: the address given on the command line, the identity from storage, the
  registry with the node's own sockets, the peers given on the command line. \<open>rnd1\<close>
  and \<open>rnd2\<close> are the addresses a failing read of the identity would generate, here and
  in \<open>node_new\<close>. The result is the node and the address its context holds; nothing when
  the address does not parse, where the program exits.
\<close>

record ('s, 'q) init_env =
  in_storage :: "('s, 'q) storage_ops"
  in_peer :: "'q peer_env"
  in_from_ip :: "ip_addr \<Rightarrow> network_scope"
  in_system_ips :: "(network_scope \<times> ip_addr) list"

definition add_seeds ::
  "'q peer_env \<Rightarrow> (nat \<Rightarrow> instant) \<Rightarrow> socket_addr list \<Rightarrow> ('s, 'q) full_node \<Rightarrow> ('s, 'q) full_node" where
  "add_seeds pe ticks seeds n =
     fold (\<lambda>(k, a) n.
         n\<lparr>nd_inner := book_upsert pe (ticks (4 * k)) (ticks (4 * k + 1)) a True (nd_inner n),
           nd_external := book_upsert pe (ticks (4 * k + 2)) (ticks (4 * k + 3)) a True (nd_external n)\<rparr>)
       (enumerate 0 seeds) n"

definition node_init ::
  "('s, 'q) init_env \<Rightarrow> account \<Rightarrow> account \<Rightarrow> (nat \<Rightarrow> instant) \<Rightarrow> (nat \<Rightarrow> instant) \<Rightarrow> (nat \<Rightarrow> instant) \<Rightarrow> u64 \<Rightarrow>
   opt \<Rightarrow> 's \<Rightarrow> (account \<times> ('s, 'q) full_node) option" where
  "node_init ie rnd1 rnd2 clock1 clock2 ticks now o' s =
     (case parse_sock (opt_ip o' @ '':'' @ show_nat (unat (opt_port o'))) of
        None \<Rightarrow> None
      | Some addr \<Rightarrow>
          (case read_address (in_storage ie) rnd1 (io_storage_init o') s of
             (address, s1) \<Rightarrow>
               (let reg = register_own (in_from_ip ie) now (acc_string address)
                            (own_sockets addr (in_system_ips ie)) nr_new;
                    seeds = parse_seeds (opt_seeds o');
                    n = node_new (in_storage ie) rnd2 clock1 clock2 (opt_name o') (io_storage_init o') addr
                          reg seeds s1
                in Some (address,
                         if opt_seeds o' \<noteq> None
                         then save_registries (in_storage ie) (add_seeds (in_peer ie) ticks seeds n)
                         else n))))"

subsection \<open>What storage promises\<close>

text \<open>A set of records may come back in another order.\<close>

fun io_same :: "'q io_value \<Rightarrow> 'q io_value \<Rightarrow> bool" where
  "io_same (RecordsV a) (RecordsV b) = (mset a = mset b)"
| "io_same v w = (v = w)"

definition value_type :: "'q io_value \<Rightarrow> io_type" where
  "value_type v = (case v of AddressV _ \<Rightarrow> AddressT | RecordsV _ \<Rightarrow> RecordsT)"

text \<open>
  The contract of the storage: what was saved under a name is read back, and saving leaves the
  files of other names alone. Names are compared as they are spelled, so two spellings of one
  path (a leading \<^verbatim>\<open>./\<close>, say) are outside of the contract.
\<close>

definition storage_ok :: "('s, 'q) storage_ops \<Rightarrow> bool" where
  "storage_ok so \<longleftrightarrow>
     (\<forall>f v s s'. sg_save so f v s = (True, s') \<longrightarrow>
        (\<exists>w. sg_read so (value_type v) f s' = Inr (Some w) \<and> io_same w v)) \<and>
     (\<forall>f v s ok s' ty f'. sg_save so f v s = (ok, s') \<longrightarrow> f' \<noteq> f \<longrightarrow> sg_read so ty f' s' = sg_read so ty f' s) \<and>
     (\<forall>ty f s v. sg_read so ty f s = Inr (Some v) \<longrightarrow> value_type v = ty)"

lemma storage_saved:
  "storage_ok so \<Longrightarrow> fst (sg_save so f v s) \<Longrightarrow>
     \<exists>w. sg_read so (value_type v) f (snd (sg_save so f v s)) = Inr (Some w) \<and> io_same w v"
  by (cases "sg_save so f v s") (auto simp: storage_ok_def)

lemma storage_other:
  "storage_ok so \<Longrightarrow> f' \<noteq> f \<Longrightarrow> sg_read so ty f' (snd (sg_save so f v s)) = sg_read so ty f' s"
  by (cases "sg_save so f v s") (auto simp: storage_ok_def)

lemma storage_typed: "storage_ok so \<Longrightarrow> sg_read so ty f s = Inr (Some v) \<Longrightarrow> value_type v = ty"
  by (simp add: storage_ok_def)

lemma io_same_address [simp]: "io_same w (AddressV a) \<longleftrightarrow> w = AddressV a"
  by (cases w) auto

lemma io_same_records: "io_same w (RecordsV b) \<longleftrightarrow> (\<exists>b'. w = RecordsV b' \<and> mset b' = mset b)"
  by (cases w) auto

text \<open>The entries the program registers.\<close>

definition address_path :: "opt \<Rightarrow> string" where
  "address_path o' = or_default ''address.json'' (opt_address_file o')"

definition inner_path :: "opt \<Rightarrow> string" where
  "inner_path o' = or_default ''inner-server-list.json'' (opt_inner_server_file o')"

definition external_path :: "opt \<Rightarrow> string" where
  "external_path o' = or_default ''external-server-list.json'' (opt_external_server_file o')"

lemma init_entries:
  "io_get AddressT storage_address (io_storage_init o') = Some \<lparr>ie_type = AddressT, ie_file = address_path o'\<rparr>"
  "io_get RecordsT storage_inner_server (io_storage_init o') = Some \<lparr>ie_type = RecordsT, ie_file = inner_path o'\<rparr>"
  "io_get RecordsT storage_external_server (io_storage_init o') = Some \<lparr>ie_type = RecordsT, ie_file = external_path o'\<rparr>"
  by (simp_all add: io_get_def io_storage_init_def io_insert_def map_laws storage_address_def
      storage_inner_server_def storage_external_server_def address_path_def inner_path_def external_path_def)

text \<open>Reading an entry touches its own file only, and keeps a value that is there.\<close>

lemma storage_read_frame:
  "storage_ok so \<Longrightarrow> f' \<noteq> ie_file e \<Longrightarrow> sg_read so ty f' (snd (storage_read so random e s)) = sg_read so ty f' s"
  by (auto simp: storage_read_def io_default_def storage_other Let_def split: sum.splits option.splits)

lemma storage_read_found:
  "sg_read so (ie_type e) (ie_file e) s = Inr (Some v) \<Longrightarrow> storage_read so random e s = (v, s)"
  by (simp add: storage_read_def)

lemma read_address_found:
  assumes "storage_ok so" "sg_read so AddressT (address_path o') s = Inr (Some v)"
  shows "\<exists>a. v = AddressV a \<and> read_address so random (io_storage_init o') s = (a, s)"
  using assms storage_typed [OF assms]
  by (cases v) (auto simp: read_address_def io_read_def init_entries storage_read_found value_type_def)

lemma read_address_frame:
  assumes "storage_ok so" "f' \<noteq> address_path o'"
  shows "sg_read so ty f' (snd (read_address so random (io_storage_init o') s)) = sg_read so ty f' s"
  using storage_read_frame [OF assms(1), of f' "\<lparr>ie_type = AddressT, ie_file = address_path o'\<rparr>" ty random s] assms(2)
  by (cases "storage_read so random \<lparr>ie_type = AddressT, ie_file = address_path o'\<rparr> s")
    (simp add: read_address_def io_read_def init_entries)

text \<open>When storage can be written the identity read is the identity stored.\<close>

lemma read_address_stored:
  assumes ok: "storage_ok so" and w: "\<And>f v s. fst (sg_save so f v s)"
    and rd: "read_address so random (io_storage_init o') s = (a, s')"
  shows "sg_read so AddressT (address_path o') s' = Inr (Some (AddressV a))"
proof -
  let ?e = "\<lparr>ie_type = AddressT, ie_file = address_path o'\<rparr>"
  have saved: "sg_read so AddressT f (snd (sg_save so f (AddressV b) t)) = Inr (Some (AddressV b))" for f b t
    using storage_saved [OF ok w [of f "AddressV b" t]] by (auto simp: value_type_def)
  show ?thesis
  proof (cases "sg_read so AddressT (address_path o') s")
    case (Inl u)
    then show ?thesis using rd saved
      by (auto simp: read_address_def io_read_def init_entries storage_read_def io_default_def Let_def)
  next
    case (Inr r)
    show ?thesis
    proof (cases r)
      case None
      then show ?thesis using Inr rd saved
        by (auto simp: read_address_def io_read_def init_entries storage_read_def io_default_def Let_def)
    next
      case (Some v)
      then show ?thesis using Inr rd read_address_found [OF ok, of o' s v random] by auto
    qed
  qed
qed

lemma save_registries_frame:
  assumes "storage_ok so" "nd_stores n = io_storage_init o'" "f \<noteq> inner_path o'" "f \<noteq> external_path o'"
  shows "sg_read so ty f (nd_files (save_registries so n)) = sg_read so ty f (nd_files n)"
  using assms by (simp add: save_registries_def io_save_def init_entries storage_other)

lemma save_registries_files:
  assumes "storage_ok so" "\<And>f v s. fst (sg_save so f v s)" "nd_stores n = io_storage_init o'"
    and "inner_path o' \<noteq> external_path o'"
  shows "\<exists>b. sg_read so RecordsT (inner_path o') (nd_files (save_registries so n)) = Inr (Some (RecordsV b)) \<and>
      mset b = mset (nd_inner n)"
    "\<exists>b. sg_read so RecordsT (external_path o') (nd_files (save_registries so n)) = Inr (Some (RecordsV b)) \<and>
      mset b = mset (nd_external n)"
proof -
  have saved: "\<exists>b'. sg_read so RecordsT f (snd (sg_save so f (RecordsV b) t)) = Inr (Some (RecordsV b')) \<and> mset b' = mset b"
    for f b t using storage_saved [OF assms(1) assms(2) [of f "RecordsV b" t]] by (auto simp: value_type_def io_same_records)
  show "\<exists>b. sg_read so RecordsT (inner_path o') (nd_files (save_registries so n)) = Inr (Some (RecordsV b)) \<and>
      mset b = mset (nd_inner n)"
    "\<exists>b. sg_read so RecordsT (external_path o') (nd_files (save_registries so n)) = Inr (Some (RecordsV b)) \<and>
      mset b = mset (nd_external n)"
    using assms(1,3,4) saved by (simp_all add: save_registries_def io_save_def init_entries storage_other)
qed

text \<open>Starting a node on files that hold its records.\<close>

lemma node_new_loads:
  assumes ok: "storage_ok so" and d: "distinct [address_path o', inner_path o', external_path o']"
    and i: "sg_read so RecordsT (inner_path o') s = Inr (Some (RecordsV b1))"
    and e: "sg_read so RecordsT (external_path o') s = Inr (Some (RecordsV b2))"
  shows "nd_inner (node_new so random c1 c2 name (io_storage_init o') addr reg peers s) = book_new c1 b1"
    "nd_external (node_new so random c1 c2 name (io_storage_init o') addr reg peers s) = book_new c2 b2"
proof -
  obtain a s1 where a: "read_address so random (io_storage_init o') s = (a, s1)" by fastforce
  have "sg_read so RecordsT (inner_path o') s1 = Inr (Some (RecordsV b1))"
    "sg_read so RecordsT (external_path o') s1 = Inr (Some (RecordsV b2))"
    using read_address_frame [OF ok, of _ o' RecordsT random s] d i e by (auto simp: a)
  then show "nd_inner (node_new so random c1 c2 name (io_storage_init o') addr reg peers s) = book_new c1 b1"
    "nd_external (node_new so random c1 c2 name (io_storage_init o') addr reg peers s) = book_new c2 b2"
    by (simp_all add: node_new_def a read_records_def io_read_def init_entries storage_read_found)
qed

lemma node_new_keeps_address:
  assumes ok: "storage_ok so" and d: "distinct [address_path o', inner_path o', external_path o']"
    and st: "sg_read so AddressT (address_path o') s = Inr (Some (AddressV a))"
  shows "nd_id (node_new so random c1 c2 name (io_storage_init o') addr reg peers s) = a"
    "sg_read so AddressT (address_path o')
       (nd_files (node_new so random c1 c2 name (io_storage_init o') addr reg peers s)) = Inr (Some (AddressV a))"
proof -
  have a: "read_address so random (io_storage_init o') s = (a, s)"
    using read_address_found [OF ok st, of random] by auto
  obtain b1 s1 where i: "read_records so random storage_inner_server (io_storage_init o') s = (b1, s1)" by fastforce
  obtain b2 s2 where e: "read_records so random storage_external_server (io_storage_init o') s1 = (b2, s2)" by fastforce
  have "s1 = snd (storage_read so random \<lparr>ie_type = RecordsT, ie_file = inner_path o'\<rparr> s)"
    "s2 = snd (storage_read so random \<lparr>ie_type = RecordsT, ie_file = external_path o'\<rparr> s1)"
    using i e by (auto simp: read_records_def io_read_def init_entries split: prod.splits)
  then have "sg_read so AddressT (address_path o') s2 = Inr (Some (AddressV a))"
    using st d by (simp add: storage_read_frame [OF ok])
  then show "nd_id (node_new so random c1 c2 name (io_storage_init o') addr reg peers s) = a"
    "sg_read so AddressT (address_path o')
       (nd_files (node_new so random c1 c2 name (io_storage_init o') addr reg peers s)) = Inr (Some (AddressV a))"
    by (simp_all add: node_new_def a i e)
qed

subsection \<open>Who dials\<close>

text \<open>Of two nodes that know each other by their sockets at most one dials the other.\<close>

lemma connect_exclusive:
  "nd_addr m \<in> set (connect_targets n) \<Longrightarrow> nd_addr n \<notin> set (connect_targets m)"
  by (auto simp: connect_targets_def sock_less_def)

text \<open>A node bound to the unspecified address, the default, never leaves the call to an IPv4 peer.\<close>

lemma unspecified_dials_all:
  assumes "nd_addr n = SockV4 (Ipv4 0 0 0 0) p" "SockV4 a q \<in> pr_endpoint ` set (nd_inner n)"
    and "a \<noteq> Ipv4 0 0 0 0"
  shows "SockV4 a q \<in> set (connect_targets n)"
proof (cases a)
  case (Ipv4 w x y z)
  have "unat v = 0 \<longleftrightarrow> v = 0" for v :: u8 by (simp add: unat_eq_zero)
  then have "sock_less (SockV4 (Ipv4 0 0 0 0) p) (SockV4 a q)"
    using assms(3) by (auto simp: Ipv4 sock_less_def)
  then show ?thesis using assms(1,2) by (auto simp: connect_targets_def)
qed

subsection \<open>Own sockets\<close>

lemma all_seeds_register_own:
  "registry_ok reg \<Longrightarrow> set (nr_get_all_seeds (register_own from_ip now self socks reg)) =
     set (nr_get_all_seeds reg) \<union> (\<lambda>a. (a, self)) ` set socks"
  by (induction socks arbitrary: reg) (simp_all add: register_own_def all_seeds_register nr_register_ok)

lemma own_sockets_public: "a \<in> set (own_sockets addr ips) \<Longrightarrow> \<not> is_loopback (sock_ip a)"
proof -
  have "sock_ip (sock_new ip p) = ip" for ip p by (cases ip) simp_all
  moreover assume "a \<in> set (own_sockets addr ips)"
  ultimately show ?thesis by (auto simp: own_sockets_def split: if_splits)
qed

lemma add_seeds_frame:
  "nd_id (add_seeds pe ticks seeds n) = nd_id n"
  "nd_files (add_seeds pe ticks seeds n) = nd_files n"
  "nd_stores (add_seeds pe ticks seeds n) = nd_stores n"
  "n_registry (add_seeds pe ticks seeds n) = n_registry n"
  unfolding add_seeds_def
  by (rule fold_keeps [where P = "\<lambda>m. nd_id m = nd_id n"], auto)
    (rule fold_keeps [where P = "\<lambda>m. nd_files m = nd_files n"], auto,
     rule fold_keeps [where P = "\<lambda>m. nd_stores m = nd_stores n"], auto,
     rule fold_keeps [where P = "\<lambda>m. n_registry m = n_registry n"], auto)

subsection \<open>Properties\<close>

text \<open>
  C34. What a node knew is known after a restart. A node that stops writes its books; a node
  started on the files it left has, in both books, a record for exactly the same
  endpoints, each the stored one with the availability flag cleared if it had expired by
  then. Storage keeps what it is given, writing succeeds and the three files differ.
\<close>

theorem registries_survive_restart:
  assumes "storage_ok so" "\<And>f v s. fst (sg_save so f v s)"
    and "nd_stores n = io_storage_init o'" "distinct [address_path o', inner_path o', external_path o']"
    and "distinct (map pr_endpoint (nd_inner n))" "distinct (map pr_endpoint (nd_external n))"
    and "n' = node_new so random c1 c2 name (io_storage_init o') addr reg peers (nd_files (node_stop so n))"
  shows "mset (map pr_endpoint (nd_inner n')) = mset (map pr_endpoint (nd_inner n)) \<and>
    mset (map pr_endpoint (nd_external n')) = mset (map pr_endpoint (nd_external n)) \<and>
    (\<forall>r' \<in> set (nd_inner n'). \<exists>k. \<exists>r \<in> set (nd_inner n). r' = check_expiry (c1 k) r) \<and>
    (\<forall>r' \<in> set (nd_external n'). \<exists>k. \<exists>r \<in> set (nd_external n). r' = check_expiry (c2 k) r)"
proof -
  have ne: "inner_path o' \<noteq> external_path o'" using assms(4) by simp
  obtain b1 b2 where b: "sg_read so RecordsT (inner_path o') (nd_files (node_stop so n)) = Inr (Some (RecordsV b1))"
    "mset b1 = mset (nd_inner n)"
    "sg_read so RecordsT (external_path o') (nd_files (node_stop so n)) = Inr (Some (RecordsV b2))"
    "mset b2 = mset (nd_external n)"
    using save_registries_files [OF assms(1-3) ne] unfolding node_stop_def by blast
  have d: "distinct (map pr_endpoint b1)" "distinct (map pr_endpoint b2)"
    using distinct_mset [OF assms(5) b(2)] distinct_mset [OF assms(6) b(4)] by auto
  have n': "nd_inner n' = book_new c1 b1" "nd_external n' = book_new c2 b2"
    unfolding assms(7) using node_new_loads [OF assms(1,4) b(1,3)] by blast+
  have s: "set b1 = set (nd_inner n)" "set b2 = set (nd_external n)"
    using arg_cong [OF b(2), of set_mset] arg_cong [OF b(4), of set_mset] by simp_all
  show ?thesis
    unfolding n' using book_new_members [OF d(1)] book_new_members [OF d(2)] b(2,4) s
    by (simp add: book_new_endpoints d)
qed

text \<open>
  C35. A node starts with one identity. When storage can be written, the address in the
  context, the identity of the node and the address kept in the file are the same, so the
  next start finds it again; and the registry holds the node's own sockets under that
  address and nothing else.
\<close>

theorem init_one_identity:
  assumes "storage_ok (in_storage ie)" "\<And>f v s. fst (sg_save (in_storage ie) f v s)"
    and "distinct [address_path o', inner_path o', external_path o']"
    and "node_init ie rnd1 rnd2 c1 c2 ticks now o' s = Some (a, n)"
  shows "nd_id n = a \<and> sg_read (in_storage ie) AddressT (address_path o') (nd_files n) = Inr (Some (AddressV a)) \<and>
    (\<exists>addr. parse_sock (opt_ip o' @ '':'' @ show_nat (unat (opt_port o'))) = Some addr \<and>
      set (nr_get_all_seeds (n_registry n)) = (\<lambda>s. (s, acc_string a)) ` set (own_sockets addr (in_system_ips ie)))"
proof -
  let ?so = "in_storage ie" and ?ios = "io_storage_init o'"
  obtain addr s1 where addr: "parse_sock (opt_ip o' @ '':'' @ show_nat (unat (opt_port o'))) = Some addr"
    and a: "read_address ?so rnd1 ?ios s = (a, s1)"
    using assms(4) by (auto simp: node_init_def Let_def split: option.splits prod.splits)
  define m where "m = node_new ?so rnd2 c1 c2 (opt_name o') ?ios addr
    (register_own (in_from_ip ie) now (acc_string a) (own_sockets addr (in_system_ips ie)) nr_new)
    (parse_seeds (opt_seeds o')) s1"
  have n: "n = (if opt_seeds o' \<noteq> None
    then save_registries ?so (add_seeds (in_peer ie) ticks (parse_seeds (opt_seeds o')) m) else m)"
    using assms(4) unfolding node_init_def addr option.case a prod.case Let_def m_def by auto
  note st = read_address_stored [OF assms(1,2) a]
  have m: "nd_id m = a" "nd_stores m = ?ios"
    "n_registry m = register_own (in_from_ip ie) now (acc_string a) (own_sockets addr (in_system_ips ie)) nr_new"
    "sg_read ?so AddressT (address_path o') (nd_files m) = Inr (Some (AddressV a))"
    using node_new_keeps_address [OF assms(1,3) st] by (auto simp: m_def node_new_def split: prod.splits)
  have "nd_id n = a" "n_registry n = n_registry m"
    using m by (auto simp: n save_registries_def add_seeds_frame)
  moreover have "sg_read ?so AddressT (address_path o') (nd_files n) = Inr (Some (AddressV a))"
    using m assms(3) save_registries_frame [OF assms(1), of _ o' "address_path o'" AddressT]
    by (auto simp: n add_seeds_frame)
  moreover have "set (nr_get_all_seeds nr_new) = {}" by (simp add: nr_new_def nr_get_all_seeds_def)
  ultimately show ?thesis
    using addr m(3) by (simp add: all_seeds_register_own nr_new_def)
qed

text \<open>
  C36. An identity that cannot be read is replaced. When reading the address file fails, for
  whatever reason, the random address generated in its place is written to the file, and
  every later start uses it: the old identity is gone.
\<close>

theorem read_error_replaces_identity:
  assumes "storage_ok so" "fst (sg_save so (address_path o') (AddressV random) s)"
    and "sg_read so AddressT (address_path o') s = Inl ()"
  shows "\<exists>s'. read_address so random (io_storage_init o') s = (random, s') \<and>
    (\<forall>later. read_address so later (io_storage_init o') s' = (random, s'))"
proof -
  let ?s = "snd (sg_save so (address_path o') (AddressV random) s)"
  have r: "sg_read so AddressT (address_path o') ?s = Inr (Some (AddressV random))"
    using storage_saved [OF assms(1,2)] by (auto simp: value_type_def)
  have "read_address so random (io_storage_init o') s = (random, ?s)"
    using assms(3) by (simp add: read_address_def io_read_def init_entries storage_read_def io_default_def Let_def)
  then show ?thesis using read_address_found [OF assms(1) r] by auto
qed

subsection \<open>A concrete storage\<close>

text \<open>A list of files; a file that is there without a value cannot be read.\<close>

definition demo_storage :: "((string \<times> nat io_value option) list, nat) storage_ops" where
  "demo_storage =
     \<lparr>sg_read = (\<lambda>ty f s. case map_of s f of
         None \<Rightarrow> Inr None
       | Some None \<Rightarrow> Inl ()
       | Some (Some v) \<Rightarrow> if value_type v = ty then Inr (Some v) else Inl ()),
      sg_save = (\<lambda>f v s. (True, (f, Some v) # s))\<rparr>"

lemma io_same_refl [simp]: "io_same v v"
  by (cases v) simp_all

lemma demo_storage_ok: "storage_ok demo_storage"
  by (auto simp: storage_ok_def demo_storage_def split: option.splits if_splits)

lemma demo_storage_writes: "fst (sg_save demo_storage f v s)"
  by (simp add: demo_storage_def)

definition demo_id :: "string \<Rightarrow> account" where
  "demo_id s = \<lparr>acc_string = s, acc_private_key = [1], acc_public_key = [2]\<rparr>"

definition demo_opt :: opt where
  "demo_opt = \<lparr>opt_name = ''n'', opt_ip = ''10.0.0.9'', opt_port = 1090, opt_data_dir = None,
     opt_address_file = None, opt_inner_server_file = None, opt_external_server_file = None,
     opt_seeds = None, opt_test = False\<rparr>"

lemma demo_paths: "distinct [address_path demo_opt, inner_path demo_opt, external_path demo_opt]"
  by (simp add: demo_opt_def address_path_def inner_path_def external_path_def or_default_def)

definition demo_full_node :: "((string \<times> nat io_value option) list, nat) full_node" where
  "demo_full_node =
     \<lparr>n_registry = nr_new, n_peer_addrs = [], nd_name = ''n'', nd_id = demo_id ''A'',
      nd_inner = [record_new demo_peer_env 0 demo_peer_sock], nd_external = [],
      nd_stores = io_storage_init demo_opt, nd_files = [], nd_addr = demo_peer_sock\<rparr>"

lemma registries_survive_restart_witness:
  "mset (map pr_endpoint (nd_inner (node_new demo_storage (demo_id ''B'') (\<lambda>_. 9) (\<lambda>_. 9) ''n''
      (io_storage_init demo_opt) demo_peer_sock nr_new [] (nd_files (node_stop demo_storage demo_full_node))))) =
    {#demo_peer_sock#}"
    using registries_survive_restart [OF demo_storage_ok demo_storage_writes _ demo_paths, of demo_full_node
      _ "demo_id ''B''" "\<lambda>_. 9" "\<lambda>_. 9" "''n''" demo_peer_sock nr_new "[]"]
    by (simp add: demo_full_node_def)

definition demo_init_env :: "((string \<times> nat io_value option) list, nat) init_env" where
  "demo_init_env = \<lparr>in_storage = demo_storage, in_peer = demo_peer_env, in_from_ip = (\<lambda>_. Intranet),
     in_system_ips = [(Intranet, V4 (Ipv4 127 0 0 1)), (Intranet, V4 (Ipv4 10 0 0 9))]\<rparr>"

lemma demo_parses: "parse_sock (opt_ip demo_opt @ '':'' @ show_nat (unat (opt_port demo_opt))) =
  Some (SockV4 (Ipv4 10 0 0 9) 1090)"
proof -
  have "opt_ip demo_opt @ '':'' @ show_nat (unat (opt_port demo_opt)) = show_sock (SockV4 (Ipv4 10 0 0 9) 1090)"
    by (simp add: demo_opt_def digit_char_def show_radix.simps char_of_def bit_0)
  then show ?thesis by (simp only: parse_show_sock_v4)
qed

lemma init_one_identity_witness:
  "\<exists>n. node_init demo_init_env (demo_id ''A'') (demo_id ''B'') (\<lambda>_. 0) (\<lambda>_. 0) (\<lambda>_. 0) 0 demo_opt [] =
      Some (demo_id ''A'', n) \<and>
    nd_id n = demo_id ''A'' \<and>
    set (nr_get_all_seeds (n_registry n)) = {(SockV4 (Ipv4 10 0 0 9) 1090, ''A'')}"
proof -
  have "fst (read_address demo_storage (demo_id ''A'') (io_storage_init demo_opt) []) = demo_id ''A''"
    by (simp add: read_address_def io_read_def init_entries storage_read_def io_default_def demo_storage_def
        value_type_def Let_def)
  then have "\<exists>n. node_init demo_init_env (demo_id ''A'') (demo_id ''B'') (\<lambda>_. 0) (\<lambda>_. 0) (\<lambda>_. 0) 0 demo_opt [] =
      Some (demo_id ''A'', n)"
    unfolding node_init_def demo_parses option.case
    by (cases "read_address demo_storage (demo_id ''A'') (io_storage_init demo_opt) []")
      (simp add: demo_init_env_def Let_def)
  then obtain n where n: "node_init demo_init_env (demo_id ''A'') (demo_id ''B'') (\<lambda>_. 0) (\<lambda>_. 0) (\<lambda>_. 0) 0 demo_opt [] =
      Some (demo_id ''A'', n)" by blast
  have e: "in_storage demo_init_env = demo_storage" by (simp add: demo_init_env_def)
  from init_one_identity [of demo_init_env, unfolded e, OF demo_storage_ok demo_storage_writes demo_paths n]
  show ?thesis
    unfolding demo_parses using n by (auto simp: own_sockets_def demo_init_env_def demo_id_def)
qed

lemma read_error_replaces_identity_witness:
  "fst (read_address demo_storage (demo_id ''C'') (io_storage_init demo_opt)
     (snd (read_address demo_storage (demo_id ''B'') (io_storage_init demo_opt) [(''address.json'', None)]))) =
   demo_id ''B''"
proof -
  have "sg_read demo_storage AddressT (address_path demo_opt) [(''address.json'', None)] = Inl ()"
    by (simp add: demo_storage_def address_path_def or_default_def demo_opt_def)
  from read_error_replaces_identity [OF demo_storage_ok demo_storage_writes this, of "demo_id ''B''"]
  show ?thesis by (metis fst_conv snd_conv)
qed

end
