(* ===== verification/Console.thy ===== *)
theory Console
  imports NodeState Message
begin

text \<open>
  The command line: \<^verbatim>\<open>src/cli.rs\<close> and the commands of \<^verbatim>\<open>src/clis\<close>. A command
  transforms the state of the console: the node's context, its storage, the counter of
  request ids, what was written to connections and what was printed. What the clock, the
  nonces and the connection manager of \<^verbatim>\<open>aex\<close> answer is indexed by the number of the
  command. Shown: the lines of a session are executed in order up to \<^verbatim>\<open>exit\<close>, and when
  the command \<^verbatim>\<open>sync\<close> reports completion.
\<close>

subsection \<open>State\<close>

datatype shown = Out string | Err string

record ('p, 's) console =
  co_ctx :: "'p global_ctx"
  co_stores :: "io_stores option"
  co_files :: 's
  co_counter :: u64
  co_step :: nat
  co_written :: "(socket_addr \<times> bytes) list"
  co_shown :: "shown list"

record ('p, 's, 'q) con_env =
  cn_hs :: "'p hs_env"
  cn_msg :: "'p msg_env"
  cn_storage :: "('s, 'q) storage_ops"
  cn_random :: "nat \<Rightarrow> account"
  cn_nonce :: "nat \<Rightarrow> u64"
  cn_now :: "nat \<Rightarrow> u64"
  cn_timestamp :: "nat \<Rightarrow> u128"
  cn_clock :: "nat \<Rightarrow> nat \<Rightarrow> i64"
  cn_dial :: "nat \<Rightarrow> socket_addr \<Rightarrow> string + conn"
  cn_entries_of :: "bytes \<Rightarrow> connections \<Rightarrow> conn_entry list"
  cn_all_entries :: "connections \<Rightarrow> socket_addr list"

type_synonym ('p, 's) cli_handler = "string list \<Rightarrow> ('p, 's) console \<Rightarrow> ('p, 's) console"

type_synonym ('p, 's) cli = "(string, ('p, 's) cli_handler) hmap"

definition say :: "string \<Rightarrow> ('p, 's) console \<Rightarrow> ('p, 's) console" where
  "say line st = st\<lparr>co_shown := co_shown st @ [Out line]\<rparr>"

definition complain :: "string \<Rightarrow> ('p, 's) console \<Rightarrow> ('p, 's) console" where
  "complain line st = st\<lparr>co_shown := co_shown st @ [Err line]\<rparr>"

definition next_step :: "('p, 's) console \<Rightarrow> ('p, 's) console" where
  "next_step st = st\<lparr>co_step := Suc (co_step st)\<rparr>"

subsection \<open>Formatting\<close>

definition glyph :: "nat list \<Rightarrow> string" where
  "glyph bs = map char_of bs"

definition pad_right :: "nat \<Rightarrow> string \<Rightarrow> string" where
  "pad_right n s = s @ replicate (n - length s) (CHR '' '')"

fun join_with :: "string \<Rightarrow> string list \<Rightarrow> string" where
  "join_with sep [] = []"
| "join_with sep [s] = s"
| "join_with sep (s # t # ss) = s @ sep @ join_with sep (t # ss)"

definition debug_list :: "('a \<Rightarrow> string) \<Rightarrow> 'a list \<Rightarrow> string" where
  "debug_list f xs = ''['' @ join_with '', '' (map f xs) @ '']''"

subsection \<open>help, send\<close>

definition cli_help :: "('p, 's) cli_handler" where
  "cli_help args st =
     fold say
       [''Commands:'',
        '' send <address> <message>   - send text message'',
        '' connect <ip> <port>        - connect to a new node'',
        '' status                     - show node status'',
        '' exit                       - exit program''] st"

text \<open>
  \<^verbatim>\<open>send\<close> takes the first word after the address as the message and the first connection
  of the receiver; a missing connection context would panic inside the task.
\<close>

definition cli_send :: "('p, 's, 'q) con_env \<Rightarrow> ('p, 's) cli_handler" where
  "cli_send ce args st =
     (if length args < 2 then say ''Usage: send <address> <message>'' st
      else
        (let receiver = args ! 0;
             msg = args ! 1;
             (request_id, counter) = next_request_id (co_counter st);
             sender = (case g_address (co_ctx st) of Some a \<Rightarrow> acc_string a | None \<Rightarrow> []);
             written = (case cn_entries_of ce (as_bytes receiver) (g_connections (co_ctx st)) of
                          [] \<Rightarrow> []
                        | e # _ \<Rightarrow>
                            (case ce_context e of
                               None \<Rightarrow> []
                             | Some c \<Rightarrow>
                                 (case send_text_message (cn_msg ce) (cn_timestamp ce (co_step st))
                                         (cn_nonce ce (co_step st)) sender receiver request_id c msg (co_ctx st) of
                                    Inr (Some bs) \<Rightarrow> [(ce_addr e, bs)]
                                  | _ \<Rightarrow> [])))
         in st\<lparr>co_counter := counter, co_written := co_written st @ written\<rparr>))"

subsection \<open>connect\<close>

text \<open>The own address of the node as text, from the id of the local node.\<close>

definition self_address :: "'p global_ctx \<Rightarrow> string" where
  "self_address g = (case string_from_utf8 (an_id (g_local_node g)) of Some s \<Rightarrow> s | None \<Rightarrow> [])"

text \<open>Connecting to a peer first registers its socket, under the node's own address.\<close>

definition register_dialled ::
  "('p, 's, 'q) con_env \<Rightarrow> nat \<Rightarrow> socket_addr \<Rightarrow> 'p global_ctx \<Rightarrow> 'p global_ctx" where
  "register_dialled ce k addr g =
     (case g_node g of
        Some _ \<Rightarrow> on_registry (nr_register (cn_now ce k) (self_address g) addr (hs_from_ip (cn_hs ce) (sock_ip addr))) g
      | None \<Rightarrow> g)"

text \<open>
  The greeting on a new connection: whether it was handed to the connection, what was
  written, and the context. Without session keys the task panics before sending.
\<close>

definition cli_greet ::
  "('p, 's, 'q) con_env \<Rightarrow> nat \<Rightarrow> conn \<Rightarrow> 'p global_ctx \<Rightarrow> bool \<times> bytes option \<times> 'p global_ctx" where
  "cli_greet ce k c g =
     (case g_psk g of
        None \<Rightarrow> (False, None, g)
      | Some p \<Rightarrow>
          (case psk_create (hs_psk (cn_hs ce)) p of
             ((session_id, key), p') \<Rightarrow>
               (let g' = g\<lparr>g_psk := Some p'\<rparr>;
                    node = g_local_node g';
                    cmd = \<lparr>on_session_id = session_id, on_node = node, on_key = key,
                           on_intranet_ips = announced_ips Intranet node,
                           on_wan_ips = announced_ips Extranet node,
                           on_seeds = Some (all_seeds_command (cn_hs ce) (cn_clock ce k) g')\<rparr>
                in case frame_send (cn_hs ce) (hs_psk (cn_hs ce)) (hs_online (cn_hs ce)) (cn_nonce ce k) g' c
                          (Some cmd) ENode OnLine False of
                     Inr sent \<Rightarrow> (True, sent, g')
                   | Inl e \<Rightarrow> (False, None, g'))))"

definition written_on :: "socket_addr \<Rightarrow> bytes option \<Rightarrow> (socket_addr \<times> bytes) list" where
  "written_on a sent = (case sent of Some bs \<Rightarrow> [(a, bs)] | None \<Rightarrow> [])"

definition cli_connect :: "('p, 's, 'q) con_env \<Rightarrow> ('p, 's) cli_handler" where
  "cli_connect ce args st =
     (if length args < 2 then say ''Usage: connect <ip> <port>'' st
      else
        (let addr_str = args ! 0 @ '':'' @ args ! 1
         in case parse_sock addr_str of
              None \<Rightarrow> say (''Invalid address: '' @ addr_str) st
            | Some addr \<Rightarrow>
                (let g = register_dialled ce (co_step st) addr (co_ctx st)
                 in case cn_dial ce (co_step st) addr of
                      Inl e \<Rightarrow> say (''Failed to connect: '' @ e) (st\<lparr>co_ctx := g\<rparr>)
                    | Inr c \<Rightarrow>
                        (case cli_greet ce (co_step st) c g of
                           (ok, sent, g') \<Rightarrow>
                             (if ok then say ''message send!'' else id)
                               (say (''Connected to '' @ show_sock addr @ ''!'')
                                 (say ''Connection attempt started...''
                                   (st\<lparr>co_ctx := g', co_written := co_written st @ written_on addr sent\<rparr>)))))))"

subsection \<open>Connection counts\<close>

record conn_counts =
  cc_ips :: nat
  cc_clients :: nat
  cc_servers :: nat
  cc_intranet :: nat
  cc_extranet :: nat

text \<open>One pass over the table of connections, loopback and unspecified addresses left out.\<close>

definition count_bucket :: "(ip_addr \<times> network_scope) \<times> bi_conn \<Rightarrow> conn_counts \<Rightarrow> conn_counts" where
  "count_bucket b cc =
     (case b of ((ip, sc), bi) \<Rightarrow>
        if \<not> is_public_ip ip then cc
        else
          (let client_count = length (bc_clients bi); server_count = length (bc_servers bi)
           in cc\<lparr>cc_ips := cc_ips cc + 1,
                 cc_intranet := (if sc = Intranet then cc_intranet cc + (client_count + server_count) else cc_intranet cc),
                 cc_extranet := (if sc = Intranet then cc_extranet cc else cc_extranet cc + (client_count + server_count)),
                 cc_clients := cc_clients cc + client_count,
                 cc_servers := cc_servers cc + server_count\<rparr>))"

definition count_connections :: "connections \<Rightarrow> conn_counts" where
  "count_connections cs =
     fold count_bucket cs \<lparr>cc_ips = 0, cc_clients = 0, cc_servers = 0, cc_intranet = 0, cc_extranet = 0\<rparr>"

definition cli_peers :: "('p, 's) cli_handler" where
  "cli_peers args st =
     (let cc = count_connections (g_connections (co_ctx st))
      in fold say
           [''=== Connection Status ==='',
            ''Intranet connections: '' @ show_nat (cc_intranet cc),
            ''Extranet connections: '' @ show_nat (cc_extranet cc),
            ''Inbound (clients): '' @ show_nat (cc_clients cc),
            ''Outbound (servers): '' @ show_nat (cc_servers cc)] st)"

text \<open>The node's address, read through the storage in the context.\<close>

definition console_address ::
  "('p, 's, 'q) con_env \<Rightarrow> io_stores \<Rightarrow> ('p, 's) console \<Rightarrow> account option \<times> ('p, 's) console" where
  "console_address ce ios st =
     (case io_read (cn_storage ce) (cn_random ce (co_step st)) AddressT ''address'' ios (co_files st) of
        (v, s') \<Rightarrow> (case v of Some (AddressV a) \<Rightarrow> Some a | _ \<Rightarrow> None, st\<lparr>co_files := s'\<rparr>))"

definition cli_info :: "('p, 's, 'q) con_env \<Rightarrow> ('p, 's) cli_handler" where
  "cli_info ce args st =
     (let verbose = list_ex (\<lambda>a. a = ''-v'' \<or> a = ''--verbose'') args
      in case co_stores st of
           None \<Rightarrow> complain ''Error: IOStorage not found in context'' st
         | Some ios \<Rightarrow>
             (case console_address ce ios st of
                (None, st') \<Rightarrow> complain ''Error: Failed to read address'' st'
              | (Some a, st') \<Rightarrow>
                  (let cc = count_connections (g_connections (co_ctx st'))
                   in fold say
                        ([''=== Node Information ==='', ''Address: '' @ acc_string a,
                          ''Local: '' @ show_sock (g_addr (co_ctx st'))] @
                         (if verbose
                          then [''Total connections: '' @ show_nat (cc_clients cc + cc_servers cc),
                                ''Inbound (clients): '' @ show_nat (cc_clients cc),
                                ''Outbound (servers): '' @ show_nat (cc_servers cc)]
                          else [])) st')))"

definition bar :: "nat list \<Rightarrow> nat list \<Rightarrow> string \<Rightarrow> nat \<Rightarrow> nat \<Rightarrow> nat list \<Rightarrow> string" where
  "bar l m title i j r =
     glyph l @ concat (replicate i (glyph m)) @ title @ concat (replicate j (glyph m)) @ glyph r"

definition status_box :: "conn_counts \<Rightarrow> string" where
  "status_box cc =
     (let side = glyph [0xE2, 0x94, 0x83]
      in join_with ''\<newline>''
           [bar [0xE2, 0x94, 0x8F] [0xE2, 0x94, 0x81] '' AEX Connection Profile '' 16 15 [0xE2, 0x94, 0x93],
            side @ ''  Nodes (IPs):      '' @ pad_right 40 (show_nat (cc_ips cc)) @ '' '' @ side,
            side @ ''  Total Conns:      '' @ pad_right 40 (show_nat (cc_clients cc + cc_servers cc)) @ '' '' @ side,
            bar [0xE2, 0x94, 0xA0] [0xE2, 0x94, 0x80] [] 54 0 [0xE2, 0x94, 0xA8],
            side @ ''  Direction:        Inbound: '' @ pad_right 10 (show_nat (cc_clients cc)) @
              '' Outbound: '' @ pad_right 10 (show_nat (cc_servers cc)) @ '' '' @ side,
            side @ ''  Network Scope:    Intra:   '' @ pad_right 10 (show_nat (cc_intranet cc)) @
              '' Extra:    '' @ pad_right 10 (show_nat (cc_extranet cc)) @ '' '' @ side,
            bar [0xE2, 0x94, 0x97] [0xE2, 0x94, 0x81] [] 54 0 [0xE2, 0x94, 0x9B]])"

definition cli_status :: "('p, 's, 'q) con_env \<Rightarrow> ('p, 's) cli_handler" where
  "cli_status ce args st =
     (case co_stores st of
        None \<Rightarrow> complain ''Error: IOStorage not found in context'' st
      | Some ios \<Rightarrow>
          (case console_address ce ios st of
             (a, st') \<Rightarrow>
               say (status_box (count_connections (g_connections (co_ctx st'))))
                 (case a of
                    Some x \<Rightarrow> say (''Node address: '' @ acc_string x) st'
                  | None \<Rightarrow> complain ''Error: Failed to read or generate node address'' st')))"

subsection \<open>sync\<close>

definition sync_rounds_per_tick :: nat where
  "sync_rounds_per_tick = 3"

definition is_connected :: "('p, 's, 'q) con_env \<Rightarrow> 'p global_ctx \<Rightarrow> socket_addr \<Rightarrow> bool" where
  "is_connected ce g addr \<longleftrightarrow> addr \<in> set (filter_entries (cn_all_entries ce (g_connections g)))"

definition get_connected_seeds :: "('p, 's, 'q) con_env \<Rightarrow> 'p global_ctx \<Rightarrow> string list" where
  "get_connected_seeds ce g = sort (map show_sock (filter_entries (cn_all_entries ce (g_connections g))))"

definition compute_witness_hash :: "(bytes \<Rightarrow> bytes) \<Rightarrow> string list \<Rightarrow> bytes" where
  "compute_witness_hash sha256 seeds = sha256 (concat (map as_bytes seeds))"

text \<open>One spawned connection attempt; it succeeds when the greeting task ran.\<close>

definition connect_to_peer_sync ::
  "('p, 's, 'q) con_env \<Rightarrow> nat \<Rightarrow> socket_addr \<Rightarrow> 'p global_ctx \<Rightarrow>
   bool \<times> (socket_addr \<times> bytes) list \<times> 'p global_ctx" where
  "connect_to_peer_sync ce k addr g =
     (let g1 = register_dialled ce k addr g
      in case cn_dial ce k addr of
           Inl e \<Rightarrow> (False, [], g1)
         | Inr c \<Rightarrow>
             (case cli_greet ce k c g1 of
                (ok, sent, g2) \<Rightarrow> (g_psk g1 \<noteq> None, written_on addr sent, g2)))"

text \<open>
  One round: the peers that are not connected are dialled, the tasks are joined, then
  \<open>settle\<close> is what happens to the context while the command sleeps.
\<close>

definition sync_round ::
  "('p, 's, 'q) con_env \<Rightarrow> ('p global_ctx \<Rightarrow> 'p global_ctx) \<Rightarrow> nat \<Rightarrow> socket_addr list \<Rightarrow> 'p global_ctx \<Rightarrow>
   (socket_addr \<times> bytes) list \<times> 'p global_ctx" where
  "sync_round ce settle k targets g =
     (let pending = filter (\<lambda>a. \<not> is_connected ce g a) targets
      in case fold (\<lambda>a (w, g). case connect_to_peer_sync ce k a g of (_, w', g') \<Rightarrow> (w @ w', g')) pending ([], g) of
           (w, g') \<Rightarrow> (w, settle g'))"

definition round_line :: "nat \<Rightarrow> string list \<Rightarrow> bytes \<Rightarrow> string" where
  "round_line k seeds h =
     ''  '' @ glyph [0xF0, 0x9F, 0x93, 0x8A] @ '' Round '' @ show_nat k @ '': '' @ show_nat (length seeds) @
     '' connected, hash='' @ debug_list (\<lambda>b. show_nat (unat b)) (take 8 h)"

definition complete_line :: "string list \<Rightarrow> string" where
  "complete_line seeds =
     glyph [0xE2, 0x9C, 0x85] @ '' Sync complete: '' @ show_nat (length seeds) @ '' connected''"

definition final_line :: "string list \<Rightarrow> string" where
  "final_line seeds =
     glyph [0xE2, 0x9A, 0xA0, 0xEF, 0xB8, 0x8F] @ '' Final: '' @
     debug_list (\<lambda>s. [CHR 0x22] @ s @ [CHR 0x22]) seeds"

text \<open>The loop over the rounds; the result says whether the command reported completion.\<close>

fun sync_loop ::
  "('p, 's, 'q) con_env \<Rightarrow> (bytes \<Rightarrow> bytes) \<Rightarrow> (nat \<Rightarrow> 'p global_ctx \<Rightarrow> 'p global_ctx) \<Rightarrow> socket_addr list \<Rightarrow>
   nat \<Rightarrow> nat \<Rightarrow> bytes \<Rightarrow> nat \<Rightarrow> ('p, 's) console \<Rightarrow> bool \<times> ('p, 's) console" where
  "sync_loop ce sha256 settle targets 0 k prev steady st =
     (False, say (final_line (get_connected_seeds ce (co_ctx st))) st)"
| "sync_loop ce sha256 settle targets (Suc left) k prev steady st =
     (let (w, g) = sync_round ce (settle k) k targets (co_ctx st);
          st1 = st\<lparr>co_ctx := g, co_written := co_written st @ w\<rparr>;
          seeds = get_connected_seeds ce (co_ctx st1);
          h = compute_witness_hash sha256 seeds;
          st2 = say (round_line (Suc k) seeds h) st1
      in if h = prev \<and> seeds \<noteq> [] then
           (if 2 \<le> Suc steady then (True, say (complete_line seeds) st2)
            else sync_loop ce sha256 settle targets left (Suc k) h (Suc steady) st2)
         else sync_loop ce sha256 settle targets left (Suc k) h 0 st2)"

definition sync_targets :: "('p, 's, 'q) con_env \<Rightarrow> string list \<Rightarrow> 'p global_ctx \<Rightarrow> socket_addr list" where
  "sync_targets ce args g =
     (if args = [] then filter_entries (cn_all_entries ce (g_connections g))
      else List.map_filter parse_sock args)"

definition cli_sync ::
  "('p, 's, 'q) con_env \<Rightarrow> (bytes \<Rightarrow> bytes) \<Rightarrow> (nat \<Rightarrow> 'p global_ctx \<Rightarrow> 'p global_ctx) \<Rightarrow> ('p, 's) cli_handler" where
  "cli_sync ce sha256 settle args st =
     (let targets = sync_targets ce args (co_ctx st)
      in if targets = [] then
           fold say
             [''Usage: sync [<ip>:<port> ...]'', ''  Without args: sync with all connected peers'',
              ''  With args: sync with specified peers''] st
         else
           snd (sync_loop ce sha256 settle targets sync_rounds_per_tick 0 (replicate 32 0) 0
                  (say (glyph [0xF0, 0x9F, 0x94, 0x84] @ '' Sync start: '' @ show_nat (length targets) @ '' seeds'') st)))"

subsection \<open>The command line\<close>

definition cli_register :: "string \<Rightarrow> ('p, 's) cli_handler \<Rightarrow> ('p, 's) cli \<Rightarrow> ('p, 's) cli" where
  "cli_register name handler cli = AList.update name handler cli"

definition register_builtins ::
  "('p, 's, 'q) con_env \<Rightarrow> (bytes \<Rightarrow> bytes) \<Rightarrow> (nat \<Rightarrow> 'p global_ctx \<Rightarrow> 'p global_ctx) \<Rightarrow> ('p, 's) cli \<Rightarrow> ('p, 's) cli" where
  "register_builtins ce sha256 settle cli =
     fold (\<lambda>(name, handler). cli_register name handler)
       [(''send'', cli_send ce), (''connect'', cli_connect ce), (''status'', cli_status ce), (''help'', cli_help),
        (''peers'', cli_peers), (''info'', cli_info ce), (''sync'', cli_sync ce sha256 settle)] cli"

definition cli_new ::
  "('p, 's, 'q) con_env \<Rightarrow> (bytes \<Rightarrow> bytes) \<Rightarrow> (nat \<Rightarrow> 'p global_ctx \<Rightarrow> 'p global_ctx) \<Rightarrow> ('p, 's) cli" where
  "cli_new ce sha256 settle = register_builtins ce sha256 settle []"

text \<open>The words of a line: none, or a command with its arguments.\<close>

definition cli_words :: "string \<Rightarrow> (string \<times> string list) option" where
  "cli_words line =
     (let l = trim line
      in if l = [] then None
         else (case split_whitespace l of [] \<Rightarrow> None | w # ws \<Rightarrow> Some (w, ws)))"

definition cli_dispatch :: "('p, 's) cli \<Rightarrow> string \<Rightarrow> string list \<Rightarrow> ('p, 's) console \<Rightarrow> ('p, 's) console" where
  "cli_dispatch cli command args st =
     next_step
       (case map_of cli command of
          Some handler \<Rightarrow> handler args st
        | None \<Rightarrow> say (''Unknown command: '' @ [CHR 0x27] @ command @ [CHR 0x27] @ '', type '' @ [CHR 0x27] @
                        ''help'' @ [CHR 0x27] @ '' for help'') st)"

text \<open>The loop over the lines read; a line that cannot be read ends the loop with an error.\<close>

fun cli_loop :: "('p, 's) cli \<Rightarrow> string option list \<Rightarrow> ('p, 's) console \<Rightarrow> bool \<times> ('p, 's) console" where
  "cli_loop cli [] st = (True, st)"
| "cli_loop cli (None # ls) st = (False, st)"
| "cli_loop cli (Some line # ls) st =
     (case cli_words line of
        None \<Rightarrow> cli_loop cli ls st
      | Some (command, args) \<Rightarrow>
          if command = ''exit'' then (True, say ''Exiting...'' st)
          else cli_loop cli ls (cli_dispatch cli command args st))"

definition cli_run :: "('p, 's) cli \<Rightarrow> string option list \<Rightarrow> ('p, 's) console \<Rightarrow> bool \<times> ('p, 's) console" where
  "cli_run cli ls st = cli_loop cli ls (say (''Type '' @ [CHR 0x27] @ ''help'' @ [CHR 0x27] @ '' for commands.'') st)"

subsection \<open>Lemmas\<close>

text \<open>Taking the first word of a line that is not blank cannot fail.\<close>

lemma trim_trim: "trim (trim s) = [] \<longleftrightarrow> trim s = []"
  using trim_not_blank [of s] by (metis trim_empty utf8_chars.simps(1) empty_iff list.set(1))

lemma cli_words_None: "cli_words line = None \<longleftrightarrow> trim line = []"
  using split_whitespace_not_Nil [of "trim line"] trim_trim [of line]
  by (auto simp: cli_words_def Let_def split: list.splits)

lemma connection_totals:
  "cc_intranet (fold count_bucket cs cc) + cc_extranet (fold count_bucket cs cc) + (cc_clients cc + cc_servers cc) =
     cc_clients (fold count_bucket cs cc) + cc_servers (fold count_bucket cs cc) + (cc_intranet cc + cc_extranet cc)"
proof (induction cs arbitrary: cc)
  case (Cons b cs)
  obtain ip sc bi where b: "b = ((ip, sc), bi)" by (metis prod_cases3 surj_pair)
  show ?case using Cons.IH [of "count_bucket b cc"] by (auto simp: b count_bucket_def Let_def)
qed simp

text \<open>A peer that is dialled from the console ends up in the registry under the caller's own address.\<close>

lemma dialled_under_own_address:
  "gctx_ok g \<Longrightarrow> g_registry g = Some reg \<Longrightarrow>
   (addr, self_address g) \<in> set (nr_get_all_seeds (the (g_registry (register_dialled ce k addr g))))"
  by (auto simp: register_dialled_def g_registry_def gctx_ok_iff all_seeds_register g_node_on_registry)

lemma co_ctx_say [simp]: "co_ctx (say l st) = co_ctx st"
  by (simp add: say_def)

lemma cli_loop_session:
  "cli_loop cli (map Some ls) st =
     (let cmds = List.map_filter cli_words ls;
          st' = fold (\<lambda>(c, args). cli_dispatch cli c args) (takeWhile (\<lambda>c. fst c \<noteq> ''exit'') cmds) st
      in (True, if ''exit'' \<in> fst ` set cmds then say ''Exiting...'' st' else st'))"
proof (induction ls arbitrary: st)
  case (Cons l ls)
  show ?case
  proof (cases "cli_words l")
    case (Some x)
    obtain c args where x: "x = (c, args)" by fastforce
    show ?thesis
      by (cases "c = ''exit''") (simp_all add: Some x Cons.IH map_filter_simps Let_def)
  qed (simp add: Cons.IH map_filter_simps Let_def)
qed (simp add: map_filter_simps)

text \<open>The context after some rounds of \<^verbatim>\<open>sync\<close>, and what is connected then.\<close>

fun round_ctx ::
  "('p, 's, 'q) con_env \<Rightarrow> (nat \<Rightarrow> 'p global_ctx \<Rightarrow> 'p global_ctx) \<Rightarrow> socket_addr list \<Rightarrow> 'p global_ctx \<Rightarrow>
   nat \<Rightarrow> 'p global_ctx" where
  "round_ctx ce settle targets g 0 = g"
| "round_ctx ce settle targets g (Suc k) = snd (sync_round ce (settle k) k targets (round_ctx ce settle targets g k))"

definition round_seeds ::
  "('p, 's, 'q) con_env \<Rightarrow> (nat \<Rightarrow> 'p global_ctx \<Rightarrow> 'p global_ctx) \<Rightarrow> socket_addr list \<Rightarrow> 'p global_ctx \<Rightarrow>
   nat \<Rightarrow> string list" where
  "round_seeds ce settle targets g k = get_connected_seeds ce (round_ctx ce settle targets g (Suc k))"

text \<open>The decision of the loop, as a function of the hashes of the rounds alone.\<close>

fun steady_loop :: "(nat \<Rightarrow> 'h) \<Rightarrow> (nat \<Rightarrow> bool) \<Rightarrow> nat \<Rightarrow> nat \<Rightarrow> 'h \<Rightarrow> nat \<Rightarrow> bool" where
  "steady_loop h some 0 k prev c = False"
| "steady_loop h some (Suc n) k prev c =
     (if h k = prev \<and> some k then 2 \<le> Suc c \<or> steady_loop h some n (Suc k) (h k) (Suc c)
      else steady_loop h some n (Suc k) (h k) 0)"

lemma sync_loop_steady:
  "co_ctx st = round_ctx ce settle targets g k \<Longrightarrow>
   fst (sync_loop ce sha256 settle targets left k prev steady st) =
     steady_loop (\<lambda>k. compute_witness_hash sha256 (round_seeds ce settle targets g k))
       (\<lambda>k. round_seeds ce settle targets g k \<noteq> []) left k prev steady"
proof (induction left arbitrary: k prev steady st)
  case (Suc left)
  obtain w g' where r: "sync_round ce (settle k) k targets (co_ctx st) = (w, g')" by fastforce
  then have g': "round_ctx ce settle targets g (Suc k) = g'" using Suc.prems by (metis round_ctx.simps(2) snd_conv)
  have seeds: "round_seeds ce settle targets g k = get_connected_seeds ce g'" by (simp only: round_seeds_def g')
  show ?case
    unfolding sync_loop.simps steady_loop.simps r seeds Let_def prod.case
    by (simp add: Suc.IH g' del: round_ctx.simps)
qed simp

lemma steady_three:
  "h 0 \<noteq> z \<Longrightarrow> steady_loop h some 3 0 z 0 \<longleftrightarrow> h 0 = h 1 \<and> h 1 = h 2 \<and> some 1 \<and> some 2"
  by (auto simp: numeral_3_eq_3 numeral_2_eq_2)

subsection \<open>Properties\<close>

text \<open>
  A session executes its lines in order up to the first \<^verbatim>\<open>exit\<close>. Blank lines are
  skipped, every other line is dispatched by its first word with the remaining words as
  arguments, and nothing after \<^verbatim>\<open>exit\<close> is executed.
\<close>

theorem cli_session:
  "cli_run cli (map Some ls) st =
     (let cmds = List.map_filter cli_words ls;
          greeted = say (''Type '' @ [CHR 0x27] @ ''help'' @ [CHR 0x27] @ '' for commands.'') st;
          st' = fold (\<lambda>(c, args). cli_dispatch cli c args) (takeWhile (\<lambda>c. fst c \<noteq> ''exit'') cmds) greeted
      in (True, if ''exit'' \<in> fst ` set cmds then say ''Exiting...'' st' else st'))"
  by (simp add: cli_run_def cli_loop_session Let_def)

text \<open>
  When \<^verbatim>\<open>sync\<close> reports completion: exactly when the hash of the connected peers is the
  same in all three rounds and the last two rounds see a peer. The hash function never
  returns the initial value of the comparison.
\<close>

theorem sync_complete_iff_steady:
  assumes "\<And>x. sha256 x \<noteq> replicate 32 0"
  shows "fst (sync_loop ce sha256 settle targets sync_rounds_per_tick 0 (replicate 32 0) 0 st) \<longleftrightarrow>
    (let seeds = round_seeds ce settle targets (co_ctx st); h = \<lambda>k. compute_witness_hash sha256 (seeds k)
     in h 0 = h 1 \<and> h 1 = h 2 \<and> seeds 1 \<noteq> [] \<and> seeds 2 \<noteq> [])"
proof -
  have "compute_witness_hash sha256 (round_seeds ce settle targets (co_ctx st) 0) \<noteq> replicate 32 0"
    using assms by (simp add: compute_witness_hash_def del: replicate.simps)
  from steady_three [of "\<lambda>k. compute_witness_hash sha256 (round_seeds ce settle targets (co_ctx st) k)", OF this,
      of "\<lambda>k. round_seeds ce settle targets (co_ctx st) k \<noteq> []"] show ?thesis
    unfolding sync_rounds_per_tick_def Let_def
    using sync_loop_steady [of st ce settle targets "co_ctx st" 0 sha256 3 "replicate 32 0" 0] by simp
qed

definition demo_con :: "(nat, (string \<times> nat io_value option) list, nat) con_env" where
  "demo_con = \<lparr>cn_hs = demo_hs, cn_msg = demo_msg_env, cn_storage = demo_storage, cn_random = (\<lambda>_. demo_id ''B''),
     cn_nonce = (\<lambda>_. 5), cn_now = (\<lambda>_. 1), cn_timestamp = (\<lambda>_. 1), cn_clock = (\<lambda>_ _. 1),
     cn_dial = (\<lambda>_ _. Inl ''refused''), cn_entries_of = (\<lambda>_ _. []),
     cn_all_entries = (\<lambda>_. [SockV4 (Ipv4 127 0 0 1) 7, demo_peer_sock])\<rparr>"

definition demo_console :: "(nat, (string \<times> nat io_value option) list) console" where
  "demo_console = \<lparr>co_ctx = demo_gctx, co_stores = Some (io_storage_init demo_opt), co_files = [], co_counter = 1,
     co_step = 0, co_written = [], co_shown = []\<rparr>"

lemma demo_round: "round_ctx demo_con (\<lambda>_ g. g) [demo_peer_sock] g k = g"
proof (induction k)
  case (Suc k)
  have "is_connected demo_con g demo_peer_sock"
    by (simp add: is_connected_def demo_con_def filter_entries_def is_public_addr_def is_public_ip_def
        demo_peer_sock_def)
  then show ?case using Suc by (simp add: sync_round_def)
qed simp

text \<open>A peer that stays connected: the command completes.\<close>

lemma sync_complete_iff_steady_witness:
  "fst (sync_loop demo_con (\<lambda>x. 1 # x) (\<lambda>_ g. g) [demo_peer_sock] sync_rounds_per_tick 0 (replicate 32 0) 0 demo_console)"
proof -
  have ne: "1 # x \<noteq> replicate 32 (0 :: u8)" for x by (simp add: numeral_eq_Suc)
  have "get_connected_seeds demo_con g \<noteq> []" for g
    by (simp add: get_connected_seeds_def demo_con_def filter_entries_def is_public_addr_def is_public_ip_def
        demo_peer_sock_def)
  then show ?thesis
    using sync_complete_iff_steady [of "\<lambda>x. 1 # x" demo_con "\<lambda>_ g. g" "[demo_peer_sock]" demo_console, OF ne]
    unfolding round_seeds_def demo_round Let_def by blast
qed

end
