(* ===== verification/WebData.thy ===== *)
theory WebData
  imports Directory DataSync Chain SeedSync Console
begin

text \<open>
  The data behind the web interface: the helper functions at the start of
  \<^verbatim>\<open>src/web/api.rs\<close> (request bodies, query strings, seed lists, pages of
  transactions, connections grouped by node). JSON text and dates are rendered by
  libraries: a reply is a JSON value here and a date is rendered by a parameter. Shown:
  query values decode to what was encoded, the connections are grouped by distinct nodes
  other than the local one, the pages of transactions cover all of them.
\<close>

subsection \<open>JSON values and requests\<close>

datatype json =
    JNull
  | JBool bool
  | JInt int
  | JFloat string
  | JStr string
  | JArr "json list"
  | JObj "(string \<times> json) list"

definition json_get :: "string \<Rightarrow> json \<Rightarrow> json option" where
  "json_get key v = (case v of JObj m \<Rightarrow> map_of m key | _ \<Rightarrow> None)"

definition str_field :: "string \<Rightarrow> json \<Rightarrow> string" where
  "str_field key v = (case json_get key v of Some (JStr s) \<Rightarrow> s | _ \<Rightarrow> [])"

definition u64_field :: "string \<Rightarrow> json \<Rightarrow> u64" where
  "u64_field key v =
     (case json_get key v of
        Some (JInt i) \<Rightarrow> if 0 \<le> i \<and> i < 2 ^ 64 then word_of_int i else 0
      | _ \<Rightarrow> 0)"

text \<open>
  A request as the handlers see it: whether it is a POST, the path with its query, the
  content length header, and the bytes that arrive when there is a reader.
\<close>

record http_request =
  rq_post :: bool
  rq_path :: string
  rq_content_length :: "string option"
  rq_stream :: "bytes option"

text \<open>
  The body is read into a buffer of zeros that is never shorter than 4096 bytes; what does
  not arrive stays zero. The first component is the announced length.
\<close>

definition content_length :: "http_request \<Rightarrow> nat" where
  "content_length rq =
     (case rq_content_length rq of
        Some s \<Rightarrow> (case parse_u64 s of Some n \<Rightarrow> unat n | None \<Rightarrow> 0)
      | None \<Rightarrow> 0)"

definition read_http_body :: "http_request \<Rightarrow> nat \<times> bytes" where
  "read_http_body rq =
     (let cl = content_length rq;
          got = (case rq_stream rq of Some bs \<Rightarrow> take cl bs | None \<Rightarrow> [])
      in (cl, got @ replicate (max cl 4096 - length got) 0))"

definition body_text :: "http_request \<Rightarrow> bytes" where
  "body_text rq = (case read_http_body rq of (cl, body) \<Rightarrow> take cl body)"

subsection \<open>Query strings\<close>

definition split_once :: "char \<Rightarrow> string \<Rightarrow> string \<times> string option" where
  "split_once d s =
     (takeWhile (\<lambda>c. c \<noteq> d) s,
      case dropWhile (\<lambda>c. c \<noteq> d) s of [] \<Rightarrow> None | _ # r \<Rightarrow> Some r)"

fun find_param :: "string \<Rightarrow> string list \<Rightarrow> string option" where
  "find_param key [] = None"
| "find_param key (p # ps) =
     (case split_once (CHR ''='') p of (k, v) \<Rightarrow> if k = key then v else find_param key ps)"

definition get_query_param :: "string \<Rightarrow> string \<Rightarrow> string option" where
  "get_query_param path key =
     (case split_on (CHR ''?'') path of
        _ # query # _ \<Rightarrow> find_param key (split_on (CHR ''&'') query)
      | _ \<Rightarrow> None)"

definition hex_val :: "u8 \<Rightarrow> u8 option" where
  "hex_val b =
     (if 0x30 \<le> b \<and> b \<le> 0x39 then Some (b - 0x30)
      else if 0x61 \<le> b \<and> b \<le> 0x66 then Some (b - 0x61 + 10)
      else if 0x41 \<le> b \<and> b \<le> 0x46 then Some (b - 0x41 + 10)
      else None)"

text \<open>A percent sign consumes the two bytes after it, hexadecimal or not.\<close>

fun url_bytes :: "bytes \<Rightarrow> bytes" where
  "url_bytes [] = []"
| "url_bytes [b] = (if b = 0x25 then [] else if b = 0x2B then [0x20] else [b])"
| "url_bytes [b, h] =
     (if b = 0x25 then []
      else (if b = 0x2B then 0x20 else b) # url_bytes [h])"
| "url_bytes (b # h # l # bs) =
     (if b = 0x25 then
        (case (hex_val h, hex_val l) of
           (Some x, Some y) \<Rightarrow> (push_bit 4 x OR y) # url_bytes bs
         | _ \<Rightarrow> url_bytes bs)
      else (if b = 0x2B then 0x20 else b) # url_bytes (h # l # bs))"

definition url_decode_query :: "string \<Rightarrow> string" where
  "url_decode_query val =
     (case string_from_utf8 (url_bytes (as_bytes val)) of Some s \<Rightarrow> s | None \<Rightarrow> val)"

subsection \<open>Seeds\<close>

definition starts_with :: "string \<Rightarrow> string \<Rightarrow> bool" where
  "starts_with p s \<longleftrightarrow> take (length p) s = p"

definition is_valid_seed_ip :: "string \<Rightarrow> bool" where
  "is_valid_seed_ip ip \<longleftrightarrow>
     \<not> starts_with ''127.'' ip \<and> ip \<noteq> ''0.0.0.0'' \<and> ip \<noteq> ''::1'' \<and> ip \<noteq> ''::''"

definition seed_type_from_ip :: "string \<Rightarrow> string" where
  "seed_type_from_ip ip =
     (case parse_ip ip of
        Some (V6 _) \<Rightarrow> ''ipv6''
      | Some (V4 a) \<Rightarrow>
          if v4_is_private a \<or> is_loopback (V4 a) \<or> v4_is_link_local a then ''inner'' else ''external''
      | None \<Rightarrow> ''external'')"

text \<open>\<open>rate\<close> is the floating point quotient, by its bits.\<close>

definition seed_data_of :: "(int \<times> int \<Rightarrow> u64) \<Rightarrow> seed_row \<Rightarrow> seed_data" where
  "seed_data_of rate m =
     \<lparr>seed_data.sd_id = seed_row.sd_id m, sd_ip = seed_row.sd_ip m, sd_port = seed_row.sd_port m,
      sd_node_id = seed_row.sd_node_id m, sd_is_intranet = seed_row.sd_is_intranet m,
      sd_is_active = seed_row.sd_is_active m, sd_success_count = seed_row.sd_success_count m,
      sd_failure_count = seed_row.sd_failure_count m, sd_online_days = seed_row.sd_online_days m,
      sd_offline_days = seed_row.sd_offline_days m, sd_online_rate = rate (seed_row.sd_online_rate m)\<rparr>"

definition read_seeds_from_db ::
  "(int \<times> int \<Rightarrow> u64) \<Rightarrow> 't seed_table \<Rightarrow> 't \<Rightarrow> seed_data list" where
  "read_seeds_from_db rate tb t =
     (case fst (seed_get_active tb t) of Inr seeds \<Rightarrow> map (seed_data_of rate) seeds | Inl e \<Rightarrow> [])"

text \<open>The address and port of a received seed: cut at the last colon, if there is one.\<close>

definition seed_target :: "seed_data \<Rightarrow> string \<times> int" where
  "seed_target seed =
     (let ip = seed_data.sd_ip seed;
          tail = takeWhile (\<lambda>c. c \<noteq> CHR '':'') (rev ip)
      in if CHR '':'' \<in> set ip
         then (take (length ip - length tail - 1) ip,
               case parse_signed 32 (rev tail) of Some p \<Rightarrow> p | None \<Rightarrow> seed_data.sd_port seed)
         else (ip, seed_data.sd_port seed))"

definition write_seeds_to_db :: "'t seed_table \<Rightarrow> (nat \<Rightarrow> i64) \<Rightarrow> seed_data list \<Rightarrow> 't \<Rightarrow> 't" where
  "write_seeds_to_db tb now seeds t =
     fold (\<lambda>(k, seed) t.
         case seed_target seed of
           (ip, port) \<Rightarrow>
             snd (seed_upsert tb (now k) ip port (seed_data.sd_node_id seed) (seed_data.sd_is_intranet seed) t))
       (enumerate 0 seeds) (snd (seed_clear_all tb t))"

record web_seed =
  ws_address :: string
  ws_port :: u16
  ws_protocol :: string
  ws_is_active :: bool
  ws_last_seen :: string

definition load_seeds_from_db ::
  "(i64 \<Rightarrow> string option) \<Rightarrow> 't seed_table \<Rightarrow> 't \<Rightarrow> web_seed list" where
  "load_seeds_from_db date tb t =
     (case fst (seed_get_active tb t) of
        Inl e \<Rightarrow> []
      | Inr seeds \<Rightarrow>
          map (\<lambda>m. \<lparr>ws_address = seed_row.sd_ip m @ '':'' @ show_int (seed_row.sd_port m),
                    ws_port = word_of_int (seed_row.sd_port m),
                    ws_protocol = seed_type_from_ip (seed_row.sd_ip m), ws_is_active = seed_row.sd_is_active m,
                    ws_last_seen = (case date (seed_row.sd_last_seen m) of Some d \<Rightarrow> d | None \<Rightarrow> ''unknown'')\<rparr>)
            (filter (\<lambda>m. is_valid_seed_ip (seed_row.sd_ip m)) seeds))"

definition load_seeds_from_global_context :: "(bytes \<Rightarrow> bytes) \<Rightarrow> 'p global_ctx \<Rightarrow> web_seed list" where
  "load_seeds_from_global_context sha256 g =
     (case g_node g of
        None \<Rightarrow> []
      | Some n \<Rightarrow>
          map (\<lambda>s. \<lparr>ws_address = si_ip s @ '':'' @ show_nat (unat (si_port s)), ws_port = si_port s,
                    ws_protocol = seed_type_from_ip (si_ip s), ws_is_active = True, ws_last_seen = ''now''\<rparr>)
            (filter (\<lambda>s. is_valid_seed_ip (si_ip s)) (ss_seeds (derive_seed_set_from_registry sha256 (n_registry n)))))"

definition load_all_seeds ::
  "(i64 \<Rightarrow> string option) \<Rightarrow> (bytes \<Rightarrow> bytes) \<Rightarrow> 't seed_table \<Rightarrow> 't \<Rightarrow> 'p global_ctx \<Rightarrow> web_seed list" where
  "load_all_seeds date sha256 tb t g =
     (let seeds = load_seeds_from_db date tb t
      in seeds @ dedup_by ws_address (ws_address ` set seeds) (load_seeds_from_global_context sha256 g))"

subsection \<open>Transactions\<close>

record transaction_info =
  ti_id :: int
  ti_tx_type :: string
  ti_from_address :: string
  ti_to_address :: string
  ti_amount :: string
  ti_timestamp :: string
  ti_hash :: string
  ti_pre_hash :: string

record transaction_page =
  tp_transactions :: "transaction_info list"
  tp_current_page :: u64
  tp_total_pages :: u64
  tp_total_count :: u64

fun tx_type_debug :: "tx_type \<Rightarrow> string" where
  "tx_type_debug Transfer = ''Transfer''"
| "tx_type_debug Mint = ''Mint''"
| "tx_type_debug Burn = ''Burn''"

text \<open>Cents as text; both quotient and remainder round towards zero.\<close>

definition amount_text :: "i64 \<Rightarrow> string" where
  "amount_text a =
     show_int (sgn a * (\<bar>a\<bar> div 100)) @ ''.'' @
     (let c = nat (\<bar>a\<bar> mod 100) in (if c < 10 then ''0'' else []) @ show_nat c)"

definition transaction_info_of :: "(i64 \<Rightarrow> string option) \<Rightarrow> tx_row \<Rightarrow> transaction_info" where
  "transaction_info_of date tx =
     \<lparr>ti_id = tx_id tx, ti_tx_type = tx_type_debug (tx_kind tx), ti_from_address = tx_from_address tx,
      ti_to_address = tx_to_address tx,
      ti_amount = amount_text (case parse_signed 64 (tx_amount tx) of Some a \<Rightarrow> a | None \<Rightarrow> 0),
      ti_timestamp = (case date (tx_timestamp tx) of Some d \<Rightarrow> d | None \<Rightarrow> []),
      ti_hash = tx_hash tx, ti_pre_hash = tx_pre_hash tx\<rparr>"

definition load_transactions ::
  "(i64 \<Rightarrow> string option) \<Rightarrow> 't txs \<Rightarrow> u64 \<Rightarrow> u64 \<Rightarrow> 't \<Rightarrow> transaction_page" where
  "load_transactions date tb page per_page t =
     (let total_count = (case fst (tx_count_all tb t) of Inr n \<Rightarrow> n | Inl e \<Rightarrow> 0);
          total_pages = (if total_count = 0 then 1 else (total_count + per_page - 1) div per_page);
          transactions = (case fst (tx_get_page tb page per_page t) of
                            Inr rows \<Rightarrow> map (transaction_info_of date) rows | Inl e \<Rightarrow> [])
      in \<lparr>tp_transactions = transactions, tp_current_page = page, tp_total_pages = max total_pages 1,
          tp_total_count = total_count\<rparr>)"

subsection \<open>Connections by node\<close>

record connection_group =
  cg_node_id :: string
  cg_addrs :: string
  cg_passed :: string

record connections_by_direction =
  cd_inbound :: "connection_group list"
  cd_outbound :: "connection_group list"

definition seeds_by_socket :: "node_entry list \<Rightarrow> (socket_addr, string) hmap" where
  "seeds_by_socket entries =
     fold (\<lambda>e m. fold (\<lambda>s. AList.update s (ne_address e)) (hkeys (ne_seeds e)) m) entries []"

definition nodes_by_ip :: "node_entry list \<Rightarrow> (ip_addr, string list) hmap" where
  "nodes_by_ip entries =
     fold (\<lambda>e m. fold (\<lambda>s. AList.map_default (sock_ip s) [ne_address e] (\<lambda>xs. xs @ [ne_address e]))
                    (hkeys (ne_seeds e)) m) entries []"

definition outbound_by_ip ::
  "(socket_addr, string) hmap \<Rightarrow> peer_info list \<Rightarrow> (ip_addr, string list) hmap" where
  "outbound_by_ip by_seed ps =
     fold (\<lambda>p m.
         case parse_sock (pi_addr p) of
           None \<Rightarrow> m
         | Some a \<Rightarrow>
             (case (case pi_node_id p of Some n \<Rightarrow> Some n | None \<Rightarrow> map_of by_seed a) of
                Some nid \<Rightarrow> AList.map_default (sock_ip a) [nid] (\<lambda>xs. xs @ [nid]) m
              | None \<Rightarrow> m)) ps []"

definition resolve_nid ::
  "(socket_addr, string) hmap \<Rightarrow> (ip_addr, string list) hmap \<Rightarrow> (ip_addr, string list) hmap \<Rightarrow> string set \<Rightarrow>
   peer_info \<Rightarrow> string option" where
  "resolve_nid by_seed by_ip outs seen p =
     (case pi_node_id p of
        Some nid \<Rightarrow> Some nid
      | None \<Rightarrow>
          (case parse_sock (pi_addr p) of
             None \<Rightarrow> None
           | Some a \<Rightarrow>
               (case map_of by_seed a of
                  Some nid \<Rightarrow> Some nid
                | None \<Rightarrow>
                    (case map_of by_ip (sock_ip a) of
                       None \<Rightarrow> None
                     | Some candidates \<Rightarrow>
                         if length candidates = 1 then Some (hd candidates)
                         else
                           (case map_of outs (sock_ip a) of
                              None \<Rightarrow> None
                            | Some nids \<Rightarrow>
                                (let unseen = filter (\<lambda>n. n \<notin> seen) nids
                                 in if length unseen = 1 then Some (hd unseen) else None))))))"

definition connection_group_of :: "string \<Rightarrow> peer_info \<Rightarrow> connection_group" where
  "connection_group_of nid p =
     \<lparr>cg_node_id = nid, cg_addrs = pi_addr p,
      cg_passed = join_with '', ''
        (map (\<lambda>ip. ip @ '' (wan)'') (pi_wan_ips p) @ map (\<lambda>ip. ip @ '' (intranet)'') (pi_intranet_ips p))\<rparr>"

fun group_peers ::
  "(string set \<Rightarrow> peer_info \<Rightarrow> string option) \<Rightarrow> string \<Rightarrow> string set \<Rightarrow> peer_info list \<Rightarrow> connection_group list" where
  "group_peers resolve self seen [] = []"
| "group_peers resolve self seen (p # ps) =
     (case resolve seen p of
        None \<Rightarrow> group_peers resolve self seen ps
      | Some nid \<Rightarrow>
          if nid = self then group_peers resolve self seen ps
          else if nid \<in> seen then group_peers resolve self seen ps
          else connection_group_of nid p # group_peers resolve self (insert nid seen) ps)"

definition group_connections_by_direction ::
  "connection_info \<Rightarrow> node_registry \<Rightarrow> string \<Rightarrow> connections_by_direction" where
  "group_connections_by_direction raw reg local_node_id =
     (let entries = nr_get_nodes reg;
          by_seed = seeds_by_socket entries;
          by_ip = nodes_by_ip entries;
          outs = outbound_by_ip by_seed (ci_outbound raw);
          grp = group_peers (resolve_nid by_seed by_ip outs) local_node_id {}
      in \<lparr>cd_inbound = grp (ci_inbound raw), cd_outbound = grp (ci_outbound raw)\<rparr>)"

subsection \<open>Percent encoding\<close>

text \<open>The encoding a client uses: unreserved characters stay, other bytes become two hexadecimal digits.\<close>

definition hex_digit :: "u8 \<Rightarrow> u8" where
  "hex_digit n = (if n < 10 then 0x30 + n else 0x41 + (n - 10))"

definition unreserved :: "u8 \<Rightarrow> bool" where
  "unreserved b \<longleftrightarrow>
     0x30 \<le> b \<and> b \<le> 0x39 \<or> 0x41 \<le> b \<and> b \<le> 0x5A \<or> 0x61 \<le> b \<and> b \<le> 0x7A \<or>
     b = 0x2D \<or> b = 0x2E \<or> b = 0x5F \<or> b = 0x7E"

definition enc_byte :: "u8 \<Rightarrow> bytes" where
  "enc_byte b = (if unreserved b then [b] else [0x25, hex_digit (drop_bit 4 b), hex_digit (take_bit 4 b)])"

definition url_encode :: "string \<Rightarrow> string" where
  "url_encode s = of_bytes (concat (map enc_byte (as_bytes s)))"

lemma hex_val_digit: "n < 16 \<Longrightarrow> hex_val (hex_digit n) = Some n"
proof -
  assume "n < 16"
  then have "unat n \<in> set [0..<16]" by (simp add: word_less_nat_alt)
  moreover have "\<forall>k \<in> set [0..<16]. hex_val (hex_digit (word_of_nat k)) = Some (word_of_nat k)" by code_simp
  ultimately have "hex_val (hex_digit (word_of_nat (unat n))) = Some (word_of_nat (unat n))" by blast
  then show ?thesis by simp
qed

lemma nibbles: "drop_bit 4 b < (16 :: u8)" "take_bit 4 b < (16 :: u8)" "push_bit 4 (drop_bit 4 b) OR take_bit 4 b = b"
  for b :: u8
proof -
  have "unat b < 256" using unsigned_less [of b] by simp
  then show "drop_bit 4 b < 16" by (simp add: word_less_nat_alt drop_bit_eq_div unat_div)
  show "take_bit 4 b < 16" by (simp add: word_less_nat_alt take_bit_eq_mod unat_mod)
  show "push_bit 4 (drop_bit 4 b) OR take_bit 4 b = b" by (rule bit_eqI) (auto simp: bit_simps)
qed

lemma url_bytes_plain: "b \<noteq> 0x25 \<Longrightarrow> b \<noteq> 0x2B \<Longrightarrow> url_bytes (b # bs) = b # url_bytes bs"
  by (cases bs; cases "tl bs") simp_all

lemma url_bytes_enc: "url_bytes (concat (map enc_byte bs)) = bs"
proof (induction bs)
  case (Cons b bs)
  show ?case
  proof (cases "unreserved b")
    case True
    then have "b \<noteq> 0x25" "b \<noteq> 0x2B" by (auto simp: unreserved_def)
    then show ?thesis using True Cons by (simp add: enc_byte_def url_bytes_plain)
  next
    case False
    then show ?thesis using Cons by (simp add: enc_byte_def hex_val_digit nibbles)
  qed
qed simp

lemma as_bytes_of_bytes: "as_bytes (of_bytes bs) = bs"
proof -
  have "unat b mod 256 = unat b" for b :: u8
    using unsigned_less [of b, where 'a = nat] by simp
  then have "(word_of_nat (of_char (char_of (unat b) :: char)) :: u8) = b" for b :: u8 by simp
  then show ?thesis by (simp add: as_bytes_def of_bytes_def comp_def)
qed

subsection \<open>Groups of connections\<close>

lemma group_peers_ids:
  "distinct (map cg_node_id (group_peers r self seen ps)) \<and>
   cg_node_id ` set (group_peers r self seen ps) \<inter> insert self seen = {}"
  by (induction ps arbitrary: seen) (auto simp: connection_group_of_def split: option.split)

lemma group_peers_known:
  "p \<in> set ps \<Longrightarrow> (\<And>seen. r seen p = Some n) \<Longrightarrow> n \<noteq> self \<Longrightarrow>
   n \<in> seen \<union> cg_node_id ` set (group_peers r self seen ps)"
proof (induction ps arbitrary: seen)
  case (Cons q ps)
  show ?case
  proof (cases "p = q")
    case True
    then show ?thesis using Cons.prems by (auto simp: connection_group_of_def)
  next
    case False
    then have "p \<in> set ps" using Cons.prems(1) by simp
    note IH = Cons.IH [OF this Cons.prems(2,3)]
    show ?thesis
      using IH [of seen] IH [of "insert (the (r seen q)) seen"]
      by (auto simp: connection_group_of_def split: option.split)
  qed
qed simp

subsection \<open>Pages\<close>

lemma concat_pages: "concat (map (\<lambda>k. take m (drop (k * m) xs)) [0..<n]) = take (n * m) xs"
proof (induction n)
  case (Suc n)
  have "take (Suc n * m) xs = take (n * m) xs @ take m (drop (n * m) xs)"
    by (metis add.commute mult_Suc take_add)
  then show ?case using Suc by simp
qed simp

lemma page_rows:
  assumes "tb_up tb t" "tb_rows tb t = rows" "k * unat m < 2 ^ 64" "k < 2 ^ 64 - 1"
  shows "tp_transactions (load_transactions date tb (word_of_nat (Suc k)) m t) =
    map (transaction_info_of date) (take (unat m) (drop (k * unat m) (sort_key (\<lambda>r. - tx_id r) rows)))"
proof -
  have "(word_of_nat (Suc k) :: u64) \<noteq> 0"
    using assms(4) by (simp add: word_of_nat_eq_0_iff nat_dvd_not_less del: of_nat_Suc)
  moreover have "unat ((word_of_nat k :: u64) * m) = k * unat m"
    using assms(3,4) by (simp add: unat_word_ariths unat_of_nat)
  ultimately show ?thesis
    using assms(1,2) by (simp add: load_transactions_def tx_get_page_def Let_def db_bind_apply db_simps)
qed

lemma pages_count:
  fixes m :: u64
  assumes "tb_up tb t" "0 < m" "length (tb_rows tb t) + unat m < 2 ^ 64"
  shows "unat (tp_total_pages (load_transactions date tb p m t)) =
    (if tb_rows tb t = [] then 1 else (length (tb_rows tb t) + unat m - 1) div unat m)"
proof -
  let ?n = "length (tb_rows tb t)" and ?w = "word_of_nat (length (tb_rows tb t)) :: u64"
  have m: "0 < unat m" using assms(2) by (simp add: unat_gt_0)
  have n: "unat ?w = ?n" using assms(3) by (simp add: unat_of_nat)
  have up: "fst (tx_count_all tb t) = Inr ?w" using assms(1) by (simp add: tx_count_all_def db_bind_apply db_simps)
  show ?thesis
  proof (cases "tb_rows tb t = []")
    case False
    then have n0: "0 < ?n" by simp
    have "?w \<noteq> 0" using n n0 by (metis unat_0 less_irrefl)
    have "unat (?w + m) = ?n + unat m" using n assms(3) by (simp add: unat_word_ariths)
    then have "unat (?w + m - 1) = ?n + unat m - 1" using m by (simp add: unat_sub_if')
    then have q: "unat ((?w + m - 1) div m) = (?n + unat m - 1) div unat m" by (simp add: unat_div)
    moreover have "1 \<le> (?n + unat m - 1) div unat m"
    proof -
      have "unat m \<le> ?n + unat m - 1" using n0 by linarith
      from div_le_mono [OF this, of "unat m"] show ?thesis using m by simp
    qed
    ultimately show ?thesis
      using False \<open>?w \<noteq> 0\<close> by (simp add: load_transactions_def up Let_def max_def word_le_nat_alt)
  qed (simp add: load_transactions_def up Let_def)
qed

subsection \<open>Properties\<close>

text \<open>
  C37. Query values decode to what was encoded: a text sent percent-encoded in a query arrives
  unchanged, whatever characters it has.
\<close>

theorem url_decode_encode:
  assumes "utf8_valid (as_bytes s)"
  shows "url_decode_query (url_encode s) = s"
  using assms
  by (simp add: url_decode_query_def url_encode_def as_bytes_of_bytes url_bytes_enc string_from_utf8_def)

lemma url_decode_encode_witness: "url_decode_query (url_encode ''a b&c=%'') = ''a b&c=%''"
  by (rule url_decode_encode) (simp add: utf8_valid_def as_bytes_def)

text \<open>
  Connections are grouped by node: in each direction every group is for another node and
  none for the local one, and every connection that names a remote node is in the group of
  its node.
\<close>

theorem connections_grouped:
  "let d = group_connections_by_direction raw reg self
   in distinct (map cg_node_id (cd_inbound d)) \<and> distinct (map cg_node_id (cd_outbound d)) \<and>
      self \<notin> cg_node_id ` set (cd_inbound d @ cd_outbound d) \<and>
      {n. \<exists>p \<in> set (ci_inbound raw). pi_node_id p = Some n} - {self} \<subseteq> cg_node_id ` set (cd_inbound d) \<and>
      {n. \<exists>p \<in> set (ci_outbound raw). pi_node_id p = Some n} - {self} \<subseteq> cg_node_id ` set (cd_outbound d)"
proof -
  let ?bs = "seeds_by_socket (nr_get_nodes reg)"
  let ?r = "resolve_nid ?bs (nodes_by_ip (nr_get_nodes reg)) (outbound_by_ip ?bs (ci_outbound raw))"
  have known: "?r seen p = Some n" if "pi_node_id p = Some n" for seen p n
    using that by (simp add: resolve_nid_def)
  have "{n. \<exists>p \<in> set ps. pi_node_id p = Some n} - {self} \<subseteq> cg_node_id ` set (group_peers ?r self {} ps)" for ps
    using group_peers_known [where r = ?r and self = self and seen = "{}", OF _ known] by fastforce
  moreover have "distinct (map cg_node_id (group_peers ?r self {} ps))" "self \<notin> cg_node_id ` set (group_peers ?r self {} ps)"
    for ps using group_peers_ids [of ?r self "{}" ps] by auto
  ultimately show ?thesis by (simp add: group_connections_by_direction_def Let_def image_Un)
qed

text \<open>
  C38. The pages cover the ledger: the transactions of all pages, one after the other, are all
  transactions, newest first, each exactly once. The page size is positive and the numbers
  stay within 64 bits.
\<close>

theorem pages_cover_ledger:
  assumes "tb_up tb t" "0 < m" "length (tb_rows tb t) + unat m < 2 ^ 64"
  shows "concat (map (\<lambda>k. tp_transactions (load_transactions date tb (word_of_nat k) m t))
      [1..<Suc (unat (tp_total_pages (load_transactions date tb 1 m t)))]) =
    map (transaction_info_of date) (sort_key (\<lambda>r. - tx_id r) (tb_rows tb t))"
proof -
  let ?n = "length (tb_rows tb t)" and ?xs = "sort_key (\<lambda>r. - tx_id r) (tb_rows tb t)"
  define pages where "pages = unat (tp_total_pages (load_transactions date tb 1 m t))"
  have m: "0 < unat m" using assms(2) by (simp add: unat_gt_0)
  have pages: "pages = (if ?n = 0 then 1 else (?n + unat m - 1) div unat m)"
    using pages_count [OF assms, of date 1] by (simp add: pages_def)
  have "(?n + unat m - 1) div unat m * unat m < ?n + unat m"
    using m by (intro le_less_trans [OF div_times_less_eq_dividend]) simp
  then have upper: "pages * unat m < ?n + unat m + (if ?n = 0 then 1 else 0)" by (simp add: pages)
  have lower: "?n \<le> pages * unat m"
    using dividend_less_div_times [OF m, of "?n + unat m - 1"] m by (auto simp: pages)
  have k: "k * unat m < 2 ^ 64 \<and> k < 2 ^ 64 - 1" if "k < pages" for k
  proof -
    have "Suc k * unat m \<le> pages * unat m" using that by (intro mult_right_mono) auto
    then have "unat m + k * unat m \<le> pages * unat m" by simp
    moreover have "pages * unat m < ?n + unat m + 1" using upper by (simp split: if_splits)
    ultimately have "k * unat m \<le> ?n" by linarith
    moreover have "k \<le> k * unat m" using m by simp
    ultimately show ?thesis using assms(3) m by linarith
  qed
  have "concat (map (\<lambda>k. tp_transactions (load_transactions date tb (word_of_nat k) m t)) [1..<Suc pages]) =
    concat (map (\<lambda>k. tp_transactions (load_transactions date tb (word_of_nat (Suc k)) m t)) [0..<pages])"
    by (simp add: map_Suc_upt [symmetric] comp_def del: upt_Suc)
  also have "\<dots> = concat (map (\<lambda>k. map (transaction_info_of date) (take (unat m) (drop (k * unat m) ?xs))) [0..<pages])"
    using page_rows [OF assms(1) refl] k by (intro arg_cong [where f = concat] map_cong) auto
  also have "\<dots> = map (transaction_info_of date) (take (pages * unat m) ?xs)"
    by (simp add: concat_pages [symmetric] map_concat comp_def)
  finally show ?thesis using lower by (simp add: pages_def)
qed

definition demo_page_tx :: "int \<Rightarrow> tx_row" where
  "demo_page_tx i = \<lparr>tx_id = i, tx_epoch = 0, tx_cycle = 0, tx_kind = Mint, tx_from_address = ''a'', tx_to_address = ''b'',
     tx_amount = ''5'', tx_timestamp = 0, tx_pre_hash = [], tx_hash = [], tx_shard_key = []\<rparr>"

text \<open>Three transactions on pages of two.\<close>

lemma pages_cover_ledger_witness:
  "map ti_id (concat (map (\<lambda>k. tp_transactions (load_transactions (\<lambda>_. None) demo_txs (word_of_nat k) 2
     [demo_page_tx 1, demo_page_tx 2, demo_page_tx 3]))
     [1..<Suc (unat (tp_total_pages (load_transactions (\<lambda>_. None) demo_txs 1 2 [demo_page_tx 1, demo_page_tx 2, demo_page_tx 3])))])) =
   [3, 2, 1]"
proof -
  have "tb_up demo_txs [demo_page_tx 1, demo_page_tx 2, demo_page_tx 3]" "(0 :: u64) < 2"
    "length (tb_rows demo_txs [demo_page_tx 1, demo_page_tx 2, demo_page_tx 3]) + unat (2 :: u64) < 2 ^ 64"
    by (simp_all add: demo_txs_def list_table_def)
  from pages_cover_ledger [OF this, of "\<lambda>_. None"] show ?thesis
    by (simp add: demo_txs_def list_table_def transaction_info_of_def demo_page_tx_def del: upt_Suc)
qed

end
