(* ===== verification/WebChat.thy ===== *)
theory WebChat
  imports WebData UserStore Inbox Balance
begin

text \<open>
  The handlers of \<^verbatim>\<open>src/web/api.rs\<close> behind the wallet and chat pages, and the routing
  of \<^verbatim>\<open>src/web/mod.rs\<close>. A handler transforms the state it shares with the node (the
  context, the per-address files, the tables, the pending receipts, the events pushed to
  the browser) and answers with a JSON value; no answer is a panic of the handler. Shown:
  what sending a chat message does in every case.
\<close>

subsection \<open>State\<close>

record ('p, 'f, 'c, 'b, 'x) web =
  wb_ctx :: "'p global_ctx"
  wb_users :: "'f user_store"
  wb_contacts :: 'c
  wb_balances :: 'b
  wb_txs :: 'x
  wb_pending :: "u64 set option"
  wb_counter :: u64
  wb_events :: "json list option"
  wb_written :: "(socket_addr \<times> bytes) list"

record ('p, 'f, 'c, 'b, 'x) web_env =
  we_users :: "'f user_env"
  we_contacts :: "'c contacts"
  we_balances :: "'b balances"
  we_txs :: "'x txs"
  we_msg :: "'p msg_env"
  we_json :: "bytes \<Rightarrow> json option"
  we_profile :: "user_profile \<Rightarrow> json"
  we_base64 :: "bytes \<Rightarrow> string"
  we_error :: "store_error \<Rightarrow> string"
  we_node_name :: "bytes \<Rightarrow> string"
  we_find_entry :: "socket_addr \<Rightarrow> connections \<Rightarrow> conn_entry option"
  we_info :: "connections \<Rightarrow> connection_info"
  we_from_ip :: "ip_addr \<Rightarrow> network_scope"

text \<open>Running a store operation on its part of the state.\<close>

definition on_users :: "('f user_store, 'a) db_op \<Rightarrow> (('p, 'f, 'c, 'b, 'x) web, 'a) db_op" where
  "on_users m w = (case m (wb_users w) of (r, u) \<Rightarrow> (r, w\<lparr>wb_users := u\<rparr>))"

definition on_contacts :: "('c, 'a) db_op \<Rightarrow> (('p, 'f, 'c, 'b, 'x) web, 'a) db_op" where
  "on_contacts m w = (case m (wb_contacts w) of (r, t) \<Rightarrow> (r, w\<lparr>wb_contacts := t\<rparr>))"

definition or_else :: "'a \<Rightarrow> store_error + 'a \<Rightarrow> 'a" where
  "or_else d r = (case r of Inr a \<Rightarrow> a | Inl e \<Rightarrow> d)"

definition success :: "(string \<times> json) list \<Rightarrow> json" where
  "success xs = JObj ((''success'', JBool True) # xs)"

definition failure :: "string \<Rightarrow> json" where
  "failure e = JObj [(''success'', JBool False), (''error'', JStr e)]"

definition missing :: "string \<Rightarrow> string \<Rightarrow> string" where
  "missing a b =
     ''Missing '' @ [CHR 0x27] @ a @ [CHR 0x27] @ '' or '' @ [CHR 0x27] @ b @ [CHR 0x27]"

definition request_json :: "('p, 'f, 'c, 'b, 'x) web_env \<Rightarrow> http_request \<Rightarrow> json" where
  "request_json we rq = (case we_json we (body_text rq) of Some v \<Rightarrow> v | None \<Rightarrow> JNull)"

definition query_text :: "string \<Rightarrow> string \<Rightarrow> string" where
  "query_text path key = url_decode_query (case get_query_param path key of Some s \<Rightarrow> s | None \<Rightarrow> [])"

subsection \<open>Transfers and addresses\<close>

text \<open>\<open>transfer\<close> is the callback of the application, on the whole state.\<close>

definition handle_transfer ::
  "('p, 'f, 'c, 'b, 'x) web_env \<Rightarrow>
   (string \<Rightarrow> string \<Rightarrow> string \<Rightarrow> ('p, 'f, 'c, 'b, 'x) web \<Rightarrow> (string + string) \<times> ('p, 'f, 'c, 'b, 'x) web) \<Rightarrow>
   string \<Rightarrow> http_request \<Rightarrow> ('p, 'f, 'c, 'b, 'x) web \<Rightarrow> json \<times> ('p, 'f, 'c, 'b, 'x) web" where
  "handle_transfer we transfer addr rq w =
     (let v = request_json we rq;
          to = str_field ''to'' v;
          amount = u64_field ''amount'' v
      in case (if to = [] \<or> amount = 0
               then (Inl (missing ''to'' ''amount''), w)
               else transfer addr to (show_nat (unat amount)) w) of
           (Inr h, w') \<Rightarrow> (success [(''tx_hash'', JStr h)], w')
         | (Inl e, w') \<Rightarrow> (failure e, w'))"

definition tx_json :: "tx_row \<Rightarrow> json" where
  "tx_json tx =
     JObj [(''id'', JInt (tx_id tx)), (''tx_type'', JStr (tx_type_value (tx_kind tx))),
           (''from_address'', JStr (tx_from_address tx)), (''to_address'', JStr (tx_to_address tx)),
           (''amount'', JStr (tx_amount tx)), (''timestamp'', JInt (tx_timestamp tx)),
           (''hash'', JStr (tx_hash tx)), (''pre_hash'', JStr (tx_pre_hash tx))]"

definition handle_address_api ::
  "('p, 'f, 'c, 'b, 'x) web_env \<Rightarrow> http_request \<Rightarrow> ('p, 'f, 'c, 'b, 'x) web \<Rightarrow> json \<times> ('p, 'f, 'c, 'b, 'x) web" where
  "handle_address_api we rq w =
     (let a = query_text (rq_path rq) ''address'';
          balance = or_else 0 (fst (balance_get (we_balances we) a (wb_balances w)));
          all_txs = or_else [] (fst (tx_get_all (we_txs we) (wb_txs w)));
          txs = take 50 (filter (\<lambda>tx. tx_from_address tx = a \<or> tx_to_address tx = a) all_txs)
      in (JObj [(''address'', JStr a), (''balance'', JInt (uint balance)),
                (''transactions'', JArr (map tx_json txs))], w))"

subsection \<open>Contacts\<close>

definition opt_str :: "string option \<Rightarrow> json" where
  "opt_str s = (case s of Some x \<Rightarrow> JStr x | None \<Rightarrow> JNull)"

definition profile_or_default ::
  "('p, 'f, 'c, 'b, 'x) web_env \<Rightarrow> i64 \<Rightarrow> string \<Rightarrow> ('p, 'f, 'c, 'b, 'x) web \<Rightarrow>
   user_profile \<times> ('p, 'f, 'c, 'b, 'x) web" where
  "profile_or_default we now a w =
     (case on_users (load_profile (we_users we) now a) w of (r, w') \<Rightarrow> (or_else (default_profile now) r, w'))"

definition known_contact ::
  "('p, 'f, 'c, 'b, 'x) web_env \<Rightarrow> i64 \<Rightarrow> string \<Rightarrow> (string \<times> u64) list \<Rightarrow> contact_row \<Rightarrow>
   (string, json) hmap \<times> ('p, 'f, 'c, 'b, 'x) web \<Rightarrow> (string, json) hmap \<times> ('p, 'f, 'c, 'b, 'x) web" where
  "known_contact we now self unread c st =
     (case st of (m, w) \<Rightarrow>
        if ct_address c = self then (m, w)
        else
          (case profile_or_default we now (ct_address c) w of
             (p, w') \<Rightarrow>
               (AList.update (ct_address c)
                  (JObj [(''id'', JInt (ct_id c)), (''name'', JStr (ct_name c)), (''address'', JStr (ct_address c)),
                         (''created_at'', JInt (ct_created_at c)),
                         (''unread_count'',
                          JInt (uint (case map_of (rev unread) (ct_address c) of Some n \<Rightarrow> n | None \<Rightarrow> 0))),
                         (''nickname'', JStr (up_nickname p)), (''avatar_path'', opt_str (up_avatar_path p))]) m,
                w')))"

definition registry_contact ::
  "('p, 'f, 'c, 'b, 'x) web_env \<Rightarrow> i64 \<Rightarrow> string \<Rightarrow> node_entry \<Rightarrow>
   (string, json) hmap \<times> ('p, 'f, 'c, 'b, 'x) web \<Rightarrow> (string, json) hmap \<times> ('p, 'f, 'c, 'b, 'x) web" where
  "registry_contact we now self e st =
     (case st of (m, w) \<Rightarrow>
        if ne_address e = self \<or> ne_address e \<in> set (hkeys m) then (m, w)
        else
          (case profile_or_default we now (ne_address e) w of
             (p, w') \<Rightarrow>
               (AList.update (ne_address e)
                  (JObj [(''id'', JNull), (''name'', JStr (last (split_on (CHR '':'') (ne_address e)))),
                         (''address'', JStr (ne_address e)), (''created_at'', JNull), (''unread_count'', JInt 0),
                         (''from_registry'', JBool True), (''nickname'', JStr (up_nickname p)),
                         (''avatar_path'', opt_str (up_avatar_path p))]) m, w')))"

definition handle_list_contacts ::
  "('p, 'f, 'c, 'b, 'x) web_env \<Rightarrow> i64 \<Rightarrow> u64 \<Rightarrow> string \<Rightarrow> ('p, 'f, 'c, 'b, 'x) web \<Rightarrow>
   json \<times> ('p, 'f, 'c, 'b, 'x) web" where
  "handle_list_contacts we now seen self w =
     (let contacts = or_else [] (fst (contact_get_all (we_contacts we) (wb_contacts w)));
          unread = or_else [] (fst (us_get_all_contacts_with_unread (we_users we) (wb_users w)));
          (m, w1) = fold (known_contact we now self unread) contacts ([], w);
          (m', w2) =
            (case g_node (wb_ctx w1) of
               None \<Rightarrow> (m, w1)
             | Some _ \<Rightarrow>
                 (let g = on_registry (nr_sync_from_connection_info (we_from_ip we) seen
                            (we_info we (g_connections (wb_ctx w1)))) (wb_ctx w1)
                  in fold (registry_contact we now self)
                       (case g_registry g of Some reg \<Rightarrow> nr_get_nodes reg | None \<Rightarrow> [])
                       (m, w1\<lparr>wb_ctx := g\<rparr>)))
      in (success [(''contacts'', JArr (map snd (sort_key fst m')))], w2))"

definition handle_add_contact ::
  "('p, 'f, 'c, 'b, 'x) web_env \<Rightarrow> i64 \<Rightarrow> http_request \<Rightarrow> ('p, 'f, 'c, 'b, 'x) web \<Rightarrow>
   json \<times> ('p, 'f, 'c, 'b, 'x) web" where
  "handle_add_contact we now rq w =
     (let v = request_json we rq;
          name = str_field ''name'' v;
          address = str_field ''address'' v
      in if name = [] \<or> address = []
         then (failure (missing ''name'' ''address''), w)
         else
           (case on_contacts (contact_add (we_contacts we) now name address) w of
              (Inr c, w') \<Rightarrow>
                (success [(''contact'', JObj [(''id'', JInt (ct_id c)), (''name'', JStr (ct_name c)),
                                              (''address'', JStr (ct_address c))])], w')
            | (Inl e, w') \<Rightarrow> (failure (we_error we e), w')))"

definition handle_delete_contact ::
  "('p, 'f, 'c, 'b, 'x) web_env \<Rightarrow> http_request \<Rightarrow> ('p, 'f, 'c, 'b, 'x) web \<Rightarrow> json \<times> ('p, 'f, 'c, 'b, 'x) web" where
  "handle_delete_contact we rq w =
     (case on_contacts (contact_delete (we_contacts we) (query_text (rq_path rq) ''address'')) w of
        (Inr _, w') \<Rightarrow> (success [], w')
      | (Inl e, w') \<Rightarrow> (failure (we_error we e), w'))"

subsection \<open>Chat histories and profiles\<close>

definition chat_json :: "chat_message \<Rightarrow> json" where
  "chat_json m =
     JObj [(''id'', JInt (uint (ch_id m))), (''contact_address'', JStr (ch_contact_address m)),
           (''content'', JStr (ch_content m)), (''is_sent'', JBool (ch_is_sent m)),
           (''status'', JStr (ch_status m)), (''timestamp'', JInt (ch_timestamp m))]"

definition handle_get_chat_messages ::
  "('p, 'f, 'c, 'b, 'x) web_env \<Rightarrow> http_request \<Rightarrow> ('p, 'f, 'c, 'b, 'x) web \<Rightarrow> json \<times> ('p, 'f, 'c, 'b, 'x) web" where
  "handle_get_chat_messages we rq w =
     (let a = query_text (rq_path rq) ''contact'';
          messages = or_else [] (fst (get_messages (we_users we) a (wb_users w)))
      in (success [(''messages'', JArr (map chat_json messages))],
          snd (on_users (us_mark_as_read (we_users we) a) w)))"

definition conversation_json :: "conversation \<Rightarrow> json" where
  "conversation_json c =
     JObj [(''contact_address'', JStr (cv_contact_address c)), (''last_content'', JStr (cv_last_content c)),
           (''last_timestamp'', JInt (cv_last_timestamp c)), (''last_is_sent'', JBool (cv_last_is_sent c)),
           (''unread_count'', JInt (uint (cv_unread_count c)))]"

definition handle_get_conversations ::
  "('p, 'f, 'c, 'b, 'x) web_env \<Rightarrow> ('p, 'f, 'c, 'b, 'x) web \<Rightarrow> json \<times> ('p, 'f, 'c, 'b, 'x) web" where
  "handle_get_conversations we w =
     (success [(''conversations'',
        JArr (map conversation_json (or_else [] (fst (us_get_conversations (we_users we) (wb_users w))))))], w)"

definition embed_avatar ::
  "('p, 'f, 'c, 'b, 'x) web_env \<Rightarrow> string \<Rightarrow> ('p, 'f, 'c, 'b, 'x) web \<Rightarrow> user_profile \<Rightarrow> user_profile" where
  "embed_avatar we a w p =
     (case up_avatar_path p of
        None \<Rightarrow> p
      | Some path \<Rightarrow>
          (case fst (read_file (we_users we) a path (wb_users w)) of
             Inr (Some data) \<Rightarrow> p\<lparr>up_avatar_path := Some (''data:image/jpeg;base64,'' @ we_base64 we data)\<rparr>
           | _ \<Rightarrow> p))"

definition profile_reply ::
  "('p, 'f, 'c, 'b, 'x) web_env \<Rightarrow> i64 \<Rightarrow> string \<Rightarrow> ('p, 'f, 'c, 'b, 'x) web \<Rightarrow> json \<times> ('p, 'f, 'c, 'b, 'x) web" where
  "profile_reply we now a w =
     (case profile_or_default we now a w of
        (p, w') \<Rightarrow> (success [(''profile'', we_profile we (embed_avatar we a w' p))], w'))"

definition handle_get_profile ::
  "('p, 'f, 'c, 'b, 'x) web_env \<Rightarrow> i64 \<Rightarrow> http_request \<Rightarrow> ('p, 'f, 'c, 'b, 'x) web \<Rightarrow>
   json \<times> ('p, 'f, 'c, 'b, 'x) web" where
  "handle_get_profile we now rq w = profile_reply we now (query_text (rq_path rq) ''address'') w"

definition handle_get_self_profile ::
  "('p, 'f, 'c, 'b, 'x) web_env \<Rightarrow> i64 \<Rightarrow> string \<Rightarrow> ('p, 'f, 'c, 'b, 'x) web \<Rightarrow> json \<times> ('p, 'f, 'c, 'b, 'x) web" where
  "handle_get_self_profile we now addr w = profile_reply we now addr w"

text \<open>The query value is not decoded here.\<close>

definition profile_target :: "string \<Rightarrow> http_request \<Rightarrow> string" where
  "profile_target addr rq = (case get_query_param (rq_path rq) ''address'' of Some a \<Rightarrow> a | None \<Rightarrow> addr)"

definition handle_save_profile ::
  "('p, 'f, 'c, 'b, 'x) web_env \<Rightarrow> i64 \<Rightarrow> string \<Rightarrow> http_request \<Rightarrow> ('p, 'f, 'c, 'b, 'x) web \<Rightarrow>
   json \<times> ('p, 'f, 'c, 'b, 'x) web" where
  "handle_save_profile we now addr rq w =
     (let target = profile_target addr rq
      in case dec (ue_profile (we_users we)) (body_text rq) of
           None \<Rightarrow> (failure ''Invalid profile JSON'', w)
         | Some profile \<Rightarrow>
             (let (profile', w1) =
                    (if up_avatar_path profile = None
                     then (case on_users (load_profile (we_users we) now target) w of
                             (Inr existing, w1) \<Rightarrow> (profile\<lparr>up_avatar_path := up_avatar_path existing\<rparr>, w1)
                           | (Inl e, w1) \<Rightarrow> (profile, w1))
                     else (profile, w))
              in (success [], snd (on_users (save_profile (we_users we) target profile') w1))))"

definition handle_upload_avatar ::
  "('p, 'f, 'c, 'b, 'x) web_env \<Rightarrow> i64 \<Rightarrow> string \<Rightarrow> http_request \<Rightarrow> ('p, 'f, 'c, 'b, 'x) web \<Rightarrow>
   json \<times> ('p, 'f, 'c, 'b, 'x) web" where
  "handle_upload_avatar we now addr rq w =
     (let target = profile_target addr rq
      in case on_users (save_image (we_users we) target ''avatar.jpg'' (snd (read_http_body rq))) w of
           (Inl e, w1) \<Rightarrow> (failure (we_error we e), w1)
         | (Inr _, w1) \<Rightarrow>
             (success [(''avatar_path'', JStr ''images/avatar.jpg'')],
              case on_users (load_profile (we_users we) now target) w1 of
                (Inr profile, w2) \<Rightarrow>
                  snd (on_users (save_profile (we_users we) target
                         (profile\<lparr>up_avatar_path := Some ''images/avatar.jpg''\<rparr>)) w2)
              | (Inl e, w2) \<Rightarrow> w2))"

subsection \<open>Sending a chat message\<close>

text \<open>
  The preview of a message: the first fifty bytes of a longer one. Cutting inside a
  character panics.
\<close>

definition preview :: "string \<Rightarrow> string option" where
  "preview s =
     (if 50 < length s
      then (if is_cont (s ! 50) then None else Some (take 50 s @ ''...''))
      else Some s)"

text \<open>Pushing an event to the browser, if one is listening.\<close>

definition push_event ::
  "(string \<Rightarrow> json) \<Rightarrow> string \<Rightarrow> ('p, 'f, 'c, 'b, 'x) web \<Rightarrow> ('p, 'f, 'c, 'b, 'x) web option" where
  "push_event event content w =
     (case wb_events w of
        None \<Rightarrow> Some w
      | Some es \<Rightarrow>
          (case preview content of
             None \<Rightarrow> None
           | Some p \<Rightarrow> Some (w\<lparr>wb_events := Some (es @ [event p])\<rparr>)))"

definition chat_targets :: "string \<Rightarrow> 'p global_ctx \<Rightarrow> socket_addr list" where
  "chat_targets to g = (case g_node g of Some n \<Rightarrow> nr_get_seeds_for_node to (n_registry n) | None \<Rightarrow> [])"

text \<open>
  One attempt on a connection: nothing when it fails, else what was written.
  \<open>k\<close> counts the attempts, for the time stamp and the nonce.
\<close>

definition chat_attempt ::
  "('p, 'f, 'c, 'b, 'x) web_env \<Rightarrow> (nat \<Rightarrow> u128 \<times> u64) \<Rightarrow> string \<Rightarrow> string \<Rightarrow> u64 \<Rightarrow> string \<Rightarrow> 'p global_ctx \<Rightarrow>
   nat \<Rightarrow> conn_entry \<Rightarrow> (socket_addr \<times> bytes) list option" where
  "chat_attempt we fresh self to request_id content g k e =
     (case ce_context e of
        None \<Rightarrow> None
      | Some c \<Rightarrow>
          (case send_text_message (we_msg we) (fst (fresh k)) (snd (fresh k)) self to request_id c content g of
             Inr (Some bs) \<Rightarrow> Some [(ce_addr e, bs)]
           | Inr None \<Rightarrow> Some []
           | Inl err \<Rightarrow> None))"

fun direct_chat ::
  "(nat \<Rightarrow> conn_entry \<Rightarrow> (socket_addr \<times> bytes) list option) \<Rightarrow> (socket_addr \<Rightarrow> conn_entry option) \<Rightarrow>
   nat \<Rightarrow> socket_addr list \<Rightarrow> (socket_addr \<times> bytes) list option" where
  "direct_chat attempt find_entry k [] = None"
| "direct_chat attempt find_entry k (a # as) =
     (case Option.bind (find_entry a) (attempt k) of
        Some written \<Rightarrow> Some written
      | None \<Rightarrow> direct_chat attempt find_entry (Suc k) as)"

text \<open>The connections of the fallback: those of the receiver if it is known, else all; once per node.\<close>

definition forward_entries ::
  "(bytes \<Rightarrow> string) \<Rightarrow> string \<Rightarrow> socket_addr list \<Rightarrow> conn_entry list \<Rightarrow> conn_entry list" where
  "forward_entries node_name to targets es =
     once_per_node node_name {} (if targets = [] then es else filter (matches_sender to targets) es)"

definition forward_chat ::
  "(nat \<Rightarrow> conn_entry \<Rightarrow> (socket_addr \<times> bytes) list option) \<Rightarrow> nat \<Rightarrow> conn_entry list \<Rightarrow>
   (socket_addr \<times> bytes) list option" where
  "forward_chat attempt k es =
     (case List.map_filter (\<lambda>(i, e). attempt (k + i) e) (enumerate 0 es) of
        [] \<Rightarrow> None
      | ws \<Rightarrow> Some (concat ws))"

definition transmit_chat ::
  "('p, 'f, 'c, 'b, 'x) web_env \<Rightarrow> (nat \<Rightarrow> u128 \<times> u64) \<Rightarrow> string \<Rightarrow> string \<Rightarrow> u64 \<Rightarrow> string \<Rightarrow> 'p global_ctx \<Rightarrow>
   (socket_addr \<times> bytes) list option" where
  "transmit_chat we fresh self to request_id content g =
     (let targets = chat_targets to g;
          attempt = chat_attempt we fresh self to request_id content g
      in case direct_chat attempt (\<lambda>a. we_find_entry we a (g_connections g)) 0 targets of
           Some written \<Rightarrow> Some written
         | None \<Rightarrow>
             forward_chat attempt (length targets)
               (forward_entries (we_node_name we) to targets (conn_entries (g_connections g))))"

definition send_failed :: string where
  "send_failed =
     ''Failed to send message: no matching connection or send error (check server logs)''"

text \<open>The answer once the attempts are over: a message that no connection took is no longer pending.\<close>

definition chat_reply ::
  "u64 \<Rightarrow> (socket_addr \<times> bytes) list option \<Rightarrow> ('p, 'f, 'c, 'b, 'x) web \<Rightarrow> json option \<times> ('p, 'f, 'c, 'b, 'x) web" where
  "chat_reply request_id sent w =
     (case sent of
        None \<Rightarrow>
          (Some (failure send_failed), w\<lparr>wb_pending := map_option (\<lambda>s. s - {request_id}) (wb_pending w)\<rparr>)
      | Some written \<Rightarrow>
          (Some (success [(''message'', JStr ''Message sent'')]), w\<lparr>wb_written := wb_written w @ written\<rparr>))"

definition handle_send_chat ::
  "('p, 'f, 'c, 'b, 'x) web_env \<Rightarrow> i64 \<Rightarrow> (nat \<Rightarrow> u128 \<times> u64) \<Rightarrow> string \<Rightarrow> http_request \<Rightarrow>
   ('p, 'f, 'c, 'b, 'x) web \<Rightarrow> json option \<times> ('p, 'f, 'c, 'b, 'x) web" where
  "handle_send_chat we now fresh self rq w =
     (let v = request_json we rq;
          to = str_field ''to'' v;
          content = str_field ''message'' v
      in if to = [] \<or> content = [] then (Some (failure (missing ''to'' ''message'')), w)
         else
           (let (request_id, counter) = next_request_id (wb_counter w);
                w1 = w\<lparr>wb_counter := counter, wb_pending := map_option (insert request_id) (wb_pending w)\<rparr>;
                w2 = snd (on_users (add_message (we_users we) now to content True ''sent'') w1)
            in case push_event (\<lambda>p. JObj [(''type'', JStr ''chat_update''), (''contact'', JStr to),
                                           (''preview'', JStr p)]) content w2 of
                 None \<Rightarrow> (None, w2)
               | Some w3 \<Rightarrow> chat_reply request_id (transmit_chat we fresh self to request_id content (wb_ctx w3)) w3))"

text \<open>
  The task that waits for the receipt: \<open>delivered\<close> is what the channel said within
  thirty seconds. A panic of the task (no result) is the cut of the preview again.
\<close>

definition await_receipt ::
  "('p, 'f, 'c, 'b, 'x) web_env \<Rightarrow> int \<Rightarrow> u64 \<Rightarrow> string \<Rightarrow> string \<Rightarrow> bool option \<Rightarrow>
   ('p, 'f, 'c, 'b, 'x) web \<Rightarrow> ('p, 'f, 'c, 'b, 'x) web option" where
  "await_receipt we millis request_id to content delivered w =
     (let w1 = w\<lparr>wb_pending := map_option (\<lambda>s. s - {request_id}) (wb_pending w)\<rparr>
      in if delivered = Some True
         then push_event (\<lambda>p. JObj [(''type'', JStr ''chat_message''), (''contact'', JStr to), (''preview'', JStr p),
                                     (''timestamp'', JInt millis)]) content
                (snd (on_users (update_last_sent_status (we_users we) to ''delivered'') w1))
         else Some w1)"

subsection \<open>Routing\<close>

datatype route =
    RTransfer | RAddress | RListContacts | RAddContact | RDeleteContact | RChatMessages | RConversations
  | RProfile | RSelfProfile | RSaveProfile | RAvatar | RSendChat | RData | RWallet | RChat | RNetwork | RIndex

definition contains :: "string \<Rightarrow> string \<Rightarrow> bool" where
  "contains s p \<longleftrightarrow> list_ex (\<lambda>i. starts_with p (drop i s)) [0..<Suc (length s)]"

definition web_route :: "bool \<Rightarrow> string \<Rightarrow> route" where
  "web_route is_post path =
     (if is_post \<and> path = ''/api/transfer'' then RTransfer
      else if \<not> is_post \<and> starts_with ''/api/address'' path then RAddress
      else if \<not> is_post \<and> path = ''/api/contacts'' then RListContacts
      else if is_post \<and> path = ''/api/contacts'' then RAddContact
      else if starts_with ''/api/contacts'' path \<and> contains path ''?address='' then RDeleteContact
      else if starts_with ''/api/chat_messages'' path \<and> contains path ''?contact='' then RChatMessages
      else if \<not> is_post \<and> path = ''/api/conversations'' then RConversations
      else if \<not> is_post \<and> starts_with ''/api/profile'' path \<and> contains path ''?address='' then RProfile
      else if \<not> is_post \<and> path = ''/api/profile'' then RSelfProfile
      else if is_post \<and> path = ''/api/profile'' then RSaveProfile
      else if is_post \<and> path = ''/api/profile/avatar'' then RAvatar
      else if is_post \<and> path = ''/api/send_chat'' then RSendChat
      else if \<not> is_post \<and> path = ''/api/data'' then RData
      else if path = ''/wallet'' then RWallet
      else if path = ''/chat'' then RChat
      else if path = ''/network'' then RNetwork
      else RIndex)"

text \<open>The handlers behind the routes of the wallet and chat pages; the other routes render pages.\<close>

definition web_handle ::
  "('p, 'f, 'c, 'b, 'x) web_env \<Rightarrow> i64 \<Rightarrow> u64 \<Rightarrow> (nat \<Rightarrow> u128 \<times> u64) \<Rightarrow>
   (string \<Rightarrow> string \<Rightarrow> string \<Rightarrow> ('p, 'f, 'c, 'b, 'x) web \<Rightarrow> (string + string) \<times> ('p, 'f, 'c, 'b, 'x) web) option \<Rightarrow>
   string \<Rightarrow> http_request \<Rightarrow> ('p, 'f, 'c, 'b, 'x) web \<Rightarrow> (json option \<times> ('p, 'f, 'c, 'b, 'x) web) option" where
  "web_handle we now seen fresh transfer self rq w =
     (case web_route (rq_post rq) (rq_path rq) of
        RTransfer \<Rightarrow>
          Some (case transfer of
                  None \<Rightarrow> (Some (failure ''TransferFn not configured''), w)
                | Some tf \<Rightarrow> apfst Some (handle_transfer we tf self rq w))
      | RAddress \<Rightarrow> Some (apfst Some (handle_address_api we rq w))
      | RListContacts \<Rightarrow> Some (apfst Some (handle_list_contacts we now seen self w))
      | RAddContact \<Rightarrow> Some (apfst Some (handle_add_contact we now rq w))
      | RDeleteContact \<Rightarrow> Some (apfst Some (handle_delete_contact we rq w))
      | RChatMessages \<Rightarrow> Some (apfst Some (handle_get_chat_messages we rq w))
      | RConversations \<Rightarrow> Some (apfst Some (handle_get_conversations we w))
      | RProfile \<Rightarrow> Some (apfst Some (handle_get_profile we now rq w))
      | RSelfProfile \<Rightarrow> Some (apfst Some (handle_get_self_profile we now self w))
      | RSaveProfile \<Rightarrow> Some (apfst Some (handle_save_profile we now self rq w))
      | RAvatar \<Rightarrow> Some (apfst Some (handle_upload_avatar we now self rq w))
      | RSendChat \<Rightarrow> Some (handle_send_chat we now fresh self rq w)
      | _ \<Rightarrow> None)"

subsection \<open>Lemmas\<close>

lemma containsI: "contains (u @ p @ v) p"
  by (auto simp: contains_def list_ex_iff starts_with_def intro!: bexI [of _ "length u"])

text \<open>A contact is deleted by any request, also by one that only reads.\<close>

lemma get_deletes_contact: "web_route False (''/api/contacts?address='' @ a) = RDeleteContact"
proof -
  have "contains (''/api/contacts?address='' @ a) ''?address=''"
    using containsI [of "''/api/contacts''" "''?address=''" a] by simp
  then show ?thesis by (simp add: web_route_def starts_with_def)
qed

text \<open>An uploaded avatar is stored with the zeros of the buffer behind it.\<close>

lemma avatar_padded: "4096 \<le> length (snd (read_http_body rq))"
  by (simp add: read_http_body_def Let_def content_length_def split: option.splits)

text \<open>Only the node's own profile and avatar can be changed: no route hands the handlers a query.\<close>

lemma get_query_param_no_query: "CHR ''?'' \<notin> set path \<Longrightarrow> get_query_param path key = None"
  by (simp add: get_query_param_def split_on_single)

lemma profile_writes_own:
  assumes "web_route (rq_post rq) (rq_path rq) \<in> {RSaveProfile, RAvatar}"
  shows "profile_target self rq = self"
proof -
  have "rq_path rq \<in> {''/api/profile'', ''/api/profile/avatar''}"
    using assms by (simp add: web_route_def split: if_splits)
  then have "CHR ''?'' \<notin> set (rq_path rq)" by auto
  then show ?thesis by (simp add: profile_target_def get_query_param_no_query)
qed

text \<open>
  When a message counts as sent: one of the receiver's sockets has a connection on which
  the frame is accepted, or else one of the connections of the fallback accepts it.
\<close>

definition chat_deliverable ::
  "('p, 'f, 'c, 'b, 'x) web_env \<Rightarrow> (nat \<Rightarrow> u128 \<times> u64) \<Rightarrow> string \<Rightarrow> string \<Rightarrow> u64 \<Rightarrow> string \<Rightarrow> 'p global_ctx \<Rightarrow> bool" where
  "chat_deliverable we fresh self to request_id content g \<longleftrightarrow>
     (let targets = chat_targets to g;
          fallback = forward_entries (we_node_name we) to targets (conn_entries (g_connections g));
          accepted = (\<lambda>k e. chat_attempt we fresh self to request_id content g k e \<noteq> None)
      in (\<exists>i < length targets. \<exists>e. we_find_entry we (targets ! i) (g_connections g) = Some e \<and> accepted i e) \<or>
         (\<exists>i < length fallback. accepted (length targets + i) (fallback ! i)))"

lemma direct_chat_iff:
  "direct_chat attempt find_entry k as \<noteq> None \<longleftrightarrow>
     (\<exists>i < length as. \<exists>e. find_entry (as ! i) = Some e \<and> attempt (k + i) e \<noteq> None)"
proof (induction as arbitrary: k)
  case (Cons a as)
  have "direct_chat attempt find_entry k (a # as) \<noteq> None \<longleftrightarrow>
    (\<exists>e. find_entry a = Some e \<and> attempt k e \<noteq> None) \<or> direct_chat attempt find_entry (Suc k) as \<noteq> None"
    by (auto split: option.splits bind_splits)
  then show ?case by (simp only: Cons.IH) (simp add: Ex_less_Suc2)
qed simp

lemma forward_chat_iff:
  "forward_chat attempt k es \<noteq> None \<longleftrightarrow> (\<exists>i < length es. attempt (k + i) (es ! i) \<noteq> None)"
proof -
  have "forward_chat attempt k es \<noteq> None \<longleftrightarrow>
    List.map_filter (\<lambda>(i, e). attempt (k + i) e) (enumerate 0 es) \<noteq> []"
    by (auto simp: forward_chat_def split: list.splits)
  also have "\<dots> \<longleftrightarrow> (\<exists>p \<in> set (enumerate 0 es). attempt (k + fst p) (snd p) \<noteq> None)"
    by (simp add: map_filter_def filter_empty_conv split_beta)
  also have "\<dots> \<longleftrightarrow> (\<exists>i < length es. attempt (k + i) (es ! i) \<noteq> None)"
    by (simp add: Bex_def in_set_enumerate_eq)
  finally show ?thesis .
qed

lemma transmit_chat_iff:
  "transmit_chat we fresh self to request_id content g \<noteq> None \<longleftrightarrow>
     chat_deliverable we fresh self to request_id content g"
proof -
  have "transmit_chat we fresh self to request_id content g \<noteq> None \<longleftrightarrow>
    direct_chat (chat_attempt we fresh self to request_id content g)
      (\<lambda>a. we_find_entry we a (g_connections g)) 0 (chat_targets to g) \<noteq> None \<or>
    forward_chat (chat_attempt we fresh self to request_id content g) (length (chat_targets to g))
      (forward_entries (we_node_name we) to (chat_targets to g) (conn_entries (g_connections g))) \<noteq> None"
    by (auto simp: transmit_chat_def Let_def split: option.splits)
  then show ?thesis
    unfolding direct_chat_iff forward_chat_iff chat_deliverable_def Let_def add_0 .
qed

text \<open>Announcing a message with an acceptable preview changes the queue of events and nothing else.\<close>

lemma push_event_frame:
  assumes "wb_events w = None \<or> preview content \<noteq> None"
  obtains es where "push_event event content w = Some (w\<lparr>wb_events := es\<rparr>)"
proof (cases "wb_events w")
  case None
  then have "push_event event content w = Some (w\<lparr>wb_events := None\<rparr>)" by (cases w) (simp add: push_event_def)
  then show ?thesis by (rule that)
next
  case (Some es)
  then show ?thesis using assms by (auto simp: push_event_def intro: that)
qed

text \<open>A positive receipt settles the request and marks the last message as delivered.\<close>

lemma await_receipt_confirmed:
  assumes confirm: "update_last_sent_status (we_users we) to ''delivered'' (wb_users w) = (Inr (), u)"
    and "preview content \<noteq> None"
  obtains w' where "await_receipt we millis request_id to content (Some True) w = Some w'"
    "wb_users w' = u" "wb_pending w' = map_option (\<lambda>s. s - {request_id}) (wb_pending w)"
proof -
  let ?w = "w\<lparr>wb_pending := map_option (\<lambda>s. s - {request_id}) (wb_pending w), wb_users := u\<rparr>"
    and ?event = "\<lambda>p. JObj [(''type'', JStr ''chat_message''), (''contact'', JStr to), (''preview'', JStr p),
      (''timestamp'', JInt millis)]"
  have "snd (on_users (update_last_sent_status (we_users we) to ''delivered'')
      (w\<lparr>wb_pending := map_option (\<lambda>s. s - {request_id}) (wb_pending w)\<rparr>)) = ?w"
    by (simp add: on_users_def confirm)
  then have run: "await_receipt we millis request_id to content (Some True) w = push_event ?event content ?w"
    by (simp only: await_receipt_def Let_def) simp
  obtain es where "push_event ?event content ?w = Some (?w\<lparr>wb_events := es\<rparr>)"
    by (rule push_event_frame [OF disjI2 [OF assms(2)]])
  then have "await_receipt we millis request_id to content (Some True) w = Some (?w\<lparr>wb_events := es\<rparr>)"
    by (simp add: run)
  then show ?thesis by (rule that) simp_all
qed

text \<open>Sending with an acceptable preview: the message is stored, then transmitted.\<close>

lemma send_chat_run:
  assumes "to \<noteq> []" "content \<noteq> []"
    and "str_field ''to'' (request_json we rq) = to" "str_field ''message'' (request_json we rq) = content"
    and "add_message (we_users we) now to content True ''sent'' (wb_users w) = (m, u')"
    and "wb_events w = None \<or> preview content \<noteq> None"
  obtains w3 where "wb_ctx w3 = wb_ctx w" "wb_users w3 = u'" "wb_written w3 = wb_written w"
    "wb_pending w3 = map_option (insert (wb_counter w)) (wb_pending w)"
    "handle_send_chat we now fresh self rq w =
      (case transmit_chat we fresh self to (wb_counter w) content (wb_ctx w) of
         None \<Rightarrow> (Some (failure send_failed),
           w3\<lparr>wb_pending := map_option (\<lambda>s. s - {wb_counter w}) (wb_pending w3)\<rparr>)
       | Some written \<Rightarrow> (Some (success [(''message'', JStr ''Message sent'')]),
           w3\<lparr>wb_written := wb_written w3 @ written\<rparr>))"
proof -
  define w2 where "w2 = w\<lparr>wb_counter := wb_counter w + 1,
    wb_pending := map_option (insert (wb_counter w)) (wb_pending w), wb_users := u'\<rparr>"
  have "wb_events w2 = None \<or> preview content \<noteq> None" using assms(6) by (simp add: w2_def)
  from push_event_frame [OF this] obtain es where event: "push_event (\<lambda>p. JObj [(''type'', JStr ''chat_update''),
      (''contact'', JStr to), (''preview'', JStr p)]) content w2 = Some (w2\<lparr>wb_events := es\<rparr>)" .
  define w3 where "w3 = w2\<lparr>wb_events := es\<rparr>"
  have same: "wb_ctx w3 = wb_ctx w" "wb_users w3 = u'" "wb_written w3 = wb_written w"
    "wb_pending w3 = map_option (insert (wb_counter w)) (wb_pending w)"
    by (simp_all add: w3_def w2_def)
  have "snd (on_users (add_message (we_users we) now to content True ''sent'')
      (w\<lparr>wb_counter := wb_counter w + 1, wb_pending := map_option (insert (wb_counter w)) (wb_pending w)\<rparr>)) = w2"
    by (simp add: on_users_def assms(5) w2_def)
  then have "handle_send_chat we now fresh self rq w =
    (case transmit_chat we fresh self to (wb_counter w) content (wb_ctx w) of
       None \<Rightarrow> (Some (failure send_failed),
         w3\<lparr>wb_pending := map_option (\<lambda>s. s - {wb_counter w}) (wb_pending w3)\<rparr>)
     | Some written \<Rightarrow> (Some (success [(''message'', JStr ''Message sent'')]),
         w3\<lparr>wb_written := wb_written w3 @ written\<rparr>))"
    using event assms(1-4) by (simp add: handle_send_chat_def chat_reply_def next_request_id_def same(1) flip: w3_def)
  from that [OF same this] show ?thesis .
qed

text \<open>Every frame of a transmission comes from one attempt on one connection.\<close>

lemma direct_chat_attempt:
  "direct_chat attempt find_entry k as = Some ws \<Longrightarrow> x \<in> set ws \<Longrightarrow> \<exists>i e ys. attempt i e = Some ys \<and> x \<in> set ys"
  by (induction as arbitrary: k) (auto split: option.splits bind_splits)

lemma forward_chat_attempt:
  "forward_chat attempt k es = Some ws \<Longrightarrow> x \<in> set ws \<Longrightarrow> \<exists>i e ys. attempt i e = Some ys \<and> x \<in> set ys"
proof -
  assume run: "forward_chat attempt k es = Some ws" and x: "x \<in> set ws"
  define ys where "ys = List.map_filter (\<lambda>(i, e). attempt (k + i) e) (enumerate 0 es)"
  have "ws = concat ys" using run by (auto simp: forward_chat_def ys_def [symmetric] split: list.splits)
  then obtain y where y: "y \<in> set ys" "x \<in> set y" using x by auto
  then obtain p where "(case p of (i, e) \<Rightarrow> attempt (k + i) e) = Some y" by (auto simp: ys_def map_filter_def)
  then show ?thesis using y(2) by (cases p) auto
qed

lemma transmit_chat_attempt:
  assumes "transmit_chat we fresh self to request_id content g = Some ws" "(sock, bs) \<in> set ws"
  shows "\<exists>k c. send_text_message (we_msg we) (fst (fresh k)) (snd (fresh k)) self to request_id c content g = Inr (Some bs)"
proof -
  obtain k e ys where "chat_attempt we fresh self to request_id content g k e = Some ys" "(sock, bs) \<in> set ys"
    using assms direct_chat_attempt [of "chat_attempt we fresh self to request_id content g"]
      forward_chat_attempt [of "chat_attempt we fresh self to request_id content g"]
    by (simp add: transmit_chat_def Let_def split: option.splits) blast+
  then have "\<exists>c. send_text_message (we_msg we) (fst (fresh k)) (snd (fresh k)) self to request_id c content g = Inr (Some bs)"
    by (auto simp: chat_attempt_def split: option.splits sum.splits)
  then show ?thesis by blast
qed

text \<open>A preview cut inside a character stops the handler: the message is stored and the request stays pending.\<close>

lemma send_chat_panic:
  assumes "to \<noteq> []" "content \<noteq> []"
    and "str_field ''to'' (request_json we rq) = to" "str_field ''message'' (request_json we rq) = content"
    and "add_message (we_users we) now to content True ''sent'' (wb_users w) = (m, u')"
    and "wb_events w \<noteq> None" "preview content = None"
  shows "handle_send_chat we now fresh self rq w =
    (None, w\<lparr>wb_counter := wb_counter w + 1, wb_pending := map_option (insert (wb_counter w)) (wb_pending w),
      wb_users := u'\<rparr>)"
  using assms
  by (auto simp: handle_send_chat_def next_request_id_def on_users_def push_event_def Let_def)

text \<open>A connection without a writer takes every frame that can be built, and nothing is written.\<close>

lemma chat_attempt_no_writer:
  assumes "ce_context e = Some c" "\<not> c_writer c"
    and "chat_attempt we fresh self to request_id content g k e \<noteq> None"
  shows "chat_attempt we fresh self to request_id content g k e = Some []"
  using assms
  by (auto simp: chat_attempt_def send_text_message_def frame_send_def split: option.splits sum.splits if_splits)

subsection \<open>Properties\<close>

text \<open>
  C22. What a request to send a chat message does, with a receiver and a text, on every path.
  The handler first calls \<^verbatim>\<open>add_message\<close> and keeps what that left of the files; when it
  succeeded, the receiver's history is what it was (where the path of the history has no
  component \<^verbatim>\<open>..\<close>) and the message, numbered next and marked \<^verbatim>\<open>sent\<close>; when it failed, the
  handler goes on all the same. Then, with a browser listening and a preview cut inside a
  character, the handler panics: no reply, nothing written, the request stays registered for a
  receipt. Otherwise the reply says \<^verbatim>\<open>success\<close> exactly when an attempt on a connection returned
  without error, and exactly then the request stays registered; every frame written is one that
  \<^verbatim>\<open>send_text_message\<close> built for this receiver, request and text. An attempt on a connection
  without a writer returns without error and writes nothing. With the reply \<^verbatim>\<open>failure\<close> nothing
  was written. The file system and the JSON codec behave as documented.
\<close>

theorem send_chat_outcome:
  assumes "user_env_ok (we_users we)" "to \<noteq> []" "content \<noteq> []"
    and "str_field ''to'' (request_json we rq) = to" "str_field ''message'' (request_json we rq) = content"
    and "add_message (we_users we) now to content True ''sent'' (wb_users w) = (stored, u')"
  shows "\<exists>reply w'. handle_send_chat we now fresh self rq w = (reply, w') \<and> wb_users w' = u' \<and>
    (\<forall>m. stored = Inr m \<longrightarrow>
      (\<exists>ms. (path_plain (chat_path (us_base_path (wb_users w)) to) \<longrightarrow>
           read_messages_raw (we_users we) to (wb_users w) = Inr ms) \<and>
         read_messages_raw (we_users we) to u' =
           Inr (ms @ [\<lparr>ch_id = next_message_id ms, ch_contact_address = to, ch_content = content, ch_is_sent = True,
             ch_status = ''sent'', ch_timestamp = now\<rparr>]))) \<and>
    (if wb_events w \<noteq> None \<and> preview content = None
     then reply = None \<and> wb_pending w' = map_option (insert (wb_counter w)) (wb_pending w) \<and> wb_written w' = wb_written w
     else if chat_deliverable we fresh self to (wb_counter w) content (wb_ctx w)
     then reply = Some (success [(''message'', JStr ''Message sent'')]) \<and>
       wb_pending w' = map_option (insert (wb_counter w)) (wb_pending w) \<and>
       (\<exists>ws. wb_written w' = wb_written w @ ws \<and> (\<forall>(sock, bs) \<in> set ws. \<exists>k c.
         send_text_message (we_msg we) (fst (fresh k)) (snd (fresh k)) self to (wb_counter w) c content (wb_ctx w) =
           Inr (Some bs)))
     else reply = Some (failure send_failed) \<and>
       wb_pending w' = map_option (\<lambda>s. s - {wb_counter w}) (wb_pending w) \<and> wb_written w' = wb_written w)"
proof -
  have hist: "\<exists>ms. (path_plain (chat_path (us_base_path (wb_users w)) to) \<longrightarrow>
      read_messages_raw (we_users we) to (wb_users w) = Inr ms) \<and>
    read_messages_raw (we_users we) to u' =
      Inr (ms @ [\<lparr>ch_id = next_message_id ms, ch_contact_address = to, ch_content = content, ch_is_sent = True,
        ch_status = ''sent'', ch_timestamp = now\<rparr>])" if "stored = Inr m" for m
    using add_message_effect [OF assms(1) assms(6) [unfolded that]] by metis
  show ?thesis
  proof (cases "wb_events w \<noteq> None \<and> preview content = None")
    case True
    then show ?thesis using send_chat_panic [OF assms(2-6), of fresh self] hist by simp
  next
    case False
    then have ok: "wb_events w = None \<or> preview content \<noteq> None" by auto
    obtain w3 where same: "wb_ctx w3 = wb_ctx w" "wb_users w3 = u'" "wb_written w3 = wb_written w"
      "wb_pending w3 = map_option (insert (wb_counter w)) (wb_pending w)"
      and run: "handle_send_chat we now fresh self rq w =
        (case transmit_chat we fresh self to (wb_counter w) content (wb_ctx w) of
           None \<Rightarrow> (Some (failure send_failed),
             w3\<lparr>wb_pending := map_option (\<lambda>s. s - {wb_counter w}) (wb_pending w3)\<rparr>)
         | Some written \<Rightarrow> (Some (success [(''message'', JStr ''Message sent'')]),
             w3\<lparr>wb_written := wb_written w3 @ written\<rparr>))"
      by (rule send_chat_run [OF assms(2-6) ok])
    show ?thesis
    proof (cases "transmit_chat we fresh self to (wb_counter w) content (wb_ctx w)")
      case None
      then have "\<not> chat_deliverable we fresh self to (wb_counter w) content (wb_ctx w)"
        by (simp flip: transmit_chat_iff)
      then show ?thesis using run None same hist False by (auto simp: option.map_comp comp_def)
    next
      case (Some ws)
      then have sent: "chat_deliverable we fresh self to (wb_counter w) content (wb_ctx w)"
        by (simp flip: transmit_chat_iff)
      have "\<forall>(sock, bs) \<in> set ws. \<exists>k c.
        send_text_message (we_msg we) (fst (fresh k)) (snd (fresh k)) self to (wb_counter w) c content (wb_ctx w) =
          Inr (Some bs)"
        using transmit_chat_attempt [OF Some] by blast
      then show ?thesis using run Some same hist False sent by simp
    qed
  qed
qed

definition demo_web_env :: "(nat, tree, contact_row list, balance_row list, tx_row list) web_env" where
  "demo_web_env =
     \<lparr>we_users = demo_user_env, we_contacts = list_table ct_id (\<lambda>i r. r\<lparr>ct_id := i\<rparr>) (\<lambda>_ _. False),
      we_balances = list_table (\<lambda>_. 0) (\<lambda>_ r. r) (\<lambda>_ _. False),
      we_txs = list_table tx_id (\<lambda>i r. r\<lparr>tx_id := i\<rparr>) (\<lambda>_ _. False), we_msg = demo_msg_env,
      we_json = (\<lambda>_. Some (JObj [(''to'', JStr ''ann''), (''message'', JStr ''hi'')])),
      we_profile = (\<lambda>_. JNull), we_base64 = (\<lambda>_. []), we_error = (\<lambda>_. []), we_node_name = (\<lambda>_. []),
      we_find_entry = (\<lambda>_ _. None), we_info = (\<lambda>_. \<lparr>ci_inbound = [], ci_outbound = []\<rparr>),
      we_from_ip = (\<lambda>_. Intranet)\<rparr>"

definition demo_web :: "(nat, tree, contact_row list, balance_row list, tx_row list) web" where
  "demo_web =
     \<lparr>wb_ctx = demo_gctx, wb_users = user_store_new ''d'' [], wb_contacts = [], wb_balances = [], wb_txs = [],
      wb_pending = Some {}, wb_counter = 1, wb_events = Some [], wb_written = []\<rparr>"

definition demo_post :: http_request where
  "demo_post = \<lparr>rq_post = True, rq_path = ''/api/send_chat'', rq_content_length = None, rq_stream = None\<rparr>"

lemma demo_web_add:
  "\<exists>u'. add_message demo_user_env 7 ''ann'' ''hi'' True ''sent'' (user_store_new ''d'' []) = (Inr (demo_chat 1 ''hi''), u')"
  by (simp add: demo_store_simps)

text \<open>A message to an unknown contact of a node without connections: kept as sent, but not sent.\<close>

lemma send_chat_outcome_witness:
  "\<exists>w'. handle_send_chat demo_web_env 7 (\<lambda>_. (2, 5)) ''me'' demo_post demo_web =
     (Some (failure send_failed), w') \<and>
   read_messages_raw demo_user_env ''ann'' (wb_users w') = Inr [demo_chat 1 ''hi''] \<and>
   wb_pending w' = Some {} \<and> wb_written w' = []"
proof -
  have not_sent: "\<not> chat_deliverable demo_web_env (\<lambda>_. (2, 5)) ''me'' ''ann'' (wb_counter demo_web) ''hi'' (wb_ctx demo_web)"
    by (simp add: chat_deliverable_def Let_def demo_web_def demo_web_env_def demo_gctx_def conn_entries_def
        forward_entries_def)
  have empty: "read_messages_raw demo_user_env ''ann'' (wb_users demo_web) = Inr []"
    by (simp add: demo_web_def demo_store_simps)
  have env: "we_users demo_web_env = demo_user_env" by (simp add: demo_web_env_def)
  have req: "str_field ''to'' (request_json demo_web_env demo_post) = ''ann''"
    "str_field ''message'' (request_json demo_web_env demo_post) = ''hi''"
    by (simp_all add: request_json_def demo_web_env_def str_field_def json_get_def)
  obtain u' where add: "add_message (we_users demo_web_env) 7 ''ann'' ''hi'' True ''sent'' (wb_users demo_web) =
      (Inr (demo_chat 1 ''hi''), u')"
    using demo_web_add by (auto simp: env demo_web_def)
  have plain: "path_plain (chat_path (us_base_path (wb_users demo_web)) ''ann'')"
    by (simp add: demo_web_def demo_store_simps path_plain_def)
  have "\<not> (wb_events demo_web \<noteq> None \<and> preview ''hi'' = None)" by (simp add: preview_def)
  then show ?thesis
    using send_chat_outcome [OF _ _ _ req add, where fresh = "\<lambda>_. (2, 5)" and self = "''me''"] not_sent empty plain
    by (auto simp: env demo_user_env_ok next_message_id_def demo_chat_def) (auto simp: demo_web_def)
qed

end
