(* ===== verification/Float64.thy ===== *)
theory Float64
  imports Complex_Main Text
begin

text \<open>
  The \<^verbatim>\<open>f64\<close> of Rust as far as the program computes with it: IEEE 754 binary64 numbers as exact
  rationals with a sign, infinities and one NaN; rounding to the nearest representable number, ties
  to even; the four operations, \<^verbatim>\<open>max\<close>, parsing of decimal literals and printing with two decimals.
  Shown: a number that has 53 significant bits is not changed by rounding, and what a decimal
  literal of such an integer parses to.
\<close>

subsection \<open>Rounding\<close>

fun bit_len :: "nat \<Rightarrow> nat" where
  "bit_len n = (if n = 0 then 0 else Suc (bit_len (n div 2)))"

declare bit_len.simps [simp del]

text \<open>The exponent of the largest power of two that is at most a positive rational.\<close>

definition ilog2 :: "rat \<Rightarrow> int" where
  "ilog2 q =
     (let (a, b) = quotient_of q; k = int (bit_len (nat a)) - int (bit_len (nat b))
      in if 2 powi k \<le> q then k else k - 1)"

definition round_half_even :: "rat \<Rightarrow> int" where
  "round_half_even q =
     (let f = \<lfloor>q\<rfloor>; d = q - of_int f
      in if d < 1 / 2 then f else if 1 / 2 < d then f + 1 else if even f then f else f + 1)"

datatype f64 = NaN | Infty bool | Fin bool rat

text \<open>The number nearest to \<open>q\<close>: 53 bits, or fewer below the smallest normal exponent.\<close>

definition exponent :: "rat \<Rightarrow> int" where
  "exponent q = max (- 1074) (ilog2 q - 52)"

definition round64 :: "bool \<Rightarrow> rat \<Rightarrow> f64" where
  "round64 neg q =
     (if q = 0 then Fin neg 0
      else let r = of_int (round_half_even (q / 2 powi exponent q)) * 2 powi exponent q
           in if 2 ^ 1024 \<le> r then Infty neg else Fin neg r)"

subsection \<open>Operations\<close>

definition with_sign :: "bool \<Rightarrow> rat \<Rightarrow> rat" where
  "with_sign neg q = (if neg then - q else q)"

fun f64_add :: "f64 \<Rightarrow> f64 \<Rightarrow> f64" where
  "f64_add (Fin s x) (Fin t y) =
     (let z = with_sign s x + with_sign t y in if z = 0 then Fin (s \<and> t) 0 else round64 (z < 0) \<bar>z\<bar>)"
| "f64_add (Infty s) (Infty t) = (if s = t then Infty s else NaN)"
| "f64_add (Infty s) (Fin _ _) = Infty s"
| "f64_add (Fin _ _) (Infty t) = Infty t"
| "f64_add _ _ = NaN"

fun f64_mul :: "f64 \<Rightarrow> f64 \<Rightarrow> f64" where
  "f64_mul (Fin s x) (Fin t y) = round64 (s \<noteq> t) (x * y)"
| "f64_mul (Infty s) (Infty t) = Infty (s \<noteq> t)"
| "f64_mul (Infty s) (Fin t y) = (if y = 0 then NaN else Infty (s \<noteq> t))"
| "f64_mul (Fin s x) (Infty t) = (if x = 0 then NaN else Infty (s \<noteq> t))"
| "f64_mul _ _ = NaN"

fun f64_div :: "f64 \<Rightarrow> f64 \<Rightarrow> f64" where
  "f64_div (Fin s x) (Fin t y) =
     (if y = 0 then (if x = 0 then NaN else Infty (s \<noteq> t)) else round64 (s \<noteq> t) (x / y))"
| "f64_div (Infty s) (Fin t _) = Infty (s \<noteq> t)"
| "f64_div (Fin s _) (Infty t) = Fin (s \<noteq> t) 0"
| "f64_div _ _ = NaN"

fun f64_less :: "f64 \<Rightarrow> f64 \<Rightarrow> bool" where
  "f64_less (Fin s x) (Fin t y) = (with_sign s x < with_sign t y)"
| "f64_less (Infty s) (Infty t) = (s \<and> \<not> t)"
| "f64_less (Infty s) (Fin _ _) = s"
| "f64_less (Fin _ _) (Infty t) = (\<not> t)"
| "f64_less _ _ = False"

text \<open>\<^verbatim>\<open>f64::max\<close> ignores a NaN.\<close>

definition f64_max :: "f64 \<Rightarrow> f64 \<Rightarrow> f64" where
  "f64_max a b = (if a = NaN then b else if b = NaN then a else if f64_less a b then b else a)"

definition f64_of_u64 :: "u64 \<Rightarrow> f64" where
  "f64_of_u64 n = round64 False (of_nat (unat n))"

subsection \<open>Text\<close>

definition ascii_lower :: "char \<Rightarrow> char" where
  "ascii_lower c = (let n = of_char c :: nat in if 65 \<le> n \<and> n \<le> 90 then char_of (n + 32) else c)"

definition parse_inf_nan :: "bool \<Rightarrow> string \<Rightarrow> f64 option" where
  "parse_inf_nan neg s =
     (let l = map ascii_lower s
      in if l = ''nan'' then Some NaN else if l = ''inf'' \<or> l = ''infinity'' then Some (Infty neg) else None)"

definition parse_exponent :: "string \<Rightarrow> int option" where
  "parse_exponent s =
     (let (neg, ds) = (case s of c # cs \<Rightarrow> if c = CHR ''-'' then (True, cs) else if c = CHR ''+'' then (False, cs) else (False, s)
                       | [] \<Rightarrow> (False, []))
      in if ds \<noteq> [] \<and> list_all (is_digit 10) ds
         then Some (if neg then - int (digits_val 10 ds) else int (digits_val 10 ds)) else None)"

text \<open>An unsigned decimal literal: its digits as an integer and the power of ten it is scaled by.\<close>

definition parse_decimal :: "string \<Rightarrow> (nat \<times> int) option" where
  "parse_decimal s =
     (let ip = takeWhile (is_digit 10) s; r = dropWhile (is_digit 10) s;
          dot = (r \<noteq> [] \<and> hd r = CHR ''.'');
          fp = (if dot then takeWhile (is_digit 10) (tl r) else []);
          r' = (if dot then dropWhile (is_digit 10) (tl r) else r)
      in if ip @ fp = [] then None
         else case r' of
                [] \<Rightarrow> Some (digits_val 10 (ip @ fp), - int (length fp))
              | c # e \<Rightarrow>
                  if c = CHR ''e'' \<or> c = CHR ''E''
                  then map_option (\<lambda>x. (digits_val 10 (ip @ fp), x - int (length fp))) (parse_exponent e)
                  else None)"

definition parse_f64 :: "string \<Rightarrow> f64 option" where
  "parse_f64 s =
     (let neg = (s \<noteq> [] \<and> hd s = CHR ''-''); t = (if s \<noteq> [] \<and> (hd s = CHR ''-'' \<or> hd s = CHR ''+'') then tl s else s)
      in case parse_decimal t of
           Some (n, e) \<Rightarrow> Some (round64 neg (of_nat n * 10 powi e))
         | None \<Rightarrow> parse_inf_nan neg t)"

text \<open>\<^verbatim>\<open>format!("{:.2}", x)\<close>: the exact value, rounded to hundredths.\<close>

fun format2 :: "f64 \<Rightarrow> string" where
  "format2 NaN = ''NaN''"
| "format2 (Infty neg) = (if neg then ''-inf'' else ''inf'')"
| "format2 (Fin neg q) =
     (let n = nat (round_half_even (q * 100))
      in (if neg then ''-'' else []) @ show_nat (n div 100) @ ''.'' @
         [digit_char (n mod 100 div 10), digit_char (n mod 10)])"

subsection \<open>Lemmas\<close>

lemma round_half_even_int [simp]: "round_half_even (of_int i) = i"
  by (simp add: round_half_even_def)

lemma round_half_even_eq:
  assumes "\<bar>q - of_int m\<bar> < 1 / 2 \<or> even m \<and> \<bar>q - of_int m\<bar> = 1 / 2"
  shows "round_half_even q = m"
proof (cases "of_int m \<le> q")
  case True
  then have "\<lfloor>q\<rfloor> = m" using assms by (intro floor_unique) auto
  then show ?thesis using assms True by (auto simp: round_half_even_def)
next
  case False
  then have "\<lfloor>q\<rfloor> = m - 1" using assms by (intro floor_unique) auto
  then show ?thesis using assms False by (auto simp: round_half_even_def Let_def)
qed

lemma round_half_even_near: "\<bar>of_int (round_half_even q) - q\<bar> \<le> 1 / 2"
  using floor_correct [of q] by (auto simp: round_half_even_def Let_def)

lemma round_half_even_nonneg: "0 \<le> q \<Longrightarrow> 0 \<le> round_half_even q"
  by (simp add: round_half_even_def Let_def)

lemma bit_len_bounds: "0 < n \<Longrightarrow> 2 ^ bit_len n \<le> 2 * n \<and> n < 2 ^ bit_len n"
proof (induction n rule: bit_len.induct)
  case (1 n)
  show ?case
  proof (cases "n div 2 = 0")
    case True
    then have "n = 1" using 1(2) by (simp add: div_eq_0_iff)
    then show ?thesis by (simp add: bit_len.simps)
  next
    case False
    then show ?thesis using 1 by (subst (1 2) bit_len.simps) auto
  qed
qed

lemma ilog2_bounds:
  assumes "0 < q"
  shows "2 powi ilog2 q \<le> q \<and> q < 2 powi (ilog2 q + 1)"
proof -
  obtain a b where ab: "quotient_of q = (a, b)" by fastforce
  have b: "0 < b" using quotient_of_denom_pos [OF ab] .
  have q: "q = of_int a / of_int b" using quotient_of_div [OF ab] .
  have a: "0 < a" using assms b by (simp add: q zero_less_divide_iff)
  define la lb where l: "la = bit_len (nat a)" "lb = bit_len (nat b)"
  have na: "2 ^ la \<le> 2 * nat a" "nat a < 2 ^ la" and nb: "2 ^ lb \<le> 2 * nat b" "nat b < 2 ^ lb"
    using bit_len_bounds [of "nat a"] bit_len_bounds [of "nat b"] a b by (auto simp: l)
  have A: "(2::rat) ^ la \<le> 2 * of_int a" "of_int a < (2::rat) ^ la"
    using na a of_nat_mono [OF na(1), where 'a = rat] of_nat_less_iff [of "nat a" "2 ^ la", where 'a = rat]
    by simp_all
  have B: "(2::rat) ^ lb \<le> 2 * of_int b" "of_int b < (2::rat) ^ lb"
    using nb b of_nat_mono [OF nb(1), where 'a = rat] of_nat_less_iff [of "nat b" "2 ^ lb", where 'a = rat]
    by simp_all
  define k where "k = int la - int lb"
  have k: "(2::rat) powi k = 2 ^ la / 2 ^ lb" by (simp add: k_def power_int_diff)
  have up: "q < 2 powi (k + 1)"
  proof -
    have "of_int a * 2 ^ lb < 2 ^ la * (2 * of_int b :: rat)"
      using A(2) B(1) b a by (intro mult_less_le_imp_less) auto
    then show ?thesis using b by (simp add: q k power_int_add field_simps)
  qed
  have low: "2 powi (k - 1) \<le> q"
  proof -
    have "2 ^ la * of_int b \<le> 2 * of_int a * (2 ^ lb :: rat)"
      using A(1) B(2) a b by (intro mult_mono) auto
    then show ?thesis using b by (simp add: q k power_int_diff field_simps)
  qed
  have "ilog2 q = (if 2 powi k \<le> q then k else k - 1)" by (simp add: ilog2_def ab l k_def Let_def)
  then show ?thesis using up low by auto
qed

text \<open>A number with at most 53 significant bits is representable.\<close>

lemma round64_exact:
  assumes q: "q = of_nat m * 2 powi e" and m: "m < 2 ^ 53" and e: "- 1074 \<le> e" and "q < 2 ^ 1024"
  shows "round64 neg q = Fin neg q"
proof (cases "m = 0")
  case False
  have pos: "0 < q" using False by (simp add: q)
  have "(2::rat) powi ilog2 q < 2 powi (e + 53)"
  proof -
    have "(of_nat m :: rat) < 2 ^ 53" using of_nat_less_iff [of m "2 ^ 53", where 'a = rat] m by simp
    then have "q < 2 ^ 53 * 2 powi e" by (simp add: q)
    also have "\<dots> = 2 powi (e + 53)" by (simp add: power_int_add)
    finally show ?thesis using ilog2_bounds [OF pos] by linarith
  qed
  then have "ilog2 q < e + 53"
    using power_int_increasing [of "e + 53" "ilog2 q" "2 :: rat"] by (meson linorder_not_less one_le_numeral)
  then have le: "exponent q \<le> e" using e by (simp add: exponent_def)
  define d where "d = nat (e - exponent q)"
  have "q / 2 powi exponent q = of_nat m * 2 powi (e - exponent q)" by (simp add: q power_int_diff)
  also have "\<dots> = of_int (int m * 2 ^ d)" using le by (simp add: d_def power_int_def)
  finally have i: "q / 2 powi exponent q = of_int (int m * 2 ^ d)" .
  have "of_int (round_half_even (q / 2 powi exponent q)) * 2 powi exponent q = q"
    unfolding i round_half_even_int unfolding i [symmetric] by simp
  then show ?thesis unfolding round64_def Let_def using pos assms(4) by (simp only: if_False) auto
qed (simp add: q round64_def)

text \<open>What a positive number is rounded to, from its binade.\<close>

lemma ilog2_eq:
  assumes "2 powi k \<le> q" "q < 2 powi (k + 1)"
  shows "ilog2 q = k"
proof -
  have pos: "0 < q" using assms(1) by (rule less_le_trans [rotated]) simp
  have "(2::rat) powi ilog2 q < 2 powi (k + 1)" "(2::rat) powi k < 2 powi (ilog2 q + 1)"
    using ilog2_bounds [OF pos] assms by linarith+
  then have "ilog2 q < k + 1" "k < ilog2 q + 1"
    using power_int_increasing [of "k + 1" "ilog2 q" "2 :: rat"] power_int_increasing [of "ilog2 q + 1" k "2 :: rat"]
    by (meson linorder_not_less one_le_numeral)+
  then show ?thesis by simp
qed

lemma round64_eq:
  assumes "2 powi (e + 52) \<le> q" "q < 2 powi (e + 53)" "- 1074 \<le> e" "round_half_even (q / 2 powi e) = m"
    and "m \<le> 2 ^ 53" "e < 971"
  shows "round64 neg q = Fin neg (of_int m * 2 powi e)"
proof -
  have "ilog2 q = e + 52" using assms(1,2) by (intro ilog2_eq) (simp_all add: ac_simps)
  then have e: "exponent q = e" using assms(3) by (simp add: exponent_def)
  have "(0::rat) < 2 powi (e + 52)" by simp
  then have "q \<noteq> 0" using assms(1) by linarith
  have "of_int m \<le> (2::rat) ^ 53" using of_int_le_iff [of m "2 ^ 53", where 'a = rat] assms(5) by simp
  then have "of_int m * 2 powi e \<le> (2::rat) ^ 53 * 2 powi e" by (intro mult_right_mono) simp_all
  also have "\<dots> = 2 powi (e + 53)" by (simp add: power_int_add)
  also have "\<dots> < 2 powi 1024" using assms(6) by (intro power_int_strict_increasing) simp_all
  finally have "\<not> (2::rat) ^ 1024 \<le> of_int m * 2 powi e" by (simp add: power_int_def not_le)
  then show ?thesis using \<open>q \<noteq> 0\<close> by (simp only: round64_def e assms(4) Let_def if_False)
qed

lemma round64_scaled:
  assumes "2 ^ 52 \<le> q * 2 ^ k" "q * 2 ^ k < 2 ^ 53" "k \<le> 1074" "round_half_even (q * 2 ^ k) = m" "m \<le> 2 ^ 53"
  shows "round64 neg q = Fin neg (of_int m / 2 ^ k)"
proof -
  have p: "(2::rat) powi (- int k) = inverse (2 ^ k)" by (simp add: power_int_minus)
  have p2: "(2::rat) powi (52 - int k) = 2 ^ 52 / 2 ^ k" "(2::rat) powi (53 - int k) = 2 ^ 53 / 2 ^ k"
    by (simp_all add: power_int_diff)
  have "round64 neg q = Fin neg (of_int m * 2 powi (- int k))"
    using assms by (intro round64_eq) (simp_all add: p p2 field_simps)
  then show ?thesis by (simp add: p divide_inverse)
qed

text \<open>Rounding a positive number moves it by at most half a unit in the last place.\<close>

lemma round64_near:
  assumes "0 < q" "round64 neg q = Fin s r"
  shows "\<bar>r - q\<bar> \<le> 2 powi exponent q / 2"
proof -
  define u where "u = (2::rat) powi exponent q"
  have u: "0 < u" by (simp add: u_def)
  have r: "r = of_int (round_half_even (q / u)) * u"
    using assms by (auto simp: round64_def u_def Let_def split: if_splits)
  then have "\<bar>r - q\<bar> = \<bar>of_int (round_half_even (q / u)) - q / u\<bar> * u"
    using u by (simp add: abs_mult field_simps)
  also have "\<dots> \<le> 1 / 2 * u" using round_half_even_near [of "q / u"] u by (intro mult_right_mono) auto
  finally show ?thesis by (simp add: u_def)
qed

text \<open>Below \<open>2 ^ 30\<close> that is at most \<open>2 ^ -24\<close>, and the result is finite.\<close>

lemma round64_below:
  assumes "0 \<le> q" "q < 2 ^ 30"
  obtains r where "round64 neg q = Fin neg r" "0 \<le> r" "\<bar>r - q\<bar> \<le> 1 / 2 ^ 24"
proof (cases "q = 0")
  case True
  then show ?thesis using that [of 0] by (simp add: round64_def)
next
  case False
  then have pos: "0 < q" using assms(1) by simp
  have "(2::rat) powi ilog2 q < 2 powi 30" using ilog2_bounds [OF pos] assms(2) by simp
  then have "ilog2 q < 30"
    using power_int_increasing [of 30 "ilog2 q" "2 :: rat"] by (meson linorder_not_less one_le_numeral)
  then have "exponent q \<le> - 23" by (simp add: exponent_def)
  then have "(2::rat) powi exponent q \<le> 2 powi (- 23)" by (intro power_int_increasing) simp_all
  also have "(2::rat) powi (- 23) = 1 / 2 ^ 23"
    using power_int_minus [of "2 :: rat" 23] by (simp only: power_int_numeral inverse_eq_divide)
  finally have u: "(2::rat) powi exponent q \<le> 1 / 2 ^ 23" .
  define r where "r = of_int (round_half_even (q / 2 powi exponent q)) * (2::rat) powi exponent q"
  define w where "w = (2::rat) powi exponent q"
  have w: "0 < w" by (simp add: w_def)
  have r: "r = of_int (round_half_even (q / w)) * w" by (simp add: r_def w_def)
  have "\<bar>r - q\<bar> = \<bar>of_int (round_half_even (q / w)) - q / w\<bar> * w" using w by (simp add: r abs_mult field_simps)
  also have "\<dots> \<le> 1 / 2 * w" using round_half_even_near [of "q / w"] w by (intro mult_right_mono) auto
  also have "\<dots> \<le> 1 / 2 * (1 / 2 ^ 23)" using u unfolding w_def by (intro mult_left_mono) simp_all
  finally have near: "\<bar>r - q\<bar> \<le> 1 / 2 ^ 24" by simp
  then have "r \<le> q + 1 / 2 ^ 24" by linarith
  then have "r < 2 ^ 30 + 1" using assms(2) by simp
  also have "\<dots> \<le> (2::rat) ^ 31" by simp
  also have "\<dots> \<le> 2 ^ 1024" by (rule power_increasing) simp_all
  finally have small: "r < 2 ^ 1024" .
  have "0 \<le> r" using round_half_even_nonneg [of "q / w"] pos w by (simp add: r)
  moreover have "round64 neg q = Fin neg r"
    using False small by (simp only: round64_def Let_def r_def [symmetric] if_False) (simp add: not_le)
  ultimately show ?thesis using that near by blast
qed

text \<open>What is printed with two decimals, in hundredths.\<close>

lemma format2_near:
  assumes "0 \<le> q"
  obtains n where "format2 (Fin False q) = show_nat (n div 100) @ ''.'' @ [digit_char (n mod 100 div 10), digit_char (n mod 10)]"
    "\<bar>of_nat n - q * 100\<bar> \<le> 1 / 2"
proof -
  have "0 \<le> round_half_even (q * 100)" using assms by (intro round_half_even_nonneg) simp
  then have "\<bar>of_nat (nat (round_half_even (q * 100))) - q * 100\<bar> \<le> 1 / 2"
    using round_half_even_near [of "q * 100"] by simp
  then show ?thesis using that [of "nat (round_half_even (q * 100))"] by (simp add: Let_def)
qed

text \<open>Well-formed numbers carry their sign in the flag; parsing yields only such numbers.\<close>

fun f64_wf :: "f64 \<Rightarrow> bool" where
  "f64_wf (Fin _ q) = (0 \<le> q)"
| "f64_wf _ = True"

lemma round64_wf: "0 \<le> q \<Longrightarrow> f64_wf (round64 neg q)"
  unfolding round64_def Let_def using round_half_even_nonneg [of "q / 2 powi exponent q"] by auto

lemma parse_f64_wf: "parse_f64 s = Some v \<Longrightarrow> f64_wf v"
  by (auto simp: parse_f64_def parse_inf_nan_def Let_def round64_wf split: option.splits if_splits)

lemma f64_max_one:
  assumes "f64_wf v"
  shows "f64_max v (Fin False 1) = Infty False \<or> (\<exists>q \<ge> 1. f64_max v (Fin False 1) = Fin False q)"
  using assms by (cases v) (auto simp: f64_max_def with_sign_def)

lemma round64_nat: "n < 2 ^ 53 \<Longrightarrow> round64 neg (of_nat n) = Fin neg (of_nat n)"
proof -
  assume n: "n < 2 ^ 53"
  have "(of_nat n :: rat) < 2 ^ 53" using of_nat_less_iff [of n "2 ^ 53", where 'a = rat] n by simp
  also have "\<dots> \<le> 2 ^ 1024" by (rule power_increasing) simp_all
  finally show ?thesis using round64_exact [of "of_nat n" n 0] n by simp
qed

text \<open>Scaling a small integer down by a power of two is exact.\<close>

lemma round64_scaled_nat:
  assumes n: "n < 2 ^ 53" and k: "k \<le> 1074"
  shows "round64 neg (of_nat n / 2 ^ k) = Fin neg (of_nat n / 2 ^ k)"
proof -
  have "(of_nat n :: rat) < 2 ^ 53" using of_nat_less_iff [of n "2 ^ 53", where 'a = rat] n by simp
  moreover have "of_nat n / 2 ^ k \<le> (of_nat n :: rat)"
    using mult_left_mono [of 1 "2 ^ k" "of_nat n :: rat"] by (simp add: divide_le_eq)
  moreover have "(2::rat) ^ 53 \<le> 2 ^ 1024" by (rule power_increasing) simp_all
  ultimately have "of_nat n / 2 ^ k < (2::rat) ^ 1024" by linarith
  then show ?thesis
    using round64_exact [of "of_nat n / 2 ^ k" n "- int k"] n k by (simp add: power_int_minus divide_inverse)
qed

lemma parse_decimal_show: "parse_decimal (show_nat n) = Some (n, 0)"
proof -
  have "list_all (is_digit 10) (show_nat n)" using show_radix_digits [of 10 n] by (simp add: list_all_iff)
  then have "takeWhile (is_digit 10) (show_nat n) = show_nat n" and "dropWhile (is_digit 10) (show_nat n) = []"
    by (simp_all add: list_all_iff)
  then show ?thesis unfolding parse_decimal_def Let_def by (simp only:) (simp add: digits_val_show_radix)
qed

text \<open>A decimal integer below \<open>2 ^ 53\<close> is parsed exactly.\<close>

lemma parse_f64_show: "n < 2 ^ 53 \<Longrightarrow> parse_f64 (show_nat n) = Some (Fin False (of_nat n))"
proof -
  assume n: "n < 2 ^ 53"
  have hd: "is_digit 10 (hd (show_nat n))" by (rule show_nat_hd_digit)
  have sign: "hd (show_nat n) \<noteq> CHR ''-''" "hd (show_nat n) \<noteq> CHR ''+''"
    using hd plus_not_digit minus_not_digit by auto
  have "round64 False (of_nat n) = Fin False (of_nat n)" using n by (rule round64_nat)
  then show ?thesis using sign by (simp add: parse_f64_def parse_decimal_show)
qed

end
