(* ===== verification/HostIps.thy ===== *)
theory HostIps
  imports Text Net
begin

text \<open>
  \<^verbatim>\<open>get_all_ips\<close> of \<^verbatim>\<open>src/protocols/commands/online.rs\<close>: the IPv4 addresses of the
  host, read from the output of \<^verbatim>\<open>ip addr show\<close>, which is the argument (none when the
  command cannot be run). Shown: what is listed, and that the addresses of an interface
  as the tool prints it are found.
\<close>

subsection \<open>Lines\<close>

text \<open>\<^verbatim>\<open>str::lines\<close>: no line after the last line end, a carriage return before a line end is dropped.\<close>

definition strip_cr :: "string \<Rightarrow> string" where
  "strip_cr l = (if l \<noteq> [] \<and> last l = CHR 0x0D then butlast l else l)"

definition str_lines :: "string \<Rightarrow> string list" where
  "str_lines s =
     (let ls = split_on (CHR 0x0A) s
      in map strip_cr (butlast ls) @ (if last ls = [] then [] else [last ls]))"

definition begins :: "string \<Rightarrow> string \<Rightarrow> bool" where
  "begins p s \<longleftrightarrow> take (length p) s = p"

definition begins_ws :: "string \<Rightarrow> bool" where
  "begins_ws s = (case utf8_chars s of [] \<Rightarrow> False | p # _ \<Rightarrow> is_ws p)"

subsection \<open>Addresses\<close>

definition virtual_prefixes :: "string list" where
  "virtual_prefixes = [''docker'', ''virbr'', ''veth'', ''br-'', ''lo'']"

definition iface_name :: "string \<Rightarrow> string" where
  "iface_name line = (case split_on (CHR '':'') line of _ # n # _ \<Rightarrow> trim n | _ \<Rightarrow> [])"

definition parse_ipv4 :: "string \<Rightarrow> ipv4 option" where
  "parse_ipv4 = parse_all read_ipv4"

text \<open>The address of an \<^verbatim>\<open>inet\<close> line, with its text.\<close>

definition inet_ip :: "string \<Rightarrow> (string \<times> ipv4) option" where
  "inet_ip line =
     (if begins ''inet '' (trim line)
      then (case split_whitespace (trim line) of
              _ # ip_with_mask # _ \<Rightarrow>
                (let ip_str = hd (split_on (CHR ''/'') ip_with_mask)
                 in case parse_ipv4 ip_str of
                      Some ip \<Rightarrow>
                        if is_loopback (V4 ip) \<or> begins ''169.254'' ip_str then None else Some (ip_str, ip)
                    | None \<Rightarrow> None)
            | _ \<Rightarrow> None)
      else None)"

fun scan_ips :: "string \<Rightarrow> string list \<Rightarrow> string list \<times> string list" where
  "scan_ips iface [] = ([], [])"
| "scan_ips iface (line # ls) =
     (let iface' = (if begins_ws line then iface else iface_name line);
          (inner, wan) = scan_ips iface' ls
      in if list_ex (\<lambda>p. begins p iface') virtual_prefixes then (inner, wan)
         else (case inet_ip line of
                 None \<Rightarrow> (inner, wan)
               | Some (s, ip) \<Rightarrow> if v4_is_private ip then (s # inner, wan) else (inner, s # wan)))"

definition get_all_ips :: "bytes option \<Rightarrow> string list \<times> string list" where
  "get_all_ips stdout =
     (case Option.bind stdout string_from_utf8 of
        Some s \<Rightarrow> scan_ips [] (str_lines s)
      | None \<Rightarrow> ([], []))"

subsection \<open>Lemmas\<close>

lemma inet_ip_valid:
  "inet_ip line = Some (s, ip) \<Longrightarrow> parse_ipv4 s = Some ip \<and> \<not> is_loopback (V4 ip)"
  by (auto simp: inet_ip_def Let_def split: if_splits list.splits option.splits)

abbreviation virtual :: "string \<Rightarrow> bool" where
  "virtual iface \<equiv> list_ex (\<lambda>p. begins p iface) virtual_prefixes"

text \<open>
  The output by interface: a block is a line that does not begin with white space and the
  indented lines below it. An address counts when the interface of its block is not virtual.
\<close>

definition block_ips :: "string \<times> string list \<Rightarrow> (string \<times> ipv4) list" where
  "block_ips b = (if virtual (iface_name (fst b)) then [] else List.map_filter inet_ip (fst b # snd b))"

abbreviation by_scope :: "(string \<times> ipv4) list \<Rightarrow> string list \<times> string list" where
  "by_scope xs \<equiv> (map fst (filter (\<lambda>x. v4_is_private (snd x)) xs), map fst (filter (\<lambda>x. \<not> v4_is_private (snd x)) xs))"

lemma scan_indented:
  assumes "list_all begins_ws ls" "scan_ips iface rest = by_scope ys"
  shows "scan_ips iface (ls @ rest) = by_scope ((if virtual iface then [] else List.map_filter inet_ip ls) @ ys)"
  using assms(1)
  by (induction ls) (auto simp: assms(2) map_filter_simps Let_def split: option.splits)

lemma scan_blocks:
  assumes "list_all (\<lambda>b. \<not> begins_ws (fst b) \<and> list_all begins_ws (snd b)) bs"
  shows "scan_ips iface (concat (map (\<lambda>b. fst b # snd b) bs)) = by_scope (concat (map block_ips bs))"
  using assms
proof (induction bs arbitrary: iface)
  case (Cons b bs)
  have "scan_ips (iface_name (fst b)) (snd b @ concat (map (\<lambda>b. fst b # snd b) bs)) =
    by_scope ((if virtual (iface_name (fst b)) then [] else List.map_filter inet_ip (snd b)) @ concat (map block_ips bs))"
    using Cons.prems by (intro scan_indented Cons.IH) simp_all
  then show ?case
    using Cons.prems by (auto simp: block_ips_def [of b] map_filter_simps Let_def split: option.splits)
qed simp

lemma block_ips_valid:
  "x \<in> set (block_ips b) \<Longrightarrow> parse_ipv4 (fst x) = Some (snd x) \<and> \<not> is_loopback (V4 (snd x))"
  by (cases x) (auto simp: block_ips_def map_filter_def dest: inet_ip_valid split: if_splits)

subsection \<open>Properties\<close>

text \<open>
  The host addresses. When the tool's output consists of interface blocks, the addresses
  listed are exactly those of the \<^verbatim>\<open>inet\<close> lines of the interfaces that are not virtual, in
  order, the private ones apart from the others; each is a valid IPv4 address and none is
  a loopback address.
\<close>

theorem host_ips_by_interface:
  assumes "string_from_utf8 stdout = Some s" "str_lines s = concat (map (\<lambda>b. fst b # snd b) bs)"
    and "list_all (\<lambda>b. \<not> begins_ws (fst b) \<and> list_all begins_ws (snd b)) bs"
  shows "get_all_ips (Some stdout) =
      (map fst (filter (\<lambda>x. v4_is_private (snd x)) (concat (map block_ips bs))),
       map fst (filter (\<lambda>x. \<not> v4_is_private (snd x)) (concat (map block_ips bs)))) \<and>
    list_all (\<lambda>x. parse_ipv4 (fst x) = Some (snd x) \<and> \<not> is_loopback (V4 (snd x))) (concat (map block_ips bs))"
  using scan_blocks [OF assms(3)]
  by (auto simp: get_all_ips_def assms(1,2) list_all_iff dest: block_ips_valid)

definition demo_ip_out :: string where
  "demo_ip_out =
     ''1: lo: <LOOPBACK>'' @ [CHR 0x0A] @ ''    inet 127.0.0.1/8 scope host lo'' @ [CHR 0x0A] @
     ''2: eth0: <UP>'' @ [CHR 0x0A] @ ''    inet 10.0.0.5/24 scope global eth0'' @ [CHR 0x0A] @
     ''    inet 8.8.4.4/24 scope global eth0'' @ [CHR 0x0A] @
     ''3: docker0: <UP>'' @ [CHR 0x0A] @ ''    inet 172.17.0.1/16 scope global docker0'' @ [CHR 0x0A]"

definition demo_blocks :: "(string \<times> string list) list" where
  "demo_blocks =
     [(''1: lo: <LOOPBACK>'', [''    inet 127.0.0.1/8 scope host lo'']),
      (''2: eth0: <UP>'', [''    inet 10.0.0.5/24 scope global eth0'', ''    inet 8.8.4.4/24 scope global eth0'']),
      (''3: docker0: <UP>'', [''    inet 172.17.0.1/16 scope global docker0''])]"

text \<open>A host with a loopback, an ethernet and a bridge interface.\<close>

lemma host_ips_by_interface_witness:
  "get_all_ips (Some (as_bytes demo_ip_out)) = ([''10.0.0.5''], [''8.8.4.4''])"
proof -
  have "string_from_utf8 (as_bytes demo_ip_out) = Some demo_ip_out"
    by (rule ascii_valid) code_simp
  moreover have "str_lines demo_ip_out = concat (map (\<lambda>b. fst b # snd b) demo_blocks)" by code_simp
  moreover have "list_all (\<lambda>b. \<not> begins_ws (fst b) \<and> list_all begins_ws (snd b)) demo_blocks" by code_simp
  moreover have "concat (map block_ips demo_blocks) =
    [(''10.0.0.5'', Ipv4 10 0 0 5), (''8.8.4.4'', Ipv4 8 8 4 4)]" by code_simp
  ultimately show ?thesis
    using host_ips_by_interface [of "as_bytes demo_ip_out" demo_ip_out demo_blocks] by simp
qed

end
