(* ===== verification/Detect.thy ===== *)
theory Detect
  imports Float64 HostIps
begin

text \<open>
  The resources of the host as \<^verbatim>\<open>src/web/templates.rs\<close> detects them for its pages: disk space from
  the output of \<^verbatim>\<open>df\<close>, memory from \<^verbatim>\<open>/proc/meminfo\<close>, processors and their clock from
  \<^verbatim>\<open>/proc/cpuinfo\<close>. The texts are arguments, none when the command or file cannot be read. Shown:
  what is reported when nothing can be read, bounds on what is reported otherwise, and that the
  memory is reported exactly.
\<close>

abbreviation f64_lit :: "nat \<Rightarrow> f64" where
  "f64_lit n \<equiv> Fin False (of_nat n)"

record resource_info =
  ri_storage_tb :: f64
  ri_storage_weight :: string
  ri_bandwidth_gbps :: f64
  ri_bandwidth_weight :: string
  ri_cpu_cores :: u64
  ri_cpu_ghz :: f64
  ri_cpu_weight :: string
  ri_memory_gb :: f64
  ri_memory_weight :: string
  ri_api_requests :: u64
  ri_api_weight :: string
  ri_composite_weight :: string

definition resource_info_default :: resource_info where
  "resource_info_default =
     \<lparr>ri_storage_tb = f64_lit 1, ri_storage_weight = ''1.00'', ri_bandwidth_gbps = f64_lit 1,
      ri_bandwidth_weight = ''1.00'', ri_cpu_cores = 4, ri_cpu_ghz = f64_lit 2, ri_cpu_weight = ''0.80'',
      ri_memory_gb = f64_lit 8, ri_memory_weight = ''0.80'', ri_api_requests = 1000, ri_api_weight = ''1.00'',
      ri_composite_weight = ''4.60''\<rparr>"

subsection \<open>Detection\<close>

text \<open>A loop over lines that returns from its first useful line.\<close>

fun first_found :: "('a \<Rightarrow> 'b option) \<Rightarrow> 'a list \<Rightarrow> 'b option" where
  "first_found f [] = None"
| "first_found f (x # xs) = (case f x of Some y \<Rightarrow> Some y | None \<Rightarrow> first_found f xs)"

definition trim_end_char :: "char \<Rightarrow> string \<Rightarrow> string" where
  "trim_end_char c s = rev (dropWhile (\<lambda>d. d = c) (rev s))"

definition storage_line :: "string \<Rightarrow> f64 option" where
  "storage_line line =
     (let parts = split_whitespace line
      in if 6 \<le> length parts
         then map_option (\<lambda>size. f64_max size (f64_lit 1)) (parse_f64 (trim_end_char (CHR ''T'') (trim (parts ! 3))))
         else None)"

definition detect_storage_tb :: "string option \<Rightarrow> f64" where
  "detect_storage_tb df =
     (case df of
        None \<Rightarrow> f64_lit 1
      | Some out \<Rightarrow> (case first_found storage_line (drop 1 (str_lines out)) of Some t \<Rightarrow> t | None \<Rightarrow> f64_lit 1))"

definition memory_line :: "string \<Rightarrow> f64 option" where
  "memory_line line =
     (if begins ''MemTotal:'' line
      then (case split_whitespace line of
              _ # kb # _ \<Rightarrow>
                map_option (\<lambda>kb_val. f64_div (f64_div kb_val (f64_lit 1024)) (f64_lit 1024)) (parse_f64 kb)
            | _ \<Rightarrow> None)
      else None)"

definition detect_memory_gb :: "string option \<Rightarrow> f64" where
  "detect_memory_gb meminfo =
     (case meminfo of
        None \<Rightarrow> f64_lit 8
      | Some content \<Rightarrow> (case first_found memory_line (str_lines content) of Some m \<Rightarrow> m | None \<Rightarrow> f64_lit 8))"

definition detect_cpu_cores :: "string option \<Rightarrow> u64" where
  "detect_cpu_cores cpuinfo =
     (case cpuinfo of
        None \<Rightarrow> 4
      | Some content \<Rightarrow>
          (let count = word_of_nat (length (filter (begins ''processor'') (str_lines content)))
           in if 0 < count then count else 4))"

definition clock_line :: "string \<Rightarrow> f64 option" where
  "clock_line line =
     (if begins ''cpu MHz'' line
      then (case split_on (CHR '':'') line of
              _ # mhz # _ \<Rightarrow> map_option (\<lambda>mhz_val. f64_div mhz_val (f64_lit 1000)) (parse_f64 (trim mhz))
            | _ \<Rightarrow> None)
      else None)"

definition detect_cpu_ghz :: "string option \<Rightarrow> f64" where
  "detect_cpu_ghz cpuinfo =
     (case cpuinfo of
        None \<Rightarrow> f64_lit 2
      | Some content \<Rightarrow> (case first_found clock_line (str_lines content) of Some g \<Rightarrow> g | None \<Rightarrow> f64_lit 2))"

definition detect :: "string option \<Rightarrow> string option \<Rightarrow> string option \<Rightarrow> resource_info" where
  "detect df meminfo cpuinfo =
     (let cpu_cores = detect_cpu_cores cpuinfo; memory_gb = detect_memory_gb meminfo;
          storage_tb = detect_storage_tb df; cpu_ghz = detect_cpu_ghz cpuinfo;
          cpu_w = f64_div (f64_mul (f64_of_u64 cpu_cores) cpu_ghz) (f64_lit 10);
          memory_w = f64_div memory_gb (f64_lit 10)
      in \<lparr>ri_storage_tb = storage_tb, ri_storage_weight = format2 storage_tb, ri_bandwidth_gbps = f64_lit 1,
          ri_bandwidth_weight = format2 (f64_lit 1), ri_cpu_cores = cpu_cores, ri_cpu_ghz = cpu_ghz,
          ri_cpu_weight = format2 cpu_w, ri_memory_gb = memory_gb, ri_memory_weight = format2 memory_w,
          ri_api_requests = 1000, ri_api_weight = format2 (f64_div (f64_lit 1000) (f64_lit 1000)),
          ri_composite_weight =
            format2 (f64_add (f64_add (f64_add (f64_add storage_tb (f64_lit 1)) cpu_w) memory_w) (f64_lit 1))\<rparr>)"

subsection \<open>Lemmas\<close>

text \<open>The roundings behind the default weights: eight tenths, and the sums with it.\<close>

lemma default_roundings:
  "round64 neg (4 / 5) = Fin neg (3602879701896397 / 4503599627370496)"
  "round64 neg (12610078956637389 / 4503599627370496) = Fin neg (3152519739159347 / 1125899906842624)"
  "round64 neg (16212958658533785 / 4503599627370496) = Fin neg (2026619832316723 / 562949953421312)"
  "round64 neg (2589569785738035 / 562949953421312) = Fin neg (2589569785738035 / 562949953421312)"
  using round64_scaled [of "4 / 5" 53 7205759403792794 neg]
    round64_scaled [of "12610078956637389 / 4503599627370496" 51 6305039478318694 neg]
    round64_scaled [of "16212958658533785 / 4503599627370496" 51 8106479329266892 neg]
    round64_scaled [of "2589569785738035 / 562949953421312" 50 5179139571476070 neg]
  by (simp_all add: round_half_even_eq)

lemma default_digits:
  "digit_char 0 = CHR ''0''" "digit_char (Suc 0) = CHR ''1''" "digit_char 4 = CHR ''4''" "digit_char 6 = CHR ''6''"
  "digit_char 8 = CHR ''8''"
  by code_simp+

lemma first_found_cases:
  "first_found f xs = None \<or> (\<exists>x \<in> set xs. first_found f xs = f x \<and> f x \<noteq> None)"
  by (induction xs) (auto split: option.split)

lemma first_found_find:
  "find P xs = Some x \<Longrightarrow> (\<And>y. f y \<noteq> None \<Longrightarrow> P y) \<Longrightarrow> f x \<noteq> None \<Longrightarrow> first_found f xs = f x"
proof (induction xs)
  case (Cons y ys)
  then show ?case by (cases "P y") (force split: option.split)+
qed simp

lemma memory_line_total: "memory_line l \<noteq> None \<Longrightarrow> begins ''MemTotal:'' l"
  by (simp add: memory_line_def split: if_splits)

lemma detect_storage_bounds:
  "detect_storage_tb df = Infty False \<or> (\<exists>q \<ge> 1. detect_storage_tb df = Fin False q)"
proof (cases df)
  case (Some out)
  have "storage_line l = Some v \<Longrightarrow> v = Infty False \<or> (\<exists>q \<ge> 1. v = Fin False q)" for l v
    using f64_max_one parse_f64_wf by (fastforce simp: storage_line_def Let_def split: if_splits)
  moreover have "detect_storage_tb df = Fin False 1 \<or> (\<exists>l. storage_line l = Some (detect_storage_tb df))"
    using first_found_cases [of storage_line "drop 1 (str_lines out)"]
    by (auto simp: detect_storage_tb_def Some split: option.split)
  ultimately show ?thesis by (metis order_refl)
qed (simp add: detect_storage_tb_def)

subsection \<open>Properties\<close>

text \<open>
  Nothing to read. When the command and the files are missing, the detected resources are the
  default resources, digit for digit.
\<close>

theorem detect_fallback: "detect None None None = resource_info_default"
proof -
  have "f64_of_u64 4 = f64_lit 4" using round64_nat [of 4] by (simp add: f64_of_u64_def)
  then have cpu: "f64_div (f64_mul (f64_of_u64 4) (f64_lit 2)) (f64_lit 10) = Fin False (3602879701896397 / 4503599627370496)"
    using round64_nat [of 8] by (simp add: default_roundings)
  have memory: "f64_div (f64_lit 8) (f64_lit 10) = Fin False (3602879701896397 / 4503599627370496)"
    by (simp add: default_roundings)
  have one: "f64_div (f64_lit 1000) (f64_lit 1000) = f64_lit 1" using round64_nat [of 1] by simp
  have "f64_add (f64_add (f64_add (f64_add (f64_lit 1) (f64_lit 1)) (Fin False (3602879701896397 / 4503599627370496)))
      (Fin False (3602879701896397 / 4503599627370496))) (f64_lit 1) = Fin False (2589569785738035 / 562949953421312)"
    using round64_nat [of 2] by (simp add: default_roundings with_sign_def)
  moreover have "format2 (f64_lit 1) = ''1.00''" "format2 (Fin False (3602879701896397 / 4503599627370496)) = ''0.80''"
    "format2 (Fin False (2589569785738035 / 562949953421312)) = ''4.60''"
    by (simp_all add: round_half_even_eq [where m = 100] round_half_even_eq [where m = 80] round_half_even_eq [where m = 460]
        show_radix.simps default_digits)
  ultimately show ?thesis
    by (simp only: detect_def detect_cpu_cores_def detect_memory_gb_def detect_storage_tb_def detect_cpu_ghz_def
        Let_def option.case cpu memory one resource_info_default_def)
qed

text \<open>
  Bounds. Whatever the command and the files contain, also text that parses to a NaN or a negative
  number, the disk space is a number that is at least one, it is printed as such, and at least one
  processor is reported.
\<close>

theorem detected_bounds:
  "(ri_storage_tb (detect df meminfo cpuinfo) = Infty False \<or>
     (\<exists>q \<ge> 1. ri_storage_tb (detect df meminfo cpuinfo) = Fin False q)) \<and>
   ri_storage_weight (detect df meminfo cpuinfo) \<noteq> ''NaN'' \<and>
   0 < ri_cpu_cores (detect df meminfo cpuinfo)"
proof -
  have dot: "CHR ''.'' \<in> set (format2 (Fin False q))" for q by (simp add: Let_def)
  have "format2 (Fin False q) \<noteq> ''NaN''" for q
  proof
    assume "format2 (Fin False q) = ''NaN''"
    then show False using dot [of q] by simp
  qed
  then show ?thesis
    using detect_storage_bounds [of df]
    by (auto simp: detect_def Let_def detect_cpu_cores_def split: option.split)
qed

text \<open>
  C40. The memory the pages show. When the first line of \<^verbatim>\<open>/proc/meminfo\<close> for the total names a
  decimal number of kilobytes below \<open>2 ^ 53\<close>, the detected gigabytes \<^verbatim>\<open>memory_gb\<close> are that number over
  \<open>2 ^ 20\<close>, with no rounding; the text \<^verbatim>\<open>memory_weight\<close>, which the pages print before the unit GB, is a
  number with two decimals that differs from a tenth of these gigabytes by less than 0.0051.
\<close>

theorem memory_shown:
  assumes "find (begins ''MemTotal:'') (str_lines content) = Some line"
    and "split_whitespace line = label # show_nat kb # rest" and "kb < 2 ^ 53"
  shows "ri_memory_gb (detect df (Some content) cpuinfo) = Fin False (of_nat kb / 2 ^ 20) \<and>
    (\<exists>n. ri_memory_weight (detect df (Some content) cpuinfo) =
           show_nat (n div 100) @ ''.'' @ [digit_char (n mod 100 div 10), digit_char (n mod 10)] \<and>
         \<bar>of_nat n / 100 - of_nat kb / 2 ^ 20 / (10 :: rat)\<bar> < 51 / 10000)"
proof -
  have "begins ''MemTotal:'' line" using find_Some_iff [of "begins ''MemTotal:''"] assms(1) by auto
  moreover have "round64 False (of_nat kb / 1024) = Fin False (of_nat kb / 1024)"
    "round64 False (of_nat kb / 1048576) = Fin False (of_nat kb / 1048576)"
    using round64_scaled_nat [OF assms(3), of 10] round64_scaled_nat [OF assms(3), of 20] by simp_all
  ultimately have line: "memory_line line = Some (Fin False (of_nat kb / 2 ^ 20))"
    using assms(2,3) by (simp add: memory_line_def parse_f64_show)
  then have "first_found memory_line (str_lines content) = Some (Fin False (of_nat kb / 2 ^ 20))"
    using first_found_find [OF assms(1), of memory_line] memory_line_total by (metis option.distinct(1))
  then have gb: "detect_memory_gb (Some content) = Fin False (of_nat kb / 2 ^ 20)" by (simp add: detect_memory_gb_def)
  define q :: rat where "q = of_nat kb / 2 ^ 20 / 10"
  have "(of_nat kb :: rat) < 2 ^ 53" using of_nat_less_iff [of kb "2 ^ 53", where 'a = rat] assms(3) by simp
  then have q: "0 \<le> q" "q < 2 ^ 30" by (simp_all add: q_def)
  obtain r where r: "round64 False q = Fin False r" "0 \<le> r" "\<bar>r - q\<bar> \<le> 1 / 2 ^ 24"
    using round64_below [OF q] by blast
  obtain n where n: "format2 (Fin False r) = show_nat (n div 100) @ ''.'' @ [digit_char (n mod 100 div 10), digit_char (n mod 10)]"
    "\<bar>of_nat n - r * 100\<bar> \<le> 1 / 2" using format2_near [OF r(2)] by blast
  have "f64_div (Fin False (of_nat kb / 2 ^ 20)) (f64_lit 10) = Fin False r" using r(1) by (simp add: q_def)
  then have "ri_memory_weight (detect df (Some content) cpuinfo) = format2 (Fin False r)"
    unfolding detect_def Let_def gb by (simp only: resource_info.select_convs)
  moreover have "\<bar>of_nat n / 100 - q\<bar> < 51 / 10000"
  proof -
    have "\<bar>r - q\<bar> \<le> 1 / 16777216" using r(3) by simp
    then show ?thesis using n(2) by linarith
  qed
  moreover have "ri_memory_gb (detect df (Some content) cpuinfo) = Fin False (of_nat kb / 2 ^ 20)"
    by (simp add: detect_def Let_def gb)
  ultimately show ?thesis using n(1) unfolding q_def by metis
qed

text \<open>Sixteen gigabytes are shown as 1.60, or as a number closer than 0.0051 to it.\<close>

lemma memory_shown_witness:
  "ri_memory_gb (detect None (Some ''MemTotal: 16777216 kB'') None) = Fin False 16 \<and>
   (\<exists>n. ri_memory_weight (detect None (Some ''MemTotal: 16777216 kB'') None) =
          show_nat (n div 100) @ ''.'' @ [digit_char (n mod 100 div 10), digit_char (n mod 10)] \<and>
        \<bar>of_nat n / 100 - (8 / 5 :: rat)\<bar> < 51 / 10000)"
proof -
  have "find (begins ''MemTotal:'') (str_lines ''MemTotal: 16777216 kB'') = Some ''MemTotal: 16777216 kB''"
    by code_simp
  moreover have "split_whitespace ''MemTotal: 16777216 kB'' = ''MemTotal:'' # ''16777216'' # [''kB'']"
    by code_simp
  moreover have "show_nat 16777216 = ''16777216''" by (simp add: show_radix.simps) code_simp
  ultimately show ?thesis
    using memory_shown [of "''MemTotal: 16777216 kB''" "''MemTotal: 16777216 kB''" "''MemTotal:''" 16777216 "[''kB'']" None None]
    by simp
qed

end
