(* ===== verification/WebPages.thy ===== *)
theory WebPages
  imports WebChat Epochs Directory Detect
begin

text \<open>
  What the pages of \<^verbatim>\<open>src/web/api.rs\<close> show, with the data types of
  \<^verbatim>\<open>src/web/templates.rs\<close> and \<^verbatim>\<open>src/web/types.rs\<close>, and the whole request handler of
  \<^verbatim>\<open>src/web/mod.rs\<close>. The data of the minter is put into the context by the application;
  the texts that describe the host, rendering and dates are parameters.
  Shown: the countdown to the next tick, the addresses listed for a node and the
  witnesses marked as full time.
\<close>

subsection \<open>Data of the minter\<close>

record seed_snapshot =
  sn_ip :: string
  sn_port :: int
  sn_node_id :: string
  sn_is_active :: bool

record minter_witness =
  wi_address :: string
  wi_tick_count :: u8
  wi_is_current :: bool
  wi_online_minutes :: u64
  wi_is_online :: bool
  wi_weight :: string
  wi_validated_by :: "string list"

record minter_data =
  md_cycle_id :: i64
  md_tick_count :: u64
  md_epoch_tick :: u64
  md_ticks_per_epoch :: u64
  md_active_ring_hash :: string
  md_active_ring_epoch :: i64
  md_active_ring_members :: "seed_snapshot list"
  md_locked_ring_hash :: string
  md_locked_ring_epoch :: i64
  md_locked_ring_members :: "seed_snapshot list"
  md_witness_entries :: "minter_witness list"
  md_witness_chain :: "(string, json) hmap"

subsection \<open>Data of the pages\<close>

record status_info =
  st_tick_count :: u8
  st_today_tick :: u8
  st_epoch :: i64
  st_epoch_tick :: u64
  st_ticks_per_epoch :: u64
  st_tick_interval_minutes :: u32
  st_next_tick_seconds :: u8

text \<open>The second of the day, eight hours east of the clock; \<open>now\<close> in seconds.\<close>

definition day_seconds :: "i64 \<Rightarrow> u32" where
  "day_seconds now = word_of_int ((now + 8 * 3600) mod 86400)"

definition tick_interval :: u32 where
  "tick_interval = 15 * 60"

definition status_info_new :: "i64 \<Rightarrow> u8 \<Rightarrow> i64 \<Rightarrow> status_info" where
  "status_info_new now tick_count epoch =
     (let seconds = day_seconds now;
          today_tick = seconds div tick_interval;
          next_tick = tick_interval - seconds mod tick_interval
      in \<lparr>st_tick_count = tick_count, st_today_tick = ucast today_tick, st_epoch = epoch, st_epoch_tick = 0,
          st_ticks_per_epoch = 96, st_tick_interval_minutes = 15, st_next_tick_seconds = ucast next_tick\<rparr>)"

record witness_ring_info =
  wr_ring_hash :: string
  wr_epoch :: i64
  wr_member_count :: nat
  wr_members :: "seed_snapshot list"

definition ring_to_info :: "string \<Rightarrow> i64 \<Rightarrow> seed_snapshot list \<Rightarrow> witness_ring_info" where
  "ring_to_info h epoch members =
     (if h \<noteq> [] then \<lparr>wr_ring_hash = h, wr_epoch = epoch, wr_member_count = length members, wr_members = members\<rparr>
      else \<lparr>wr_ring_hash = [], wr_epoch = 0, wr_member_count = 0, wr_members = []\<rparr>)"

record witness_info =
  wn_address :: string
  wn_is_online :: bool
  wn_tick_count :: u8
  wn_weight :: string
  wn_validated_by :: "string list"

record witness_tick_record_info =
  wk_address :: string
  wk_tick_count :: u8
  wk_is_full_time :: bool

record witness_table_info =
  wt_active_count :: u64
  wt_pending_count :: u64
  wt_witnesses :: "witness_info list"
  wt_tick_count :: u8
  wt_tick_interval_minutes :: u32
  wt_next_tick_seconds :: u8

definition witness_table_info_new :: "i64 \<Rightarrow> u8 \<Rightarrow> witness_table_info" where
  "witness_table_info_new now tick_count =
     \<lparr>wt_active_count = 0, wt_pending_count = 0, wt_witnesses = [], wt_tick_count = tick_count,
      wt_tick_interval_minutes = 15,
      wt_next_tick_seconds = ucast (tick_interval - day_seconds now mod tick_interval)\<rparr>"

record account_info =
  ai_address :: string
  ai_balance :: string
  ai_pending_balance :: string
  ai_total_sent :: string
  ai_total_received :: string
  ai_tx_count :: u64

definition account_info_new :: "string \<Rightarrow> account_info" where
  "account_info_new address =
     \<lparr>ai_address = address, ai_balance = ''0.00'', ai_pending_balance = ''0.00'', ai_total_sent = ''0.00'',
      ai_total_received = ''0.00'', ai_tx_count = 0\<rparr>"

record node_info =
  ni_address :: string
  ni_intranet_ips :: "string list"
  ni_wan_ips :: "string list"
  ni_is_connected :: bool

definition shown_seed :: "socket_addr \<Rightarrow> bool" where
  "shown_seed a \<longleftrightarrow> \<not> (is_loopback (sock_ip a) \<or> is_unspecified (sock_ip a) \<or> sock_port a = 0)"

definition seed_text :: "socket_addr \<Rightarrow> string" where
  "seed_text a = show_ip (sock_ip a) @ '':'' @ show_nat (unat (sock_port a))"

definition node_info_of :: "(ip_addr \<Rightarrow> network_scope) \<Rightarrow> node_entry \<Rightarrow> node_info" where
  "node_info_of from_ip e =
     (let addrs = filter shown_seed (hkeys (ne_seeds e))
      in \<lparr>ni_address = ne_address e,
          ni_intranet_ips = map seed_text (filter (\<lambda>a. from_ip (sock_ip a) = Intranet) addrs),
          ni_wan_ips = map seed_text (filter (\<lambda>a. from_ip (sock_ip a) = Extranet) addrs),
          ni_is_connected = ne_is_connected e\<rparr>)"

text \<open>The full time witnesses: those with the largest number of ticks.\<close>

definition tick_infos :: "'t ticks \<Rightarrow> i64 \<Rightarrow> 't \<Rightarrow> witness_tick_record_info list \<times> u8" where
  "tick_infos tb cycle_id t =
     (let max_tick = or_else 0 (fst (get_max_tick_count tb cycle_id t));
          records = or_else [] (fst (get_epoch_records tb cycle_id t))
      in (map (\<lambda>r. \<lparr>wk_address = tr_address r, wk_tick_count = tr_tick_count r,
                    wk_is_full_time = (0 < max_tick \<and> max_tick \<le> tr_tick_count r)\<rparr>) records, max_tick))"

record page_data =
  pg_connection_groups :: connections_by_direction
  pg_seeds :: "web_seed list"
  pg_nodes :: "node_info list"
  pg_resources :: resource_info
  pg_epoch_tick :: u64
  pg_ticks_per_epoch :: u64
  pg_witness_ring_active :: witness_ring_info
  pg_witness_ring_locked :: witness_ring_info
  pg_witness_tick_records :: "witness_tick_record_info list"
  pg_witness_tick_max :: u8
  pg_status :: status_info
  pg_witness_table :: witness_table_info
  pg_account :: account_info
  pg_transactions :: transaction_page
  pg_inner_ips :: "string list"
  pg_external_ips :: "string list"
  pg_my_balance :: u64
  pg_witness_chain :: "(string, json) hmap"

text \<open>
  What the pages read besides the state of the handlers: the seed and tick tables, the
  slots of the context, the output of \<^verbatim>\<open>df\<close> and the two files that describe the host, the output
  of the address tool and the formats of dates.
\<close>

record ('s, 'k) page_src =
  ps_seed_table :: "'s seed_table"
  ps_seeds :: 's
  ps_tick_table :: "'k ticks"
  ps_ticks :: 'k
  ps_resources :: "resource_info option"
  ps_df :: "string option"
  ps_meminfo :: "string option"
  ps_cpuinfo :: "string option"
  ps_account :: "account_info option"
  ps_ip_tool :: "bytes option"
  ps_date :: "i64 \<Rightarrow> string option"

definition witness_table :: "i64 \<Rightarrow> minter_data \<Rightarrow> witness_table_info" where
  "witness_table now md =
     (witness_table_info_new now (ucast (md_tick_count md)))
       \<lparr>wt_active_count := word_of_int (md_cycle_id md), wt_pending_count := 0,
        wt_witnesses := map (\<lambda>x. \<lparr>wn_address = wi_address x, wn_is_online = wi_is_online x,
          wn_tick_count = wi_tick_count x, wn_weight = wi_weight x, wn_validated_by = wi_validated_by x\<rparr>)
          (md_witness_entries md)\<rparr>"

text \<open>What falls back when a slot is empty, a table cannot be read, and how addresses are shown.\<close>

definition page_account :: "account_info option \<Rightarrow> string \<Rightarrow> account_info" where
  "page_account slot addr = (case slot of Some a \<Rightarrow> a | None \<Rightarrow> account_info_new addr)"

definition own_balance :: "('p, 'f, 'c, 'b, 'x) web_env \<Rightarrow> string \<Rightarrow> ('p, 'f, 'c, 'b, 'x) web \<Rightarrow> u64" where
  "own_balance we addr w = or_else 0 (fst (balance_get (we_balances we) addr (wb_balances w)))"

definition with_port :: "u16 \<Rightarrow> string list \<Rightarrow> string list" where
  "with_port port ips = map (\<lambda>ip. ip @ '':'' @ show_nat (unat port)) ips"

definition gather_page_data ::
  "('p, 'f, 'c, 'b, 'x) web_env \<Rightarrow> ('s, 'k) page_src \<Rightarrow> i64 \<Rightarrow> u64 \<Rightarrow> minter_data \<Rightarrow> string \<Rightarrow> u16 \<Rightarrow>
   ('p, 'f, 'c, 'b, 'x) web \<Rightarrow> page_data \<times> ('p, 'f, 'c, 'b, 'x) web" where
  "gather_page_data we ps now seen md addr port w =
     (let raw = we_info we (g_connections (wb_ctx w));
          g = on_registry (nr_sync_from_connection_info (we_from_ip we) seen raw) (wb_ctx w);
          groups = (case g_registry g of
                      Some reg \<Rightarrow> group_connections_by_direction raw reg addr
                    | None \<Rightarrow> \<lparr>cd_inbound = [], cd_outbound = []\<rparr>);
          (records, max_tick) = tick_infos (ps_tick_table ps) (md_cycle_id md) (ps_ticks ps);
          (inner, external) = get_all_ips (ps_ip_tool ps)
      in (\<lparr>pg_connection_groups = groups,
           pg_seeds = load_all_seeds (ps_date ps) (me_sha256 (we_msg we)) (ps_seed_table ps) (ps_seeds ps) g,
           pg_nodes = (case g_registry g of Some reg \<Rightarrow> map (node_info_of (we_from_ip we)) (nr_get_nodes reg) | None \<Rightarrow> []),
           pg_resources = (case ps_resources ps of Some r \<Rightarrow> r | None \<Rightarrow> detect (ps_df ps) (ps_meminfo ps) (ps_cpuinfo ps)),
           pg_epoch_tick = md_epoch_tick md, pg_ticks_per_epoch = md_ticks_per_epoch md,
           pg_witness_ring_active =
             ring_to_info (md_active_ring_hash md) (md_active_ring_epoch md) (md_active_ring_members md),
           pg_witness_ring_locked =
             ring_to_info (md_locked_ring_hash md) (md_locked_ring_epoch md) (md_locked_ring_members md),
           pg_witness_tick_records = records, pg_witness_tick_max = max_tick,
           pg_status = (status_info_new now (ucast (md_tick_count md)) (md_cycle_id md))
             \<lparr>st_epoch_tick := md_epoch_tick md, st_ticks_per_epoch := md_ticks_per_epoch md\<rparr>,
           pg_witness_table = witness_table now md,
           pg_account = page_account (ps_account ps) addr,
           pg_transactions = load_transactions (ps_date ps) (we_txs we) 1 20 (wb_txs w),
           pg_inner_ips = with_port port inner, pg_external_ips = with_port port external,
           pg_my_balance = own_balance we addr w,
           pg_witness_chain = md_witness_chain md\<rparr>, w\<lparr>wb_ctx := g\<rparr>))"

subsection \<open>Answers\<close>

definition jbytes :: "string list \<Rightarrow> json" where
  "jbytes xs = JArr (map JStr xs)"

definition member_json :: "seed_snapshot \<Rightarrow> json" where
  "member_json m =
     JObj [(''ip'', JStr (sn_ip m)), (''port'', JInt (sn_port m)), (''node_id'', JStr (sn_node_id m)),
           (''is_active'', JBool (sn_is_active m))]"

definition ring_json :: "witness_ring_info \<Rightarrow> json" where
  "ring_json r =
     JObj [(''ring_hash'', JStr (wr_ring_hash r)), (''epoch'', JInt (wr_epoch r)),
           (''member_count'', JInt (int (wr_member_count r))), (''members'', JArr (map member_json (wr_members r)))]"

definition tick_record_json :: "witness_tick_record_info \<Rightarrow> json" where
  "tick_record_json r =
     JObj [(''address'', JStr (wk_address r)), (''tick_count'', JInt (uint (wk_tick_count r))),
           (''is_full_time'', JBool (wk_is_full_time r))]"

definition group_json :: "connection_group \<Rightarrow> json" where
  "group_json c =
     JObj [(''node_id'', JStr (cg_node_id c)), (''addrs'', JStr (cg_addrs c)), (''passed'', JStr (cg_passed c))]"

definition node_json :: "node_info \<Rightarrow> json" where
  "node_json n =
     JObj [(''address'', JStr (ni_address n)), (''intranet_ips'', jbytes (ni_intranet_ips n)),
           (''wan_ips'', jbytes (ni_wan_ips n)), (''is_connected'', JBool (ni_is_connected n))]"

definition seed_json :: "web_seed \<Rightarrow> json" where
  "seed_json s =
     JObj [(''address'', JStr (ws_address s)), (''port'', JInt (uint (ws_port s))), (''protocol'', JStr (ws_protocol s)),
           (''is_active'', JBool (ws_is_active s)), (''last_seen'', JStr (ws_last_seen s))]"

definition handle_data_api :: "string \<Rightarrow> page_data \<Rightarrow> json" where
  "handle_data_api addr d =
     JObj [(''tick_count'', JInt (uint (st_tick_count (pg_status d)))),
           (''today_tick'', JInt (uint (st_today_tick (pg_status d)))),
           (''next_tick_seconds'', JInt (uint (st_next_tick_seconds (pg_status d)))),
           (''epoch'', JInt (st_epoch (pg_status d))), (''epoch_tick'', JInt (uint (pg_epoch_tick d))),
           (''ticks_per_epoch'', JInt (uint (pg_ticks_per_epoch d))),
           (''witness_ring_active'', ring_json (pg_witness_ring_active d)),
           (''witness_ring_locked'', ring_json (pg_witness_ring_locked d)),
           (''witness_tick_records'', JArr (map tick_record_json (pg_witness_tick_records d))),
           (''witness_tick_max'', JInt (uint (pg_witness_tick_max d))), (''witness_chain'', JObj (pg_witness_chain d)),
           (''inbound_connections'', JArr (map group_json (cd_inbound (pg_connection_groups d)))),
           (''outbound_connections'', JArr (map group_json (cd_outbound (pg_connection_groups d)))),
           (''nodes'', JArr (map node_json (pg_nodes d))), (''seeds'', JArr (map seed_json (pg_seeds d))),
           (''my_address'', JStr addr), (''my_balance'', JInt (uint (pg_my_balance d)))]"

text \<open>The wallet and chat pages share their data; the wallet page has no use for the first port.\<close>

record page_head =
  ph_web_port :: u16
  ph_p2p_port :: u16
  ph_node_name :: string
  ph_node_address :: string
  ph_explorer_url :: string

record account_page = page_head +
  ap_account :: account_info
  ap_status :: status_info

record index_page = page_head +
  ip_data_dir :: string
  ip_inner_ips :: "string list"
  ip_external_ips :: "string list"
  ip_protocols :: string
  ip_status :: status_info
  ip_resources :: resource_info

record network_page = index_page +
  np_witness_table :: witness_table_info
  np_witness_ring_active :: witness_ring_info
  np_witness_ring_locked :: witness_ring_info
  np_witness_tick_records :: "witness_tick_record_info list"
  np_witness_tick_max :: u8
  np_transactions :: transaction_page
  np_seeds :: "web_seed list"
  np_nodes :: "node_info list"
  np_inbound_connections :: "connection_group list"
  np_outbound_connections :: "connection_group list"

definition default_explorer_url :: string where
  "default_explorer_url = ''https://freeweb.observer/explorer''"

text \<open>The default of the start page names the constant of \<^verbatim>\<open>templates.rs\<close>, which is another address.\<close>

definition index_page_default :: "i64 \<Rightarrow> index_page" where
  "index_page_default now =
     \<lparr>ph_web_port = 8080, ph_p2p_port = 9000, ph_node_name = ''Unknown'', ph_node_address = ''N/A'',
      ph_explorer_url = ''https://explorer.freewebmovement.com'', ip_data_dir = ''./data'', ip_inner_ips = [],
      ip_external_ips = [], ip_protocols = ''tcp, udp, http, ws'', ip_status = status_info_new now 0 0,
      ip_resources = resource_info_default\<rparr>"

definition handle_account_page :: "u16 \<Rightarrow> string \<Rightarrow> string \<Rightarrow> page_data \<Rightarrow> account_page" where
  "handle_account_page port name addr d =
     \<lparr>ph_web_port = port, ph_p2p_port = port, ph_node_name = name, ph_node_address = addr,
      ph_explorer_url = default_explorer_url, ap_account = pg_account d, ap_status = pg_status d\<rparr>"

definition handle_index_page :: "u16 \<Rightarrow> string \<Rightarrow> string \<Rightarrow> string \<Rightarrow> page_data \<Rightarrow> index_page" where
  "handle_index_page port name dir addr d =
     \<lparr>ph_web_port = port, ph_p2p_port = port, ph_node_name = name, ph_node_address = addr,
      ph_explorer_url = default_explorer_url, ip_data_dir = dir, ip_inner_ips = pg_inner_ips d,
      ip_external_ips = pg_external_ips d, ip_protocols = ''tcp, udp, http, ws'', ip_status = pg_status d,
      ip_resources = pg_resources d\<rparr>"

definition handle_network_page :: "u16 \<Rightarrow> string \<Rightarrow> string \<Rightarrow> string \<Rightarrow> page_data \<Rightarrow> network_page" where
  "handle_network_page port name dir addr d =
     index_page.extend (handle_index_page port name dir addr d)
       (network_page.fields (pg_witness_table d) (pg_witness_ring_active d) (pg_witness_ring_locked d)
         (pg_witness_tick_records d) (pg_witness_tick_max d) (pg_transactions d) (pg_seeds d) (pg_nodes d)
         (cd_inbound (pg_connection_groups d)) (cd_outbound (pg_connection_groups d)))"

subsection \<open>The request handler\<close>

text \<open>The renderer of the templates; a failure gives an empty page.\<close>

record render =
  rd_wallet :: "account_page \<Rightarrow> string option"
  rd_chat :: "account_page \<Rightarrow> string option"
  rd_network :: "network_page \<Rightarrow> string option"
  rd_index :: "index_page \<Rightarrow> string option"

datatype web_reply = ReplyJson json | ReplyPage string | ReplyPanic

definition page_of :: "string option \<Rightarrow> web_reply" where
  "page_of r = ReplyPage (case r of Some s \<Rightarrow> s | None \<Rightarrow> [])"

definition page_reply ::
  "render \<Rightarrow> u16 \<Rightarrow> string \<Rightarrow> string \<Rightarrow> string \<Rightarrow> route \<Rightarrow> page_data \<Rightarrow> web_reply" where
  "page_reply rd port name dir addr rt d =
     (case rt of
        RData \<Rightarrow> ReplyJson (handle_data_api addr d)
      | RWallet \<Rightarrow> page_of (rd_wallet rd (handle_account_page port name addr d))
      | RChat \<Rightarrow> page_of (rd_chat rd (handle_account_page port name addr d))
      | RNetwork \<Rightarrow> page_of (rd_network rd (handle_network_page port name dir addr d))
      | _ \<Rightarrow> page_of (rd_index rd (handle_index_page port name dir addr d)))"

record ('p, 'f, 'c, 'b, 'x, 's, 'k) site =
  si_env :: "('p, 'f, 'c, 'b, 'x) web_env"
  si_src :: "('s, 'k) page_src"
  si_render :: render
  si_transfer :: "(string \<Rightarrow> string \<Rightarrow> string \<Rightarrow> ('p, 'f, 'c, 'b, 'x) web \<Rightarrow>
    (string + string) \<times> ('p, 'f, 'c, 'b, 'x) web) option"
  si_minter :: "minter_data option"
  si_site_port :: u16
  si_name :: string
  si_dir :: string
  si_address :: string

definition web_serve ::
  "('p, 'f, 'c, 'b, 'x, 's, 'k) site \<Rightarrow> i64 \<Rightarrow> u64 \<Rightarrow> (nat \<Rightarrow> u128 \<times> u64) \<Rightarrow> http_request \<Rightarrow>
   ('p, 'f, 'c, 'b, 'x) web \<Rightarrow> web_reply \<times> ('p, 'f, 'c, 'b, 'x) web" where
  "web_serve si now seen fresh rq w =
     (case web_handle (si_env si) now seen fresh (si_transfer si) (si_address si) rq w of
        Some (Some j, w') \<Rightarrow> (ReplyJson j, w')
      | Some (None, w') \<Rightarrow> (ReplyPanic, w')
      | None \<Rightarrow>
          (case si_minter si of
             None \<Rightarrow> (ReplyJson (failure ''MinterData not configured''), w)
           | Some md \<Rightarrow>
               (case gather_page_data (si_env si) (si_src si) now seen md (si_address si) (si_site_port si) w of
                  (d, w') \<Rightarrow>
                    (page_reply (si_render si) (si_site_port si) (si_name si) (si_dir si) (si_address si)
                       (web_route (rq_post rq) (rq_path rq)) d, w'))))"

subsection \<open>Lemmas\<close>

text \<open>What the handlers share with the ledger and the network.\<close>

definition outer_state ::
  "('p, 'f, 'c, 'b, 'x) web \<Rightarrow> 'b \<times> 'x \<times> (socket_addr \<times> bytes) list \<times> u64 set option \<times> u64 \<times> json list option" where
  "outer_state w = (wb_balances w, wb_txs w, wb_written w, wb_pending w, wb_counter w, wb_events w)"

lemma outer_state_update [simp]:
  "outer_state (w\<lparr>wb_users := u\<rparr>) = outer_state w" "outer_state (w\<lparr>wb_contacts := t\<rparr>) = outer_state w"
  "outer_state (w\<lparr>wb_ctx := g\<rparr>) = outer_state w"
  by (simp_all add: outer_state_def)

lemma on_users_frame [simp]:
  "outer_state (snd (on_users m w)) = outer_state w" "wb_contacts (snd (on_users m w)) = wb_contacts w"
  by (simp_all add: on_users_def split: prod.splits)

lemma on_contacts_frame [simp]: "outer_state (snd (on_contacts m w)) = outer_state w"
  by (simp add: on_contacts_def split: prod.splits)

lemma on_users_frameD:
  assumes "on_users m w = (r, w')"
  shows "outer_state w' = outer_state w" "wb_contacts w' = wb_contacts w"
  using on_users_frame [of m w] by (simp_all add: assms)

lemma on_contacts_frameD: "on_contacts m w = (r, w') \<Longrightarrow> outer_state w' = outer_state w"
  using on_contacts_frame [of m w] by simp

lemma profile_or_default_frame [simp]:
  "outer_state (snd (profile_or_default we now a w)) = outer_state w"
  "wb_contacts (snd (profile_or_default we now a w)) = wb_contacts w"
  by (auto simp: profile_or_default_def split: prod.splits dest: on_users_frameD)

lemma profile_or_default_frameD:
  assumes "profile_or_default we now a w = (p, w')"
  shows "outer_state w' = outer_state w" "wb_contacts w' = wb_contacts w"
  using profile_or_default_frame [of we now a w] by (simp_all add: assms)

lemma contact_entries_frame:
  "outer_state (snd (known_contact we now self unread c st)) = outer_state (snd st)"
  "wb_contacts (snd (known_contact we now self unread c st)) = wb_contacts (snd st)"
  "outer_state (snd (registry_contact we now self e st)) = outer_state (snd st)"
  "wb_contacts (snd (registry_contact we now self e st)) = wb_contacts (snd st)"
  by (cases st; auto simp: known_contact_def registry_contact_def split: prod.splits
      dest: profile_or_default_frameD)+

lemma fold_observes: "(\<And>x s. f (g x s) = f s) \<Longrightarrow> f (fold g xs s) = f s"
  by (induction xs arbitrary: s) simp_all

lemma contact_folds_frame:
  "outer_state (snd (fold (known_contact we now self unread) cs st)) = outer_state (snd st)"
  "wb_contacts (snd (fold (known_contact we now self unread) cs st)) = wb_contacts (snd st)"
  "outer_state (snd (fold (registry_contact we now self) es st)) = outer_state (snd st)"
  "wb_contacts (snd (fold (registry_contact we now self) es st)) = wb_contacts (snd st)"
  by (rule fold_observes [where f = "\<lambda>st. outer_state (snd st)"] fold_observes [where f = "\<lambda>st. wb_contacts (snd st)"],
      rule contact_entries_frame)+

lemma list_contacts_frame:
  assumes "handle_list_contacts we now seen self w = (j, w')"
  shows "outer_state w' = outer_state w" "wb_contacts w' = wb_contacts w"
proof -
  obtain m w1 where 1: "fold (known_contact we now self
      (or_else [] (fst (us_get_all_contacts_with_unread (we_users we) (wb_users w)))))
      (or_else [] (fst (contact_get_all (we_contacts we) (wb_contacts w)))) ([], w) = (m, w1)"
    by (metis surj_pair)
  have "outer_state w1 = outer_state w \<and> wb_contacts w1 = wb_contacts w"
    using contact_folds_frame(1,2) 1 by (metis snd_conv)
  moreover have "outer_state w' = outer_state w1 \<and> wb_contacts w' = wb_contacts w1"
  proof (cases "g_node (wb_ctx w1)")
    case None
    then show ?thesis using assms by (auto simp: handle_list_contacts_def Let_def 1 split_beta)
  next
    case (Some n)
    define g where "g = on_registry (nr_sync_from_connection_info (we_from_ip we) seen
      (we_info we (g_connections (wb_ctx w1)))) (wb_ctx w1)"
    obtain m' where "fold (registry_contact we now self)
      (case g_registry g of Some reg \<Rightarrow> nr_get_nodes reg | None \<Rightarrow> []) (m, w1\<lparr>wb_ctx := g\<rparr>) = (m', w')"
      using assms by (auto simp: handle_list_contacts_def Let_def 1 Some g_def split: prod.splits)
    then show ?thesis
      using contact_folds_frame(3,4) [of we now self "case g_registry g of Some reg \<Rightarrow> nr_get_nodes reg | None \<Rightarrow> []" "(m, w1\<lparr>wb_ctx := g\<rparr>)"]
      by simp
  qed
  ultimately show "outer_state w' = outer_state w" "wb_contacts w' = wb_contacts w" by simp_all
qed

lemma send_chat_frame:
  assumes "handle_send_chat we now fresh self rq w = (r, w')"
  shows "wb_balances w' = wb_balances w" "wb_txs w' = wb_txs w" "wb_contacts w' = wb_contacts w"
  using assms
  by (auto simp: handle_send_chat_def chat_reply_def Let_def push_event_def next_request_id_def on_users_def
      split: if_splits option.splits prod.splits)

lemma gather_page_data_frame:
  assumes "gather_page_data we ps now seen md addr port w = (d, w')"
  shows "outer_state w' = outer_state w" "wb_contacts w' = wb_contacts w" "wb_users w' = wb_users w"
  using assms by (auto simp: gather_page_data_def Let_def split: prod.splits)

text \<open>The handlers that only touch the files of the users, or only the contacts.\<close>

lemma user_handlers_frame:
  "outer_state (snd (handle_address_api we rq w)) = outer_state w"
  "wb_contacts (snd (handle_address_api we rq w)) = wb_contacts w"
  "outer_state (snd (handle_get_chat_messages we rq w)) = outer_state w"
  "wb_contacts (snd (handle_get_chat_messages we rq w)) = wb_contacts w"
  "outer_state (snd (handle_get_conversations we w)) = outer_state w"
  "wb_contacts (snd (handle_get_conversations we w)) = wb_contacts w"
  "outer_state (snd (profile_reply we now a w)) = outer_state w"
  "wb_contacts (snd (profile_reply we now a w)) = wb_contacts w"
  "outer_state (snd (handle_list_contacts we now seen self w)) = outer_state w"
  "wb_contacts (snd (handle_list_contacts we now seen self w)) = wb_contacts w"
  by (auto simp: handle_address_api_def handle_get_chat_messages_def handle_get_conversations_def
      profile_reply_def Let_def split: prod.splits dest: profile_or_default_frameD)
    (use list_contacts_frame [of we now seen self w] in \<open>auto simp: prod_eq_iff\<close>)

lemma profile_writers_frame:
  "outer_state (snd (handle_save_profile we now self rq w)) = outer_state w"
  "wb_contacts (snd (handle_save_profile we now self rq w)) = wb_contacts w"
  "outer_state (snd (handle_upload_avatar we now self rq w)) = outer_state w"
  "wb_contacts (snd (handle_upload_avatar we now self rq w)) = wb_contacts w"
  by (auto simp: handle_save_profile_def handle_upload_avatar_def Let_def on_users_def
      split: prod.splits option.splits sum.splits)

lemma contact_writers_frame:
  "outer_state (snd (handle_add_contact we now rq w)) = outer_state w"
  "outer_state (snd (handle_delete_contact we rq w)) = outer_state w"
  by (auto simp: handle_add_contact_def handle_delete_contact_def Let_def on_contacts_def
      split: prod.splits sum.splits)

lemmas handler_frames = user_handlers_frame profile_writers_frame contact_writers_frame

lemma web_handle_frame:
  assumes "web_handle we now seen fresh transfer self rq w = Some (r, w')"
    and "web_route (rq_post rq) (rq_path rq) = rt" "rt \<noteq> RTransfer"
  shows "wb_balances w' = wb_balances w \<and> wb_txs w' = wb_txs w"
    and "rt \<notin> {RAddContact, RDeleteContact} \<Longrightarrow> wb_contacts w' = wb_contacts w"
    and "rt \<noteq> RSendChat \<Longrightarrow> outer_state w' = outer_state w"
proof -
  have w': "w' = snd (the (web_handle we now seen fresh transfer self rq w))" by (simp add: assms(1))
  show outer: "outer_state w' = outer_state w" if "rt \<noteq> RSendChat"
    using assms that unfolding w'
    by (cases rt) (simp_all add: web_handle_def handle_get_profile_def handle_get_self_profile_def handler_frames)
  show "wb_balances w' = wb_balances w \<and> wb_txs w' = wb_txs w"
  proof (cases "rt = RSendChat")
    case True
    then have "handle_send_chat we now fresh self rq w = (r, w')" using assms by (simp add: web_handle_def)
    then show ?thesis by (simp add: send_chat_frame)
  qed (use outer in \<open>simp add: outer_state_def\<close>)
  show "wb_contacts w' = wb_contacts w" if "rt \<notin> {RAddContact, RDeleteContact}"
    using assms that send_chat_frame [of we now fresh self rq w r w'] unfolding w'
    by (cases rt) (simp_all add: web_handle_def handle_get_profile_def handle_get_self_profile_def handler_frames)
qed

subsection \<open>Properties\<close>

text \<open>
  C23. What a web request can change. Apart from the transfer callback no request changes the
  balances or the transactions; contacts change only by the two contact routes; only
  sending a chat message writes to connections, registers a receipt or pushes an event.
\<close>

theorem web_serve_effects:
  assumes "web_serve si now seen fresh rq w = (r, w')"
    and "web_route (rq_post rq) (rq_path rq) = rt" "rt \<noteq> RTransfer"
  shows "wb_balances w' = wb_balances w \<and> wb_txs w' = wb_txs w \<and>
    (rt \<notin> {RAddContact, RDeleteContact} \<longrightarrow> wb_contacts w' = wb_contacts w) \<and>
    (rt \<noteq> RSendChat \<longrightarrow> wb_written w' = wb_written w \<and> wb_pending w' = wb_pending w \<and>
       wb_counter w' = wb_counter w \<and> wb_events w' = wb_events w)"
proof (cases "web_handle (si_env si) now seen fresh (si_transfer si) (si_address si) rq w")
  case None
  show ?thesis
  proof (cases "si_minter si")
    case (Some md)
    obtain d where "gather_page_data (si_env si) (si_src si) now seen md (si_address si) (si_site_port si) w = (d, w')"
      using assms(1) by (auto simp: web_serve_def None Some split: prod.splits)
    from gather_page_data_frame [OF this] show ?thesis by (simp add: outer_state_def)
  qed (use assms(1) None in \<open>simp add: web_serve_def\<close>)
next
  case (Some x)
  then obtain q where "web_handle (si_env si) now seen fresh (si_transfer si) (si_address si) rq w = Some (q, w')"
    using assms(1) by (cases x) (auto simp: web_serve_def split: option.splits)
  from web_handle_frame [OF this assms(2,3)] show ?thesis by (auto simp: outer_state_def)
qed

text \<open>
  The clock of the status page. The tick of the day is exact. The seconds until the next
  tick, up to 900, are cut to eight bits: what is shown is right only in the last 255
  seconds of a tick.
\<close>

theorem status_clock:
  "let s = (now + 8 * 3600) mod 86400
   in uint (st_today_tick (status_info_new now c e)) = s div 900 \<and>
      uint (st_next_tick_seconds (status_info_new now c e)) = (900 - s mod 900) mod 256 \<and>
      (uint (st_next_tick_seconds (status_info_new now c e)) = 900 - s mod 900 \<longleftrightarrow> 644 < s mod 900)"
proof -
  define s where "s = (now + 8 * 3600) mod 86400"
  have s: "0 \<le> s" "s < 86400" by (simp_all add: s_def)
  have u: "uint (day_seconds now) = s"
    using s unfolding day_seconds_def s_def [symmetric] by (simp add: uint_word_of_int take_bit_int_eq_self)
  have q: "uint (day_seconds now div tick_interval) = s div 900"
    "uint (day_seconds now mod tick_interval) = s mod 900"
    by (simp_all add: uint_div uint_mod u tick_interval_def)
  have "s div 900 < 96" "0 \<le> s div 900" using s by auto
  then have t: "uint (ucast (day_seconds now div tick_interval) :: u8) = s div 900"
    by (simp add: unsigned_ucast_eq q take_bit_int_eq_self)
  have "uint (tick_interval - day_seconds now mod tick_interval) = 900 - s mod 900"
  proof -
    have i: "uint tick_interval = 900" by (simp add: tick_interval_def)
    have "day_seconds now mod tick_interval \<le> tick_interval"
      unfolding word_le_def q i using pos_mod_bound [of 900 s] by simp
    then show ?thesis unfolding uint_minus_simple_alt by (simp add: q i)
  qed
  then have n: "uint (ucast (tick_interval - day_seconds now mod tick_interval) :: u8) = (900 - s mod 900) mod 256"
    by (simp add: unsigned_ucast_eq take_bit_eq_mod)
  have "(900 - s mod 900) mod 256 = 900 - s mod 900 \<longleftrightarrow> 644 < s mod 900"
    using pos_mod_bound [of 256 "900 - s mod 900"] pos_mod_bound [of 900 s]
      mod_pos_pos_trivial [of "900 - s mod 900" 256] by linarith
  then show ?thesis
    unfolding Let_def s_def [symmetric] by (simp add: status_info_new_def Let_def t n)
qed

text \<open>
  The full time witnesses of a cycle. Whenever some witness has ticks, the records shown
  as full time are exactly the addresses the store itself counts as full time at the
  largest number of ticks, and no record exceeds that number.
\<close>

theorem full_time_shown:
  assumes "tick_infos tb cycle t = (infos, m)" "0 < m"
  shows "mset (map wk_address (filter wk_is_full_time infos)) =
      mset (or_else [] (fst (get_full_time_addresses tb cycle m t))) \<and>
    list_all (\<lambda>x. wk_tick_count x \<le> m) infos"
proof -
  obtain rs where rs: "fst (get_epoch_records tb cycle t) = Inr rs" and m: "m = tr_tick_count (hd rs)" "rs \<noteq> []"
    using assms
    by (auto simp: tick_infos_def Let_def or_else_def get_max_tick_count_def db_bind_apply db_simps
        split: sum.splits prod.splits list.splits)
  have up: "tb_up tb t" and rows: "rs = sort_key (\<lambda>r. - int (unat (tr_tick_count r)))
      (filter (\<lambda>r. tr_epoch r = cycle) (tb_rows tb t))"
    using rs by (auto simp: get_epoch_records_def db_simps split: if_splits)
  have le: "tr_tick_count r \<le> m" if "r \<in> set rs" for r
  proof -
    have "sorted (map (\<lambda>r. - int (unat (tr_tick_count r))) rs)" by (simp add: rows)
    then show ?thesis
      using that m by (cases rs) (auto simp: word_le_def)
  qed
  have infos: "infos = map (\<lambda>r. \<lparr>wk_address = tr_address r, wk_tick_count = tr_tick_count r,
      wk_is_full_time = (0 < m \<and> m \<le> tr_tick_count r)\<rparr>) rs"
    using assms rs by (auto simp: tick_infos_def Let_def or_else_def)
  have "mset (map wk_address (filter wk_is_full_time infos)) =
    image_mset tr_address (filter_mset (\<lambda>r. m \<le> tr_tick_count r) (mset rs))"
    using assms(2) by (simp add: infos filter_map comp_def)
  also have "mset rs = mset (filter (\<lambda>r. tr_epoch r = cycle) (tb_rows tb t))" by (simp add: rows)
  finally show ?thesis
    using le up by (auto simp: get_full_time_addresses_def db_bind_apply db_simps or_else_def infos list_all_iff
        conj_commute filter_filter_mset)
qed

text \<open>
  The addresses of a node on the network page. Every usable socket of the node (not
  loopback, not unspecified, with a port) is listed exactly once, as intranet or wan
  address according to its scope, and no other.
\<close>

theorem node_addresses_shown:
  "mset (ni_intranet_ips (node_info_of from_ip e)) + mset (ni_wan_ips (node_info_of from_ip e)) =
     image_mset seed_text (filter_mset shown_seed (mset (hkeys (ne_seeds e))))"
proof -
  have "(from_ip (sock_ip a) = Extranet) = (from_ip (sock_ip a) \<noteq> Intranet)" for a
    by (cases "from_ip (sock_ip a)") simp_all
  then have "filter_mset (\<lambda>a. from_ip (sock_ip a) = Intranet) M + filter_mset (\<lambda>a. from_ip (sock_ip a) = Extranet) M = M"
    for M by (simp add: multiset_partition [symmetric])
  then have "image_mset seed_text (filter_mset (\<lambda>a. from_ip (sock_ip a) = Intranet) M) +
    image_mset seed_text (filter_mset (\<lambda>a. from_ip (sock_ip a) = Extranet) M) = image_mset seed_text M" for M
    by (metis image_mset_union)
  from this [of "filter_mset shown_seed (mset (hkeys (ne_seeds e)))"] show ?thesis
    by (simp add: node_info_of_def Let_def filter_filter_mset)
qed

definition demo_tick_rows :: "tick_row list" where
  "demo_tick_rows =
     [\<lparr>tr_id = 1, tr_epoch = 3, tr_address = ''A'', tr_tick_count = 2, tr_updated_at = 0\<rparr>,
      \<lparr>tr_id = 2, tr_epoch = 3, tr_address = ''B'', tr_tick_count = 4, tr_updated_at = 0\<rparr>,
      \<lparr>tr_id = 3, tr_epoch = 2, tr_address = ''A'', tr_tick_count = 9, tr_updated_at = 0\<rparr>]"

text \<open>Two witnesses of cycle 3, one of them present at every tick.\<close>

lemma full_time_shown_witness:
  "mset (map wk_address (filter wk_is_full_time (fst (tick_infos demo_ticks 3 demo_tick_rows)))) = {#''B''#}"
proof -
  have "tick_infos demo_ticks 3 demo_tick_rows =
    ([\<lparr>wk_address = ''B'', wk_tick_count = 4, wk_is_full_time = True\<rparr>,
      \<lparr>wk_address = ''A'', wk_tick_count = 2, wk_is_full_time = False\<rparr>], 4)" by code_simp
  moreover have "or_else [] (fst (get_full_time_addresses demo_ticks 3 4 demo_tick_rows)) = [''B'']" by code_simp
  ultimately show ?thesis using full_time_shown [of demo_ticks 3 demo_tick_rows _ 4] by simp
qed

definition demo_site ::
  "(nat, tree, contact_row list, balance_row list, tx_row list, seed_row list, tick_row list) site" where
  "demo_site =
     \<lparr>si_env = demo_web_env,
      si_src = \<lparr>ps_seed_table = list_table seed_row.sd_id (\<lambda>i r. r\<lparr>seed_row.sd_id := i\<rparr>) (\<lambda>_ _. False), ps_seeds = [],
        ps_tick_table = demo_ticks, ps_ticks = demo_tick_rows, ps_resources = None, ps_df = None, ps_meminfo = None, ps_cpuinfo = None,
        ps_account = None, ps_ip_tool = None, ps_date = (\<lambda>_. None)\<rparr>,
      si_render = \<lparr>rd_wallet = (\<lambda>_. None), rd_chat = (\<lambda>_. None), rd_network = (\<lambda>_. None), rd_index = (\<lambda>_. None)\<rparr>,
      si_transfer = None, si_minter = None, si_site_port = 80, si_name = [], si_dir = [], si_address = ''me''\<rparr>"

text \<open>The chat request again: contacts, balances and transactions stay.\<close>

lemma web_serve_effects_witness:
  "wb_contacts (snd (web_serve demo_site 7 1 (\<lambda>_. (2, 5)) demo_post demo_web)) = [] \<and>
   wb_balances (snd (web_serve demo_site 7 1 (\<lambda>_. (2, 5)) demo_post demo_web)) = []"
proof -
  have "web_route (rq_post demo_post) (rq_path demo_post) = RSendChat"
    by (simp add: demo_post_def web_route_def starts_with_def)
  from web_serve_effects [OF prod.collapse [symmetric] this, of demo_site 7 1 "\<lambda>_. (2, 5)" demo_web]
  show ?thesis by (simp add: demo_web_def)
qed

end
