(* ===== verification/Accept.thy ===== *)
theory Accept
  imports Prelude
begin

text \<open>
  The acceptance of an incoming connection in \<^verbatim>\<open>start_with_web\<close> of \<^verbatim>\<open>src/node.rs\<close>: the
  acceptor spawns the task of the connection, adds the connection to the manager and then
  signals the task over a one-shot channel; the task waits for the signal before it lets
  the router handle frames. The two run concurrently, so the model is a step relation with
  every interleaving. Shown: no frame is handled before the manager knows the connection,
  and the task never waits for ever.
\<close>

subsection \<open>States and steps\<close>

text \<open>Where the acceptor is, what the channel holds, and what the task of the connection does.\<close>

datatype acceptor = Accepting | Spawned | Added | Signalled

datatype conn_task = NotSpawned | Waiting | Handling | Finished

record accept_state =
  as_acceptor :: acceptor
  as_task :: conn_task
  as_signal :: bool
  as_cancelled :: bool
  as_entry :: bool

definition accept_start :: accept_state where
  "accept_start = \<lparr>as_acceptor = Accepting, as_task = NotSpawned, as_signal = False, as_cancelled = False, as_entry = False\<rparr>"

datatype accept_event = Spawn | AddEntry | Signal | Receive | HandleFrame | Finish | CancelToken | AbortTask

text \<open>
  \<^verbatim>\<open>select!\<close> may still handle a frame after the token was cancelled, and the manager can
  abort the task only through the handle it got with the entry.
\<close>

inductive accept_step :: "accept_state \<Rightarrow> accept_event \<Rightarrow> accept_state \<Rightarrow> bool" where
  spawn: "as_acceptor s = Accepting \<Longrightarrow>
    accept_step s Spawn (s\<lparr>as_acceptor := Spawned, as_task := Waiting\<rparr>)"
| add: "as_acceptor s = Spawned \<Longrightarrow> accept_step s AddEntry (s\<lparr>as_acceptor := Added, as_entry := True\<rparr>)"
| signal: "as_acceptor s = Added \<Longrightarrow> accept_step s Signal (s\<lparr>as_acceptor := Signalled, as_signal := True\<rparr>)"
| receive: "as_task s = Waiting \<Longrightarrow> as_signal s \<Longrightarrow>
    accept_step s Receive (s\<lparr>as_task := Handling, as_signal := False\<rparr>)"
| frame: "as_task s = Handling \<Longrightarrow> accept_step s HandleFrame s"
| finish: "as_task s = Handling \<Longrightarrow> accept_step s Finish (s\<lparr>as_task := Finished\<rparr>)"
| cancel: "accept_step s CancelToken (s\<lparr>as_cancelled := True\<rparr>)"
| abort: "as_entry s \<Longrightarrow> accept_step s AbortTask (s\<lparr>as_task := Finished\<rparr>)"

inductive accept_run :: "accept_event list \<Rightarrow> accept_state \<Rightarrow> bool" where
  start: "accept_run [] accept_start"
| step: "accept_run es s \<Longrightarrow> accept_step s e s' \<Longrightarrow> accept_run (es @ [e]) s'"

inductive_cases accept_stepE [elim!]: "accept_step s e s'"

subsection \<open>Invariant\<close>

definition accept_inv :: "accept_event list \<Rightarrow> accept_state \<Rightarrow> bool" where
  "accept_inv es s \<longleftrightarrow>
     (as_entry s \<longleftrightarrow> AddEntry \<in> set es) \<and>
     (as_entry s \<longleftrightarrow> as_acceptor s \<in> {Added, Signalled}) \<and>
     (as_signal s \<longrightarrow> as_acceptor s = Signalled) \<and>
     (as_task s = NotSpawned \<longleftrightarrow> as_acceptor s = Accepting) \<and>
     (as_task s = Handling \<longrightarrow> as_acceptor s = Signalled) \<and>
     (as_task s = Waiting \<and> as_acceptor s = Signalled \<longrightarrow> as_signal s)"

lemma accept_step_inv: "accept_inv es s \<Longrightarrow> accept_step s e s' \<Longrightarrow> accept_inv (es @ [e]) s'"
  by (erule accept_step.cases) (auto simp: accept_inv_def)

lemma accept_run_inv: "accept_run es s \<Longrightarrow> accept_inv es s"
proof (induction rule: accept_run.induct)
  case start
  show ?case by (simp add: accept_inv_def accept_start_def)
qed (rule accept_step_inv)

text \<open>A frame is handled only in states where the entry is in the manager.\<close>

lemma frame_after_entry: "accept_run es s \<Longrightarrow> accept_step s HandleFrame s' \<Longrightarrow> AddEntry \<in> set es"
  using accept_run_inv [of es s] by (auto simp: accept_inv_def elim: accept_step.cases)

lemma accept_run_prefix: "accept_run (es @ fs) s \<Longrightarrow> \<exists>s0. accept_run es s0"
proof (induction fs arbitrary: s rule: rev_induct)
  case (snoc f fs)
  have "accept_run ((es @ fs) @ [f]) s" using snoc.prems by simp
  then obtain s1 where "accept_run (es @ fs) s1" by (cases rule: accept_run.cases) auto
  then show ?case by (rule snoc.IH)
qed auto

subsection \<open>Properties\<close>

text \<open>
  C15. No frame before registration. In every interleaving of the acceptor, the task of the
  connection, cancellations and aborts, the manager has the entry of a connection before
  the router handles its first frame.
\<close>

theorem frames_after_registration:
  assumes "accept_run (es @ HandleFrame # fs) s"
  shows "AddEntry \<in> set es"
proof -
  have "accept_run ((es @ [HandleFrame]) @ fs) s" using assms by simp
  then obtain s1 where "accept_run (es @ [HandleFrame]) s1" using accept_run_prefix by blast
  then obtain s0 where "accept_run es s0" "accept_step s0 HandleFrame s1"
    by (cases rule: accept_run.cases) auto
  then show ?thesis by (rule frame_after_entry)
qed

text \<open>
  The task of a connection never waits for ever: from every reachable state in which it
  waits, the acceptor's remaining steps and the receipt of the signal lead to a state in
  which it handles frames.
\<close>

theorem waiting_task_starts:
  assumes "accept_run es s" "as_task s = Waiting"
  shows "\<exists>fs s'. set fs \<subseteq> {AddEntry, Signal, Receive} \<and> accept_run (es @ fs) s' \<and> as_task s' = Handling"
proof -
  have receive: "\<exists>s'. accept_run (es' @ [Receive]) s' \<and> as_task s' = Handling"
    if "accept_run es' s" "as_task s = Waiting" "as_acceptor s = Signalled" for es' s
  proof -
    have "as_signal s" using accept_run_inv [OF that(1)] that by (simp add: accept_inv_def)
    from accept_run.step [OF that(1) accept_step.receive [OF that(2) this]] show ?thesis by fastforce
  qed
  have signal: "\<exists>s'. accept_run (es' @ [Signal, Receive]) s' \<and> as_task s' = Handling"
    if "accept_run es' s" "as_task s = Waiting" "as_acceptor s = Added" for es' s
    using receive [OF accept_run.step [OF that(1) accept_step.signal [OF that(3)]]] that by simp
  have add: "\<exists>s'. accept_run (es' @ [AddEntry, Signal, Receive]) s' \<and> as_task s' = Handling"
    if "accept_run es' s" "as_task s = Waiting" "as_acceptor s = Spawned" for es' s
    using signal [OF accept_run.step [OF that(1) accept_step.add [OF that(3)]]] that by simp
  have "as_acceptor s \<noteq> Accepting" using accept_run_inv [OF assms(1)] assms(2) by (auto simp: accept_inv_def)
  then consider "as_acceptor s = Spawned" | "as_acceptor s = Added" | "as_acceptor s = Signalled"
    by (cases "as_acceptor s") auto
  then show ?thesis
  proof cases
    case 1
    from add [OF assms this] show ?thesis by (intro exI [of _ "[AddEntry, Signal, Receive]"]) simp
  next
    case 2
    from signal [OF assms this] show ?thesis by (intro exI [of _ "[Signal, Receive]"]) simp
  next
    case 3
    from receive [OF assms this] show ?thesis by (intro exI [of _ "[Receive]"]) simp
  qed
qed

lemma demo_accept_run:
  "\<exists>s. accept_run [Spawn] s \<and> as_task s = Waiting"
  "\<exists>s. accept_run [Spawn, AddEntry, CancelToken, Signal, Receive, HandleFrame] s"
proof -
  have 1: "accept_run [Spawn] (accept_start\<lparr>as_acceptor := Spawned, as_task := Waiting\<rparr>)" (is "accept_run _ ?s1")
    using accept_run.step [OF accept_run.start accept_step.spawn] by (simp add: accept_start_def)
  then show "\<exists>s. accept_run [Spawn] s \<and> as_task s = Waiting" by (intro exI [of _ ?s1]) simp
  have 2: "accept_run [Spawn, AddEntry] (?s1\<lparr>as_acceptor := Added, as_entry := True\<rparr>)" (is "accept_run _ ?s2")
    using accept_run.step [OF 1 accept_step.add] by simp
  have 3: "accept_run [Spawn, AddEntry, CancelToken] (?s2\<lparr>as_cancelled := True\<rparr>)" (is "accept_run _ ?s3")
    using accept_run.step [OF 2 accept_step.cancel] by simp
  have 4: "accept_run [Spawn, AddEntry, CancelToken, Signal] (?s3\<lparr>as_acceptor := Signalled, as_signal := True\<rparr>)"
    (is "accept_run _ ?s4") using accept_run.step [OF 3 accept_step.signal] by simp
  have 5: "accept_run [Spawn, AddEntry, CancelToken, Signal, Receive] (?s4\<lparr>as_task := Handling, as_signal := False\<rparr>)"
    (is "accept_run _ ?s5") using accept_run.step [OF 4 accept_step.receive] by simp
  show "\<exists>s. accept_run [Spawn, AddEntry, CancelToken, Signal, Receive, HandleFrame] s"
    using accept_run.step [OF 5 accept_step.frame] by (intro exI [of _ ?s5]) simp
qed

text \<open>A run in which the token is cancelled while the acceptor is at work.\<close>

lemma frames_after_registration_witness:
  "(\<exists>s. accept_run [Spawn, AddEntry, CancelToken, Signal, Receive, HandleFrame] s) \<and>
   AddEntry \<in> set [Spawn, AddEntry, CancelToken, Signal, Receive]"
proof -
  obtain s where s: "accept_run ([Spawn, AddEntry, CancelToken, Signal, Receive] @ HandleFrame # []) s"
    using demo_accept_run(2) by auto
  from frames_after_registration [OF this] s show ?thesis by auto
qed

text \<open>The state right after the task was spawned.\<close>

lemma waiting_task_starts_witness:
  "\<exists>fs s'. set fs \<subseteq> {AddEntry, Signal, Receive} \<and> accept_run ([Spawn] @ fs) s' \<and> as_task s' = Handling"
proof -
  obtain s where "accept_run [Spawn] s" "as_task s = Waiting" using demo_accept_run(1) by auto
  from waiting_task_starts [OF this] show ?thesis .
qed

end
