(* ===== verification/Resources.thy ===== *)
theory Resources
  imports Chain
begin

text \<open>
  Resource accounting: the market prices of \<^verbatim>\<open>src/db/entity/market_resource_price\<close> with
  the enumerations of \<^verbatim>\<open>types.rs\<close>, and the snapshots of used resources per tick of
  \<^verbatim>\<open>tick_resource_snapshot\<close>. (The module list of \<^verbatim>\<open>src/db/entity\<close> does not name these
  two yet.) A weight that panics, by a division by zero, is \<open>None\<close>. Shown: the bounds of
  the weights, and the hash chain of the snapshots of a node.
\<close>

subsection \<open>Market prices\<close>

datatype resource_type =
    ResCpu | ResBandwidth | ResIp | ResStorage | ResApi | ResMemory | ResHotStorage | ResColdStorage
  | ResApiRequest | ResUnknown

datatype pricing_unit = TimeBased | QuantityBased

datatype resource_unit = UnitIp | UnitGb | UnitTb | UnitMbps | UnitCore | UnitGhz | UnitRequest

record market_price =
  mp_id :: int
  mp_resource_type :: resource_type
  mp_country :: string
  mp_city :: string
  mp_pricing_unit :: pricing_unit
  mp_unit :: resource_unit
  mp_price_per_unit_per_month :: u16
  mp_local_avg_income :: u16
  mp_global_avg_price :: u16
  mp_global_avg_income :: u16
  mp_valid_from_epoch :: i64
  mp_valid_to_epoch :: i64
  mp_pre_hash :: string
  mp_hash :: string

definition base_weight :: "market_price \<Rightarrow> u16 option" where
  "base_weight m =
     (let d = (ucast (mp_local_avg_income m) :: u32)
      in if d = 0 then None
         else Some (ucast (ucast (mp_global_avg_income m) * ucast (mp_global_avg_price m) div d)))"

definition compute_weight :: "u16 \<Rightarrow> market_price \<Rightarrow> u16 option" where
  "compute_weight days m =
     (case mp_pricing_unit m of
        TimeBased \<Rightarrow>
          (let price = (ucast (mp_price_per_unit_per_month m) :: u32)
           in if days = 0 then None
              else
                (case base_weight m of
                   None \<Rightarrow> None
                 | Some b \<Rightarrow>
                     if price = 0 then None
                     else Some (ucast (ucast b * (price div ucast days) div price))))
      | QuantityBased \<Rightarrow> base_weight m)"

definition days_in_month :: "int \<Rightarrow> nat \<Rightarrow> u16" where
  "days_in_month year month =
     (if month = 2
      then (if 4 dvd year \<and> \<not> 100 dvd year \<or> 400 dvd year then 29 else 28)
      else if month \<in> {4, 6, 9, 11} then 30 else 31)"

text \<open>\<open>year\<close> and \<open>month\<close> are those of the clock; no weight in the result is a panic.\<close>

definition get_weight ::
  "('t, market_price) table_ops \<Rightarrow> int \<Rightarrow> nat \<Rightarrow> i64 \<Rightarrow> ('t, u16 option) db_op" where
  "get_weight tb year month i =
     db_bind (db_one tb (\<lambda>m. mp_id m = i)) (\<lambda>found.
       case found of
         None \<Rightarrow> db_err (Rejected (''Resource id '' @ show_int i @ '' not found''))
       | Some m \<Rightarrow> db_ok (compute_weight (days_in_month year month) m))"

subsection \<open>Snapshots\<close>

record snapshot_row =
  sp_id :: int
  sp_node_id :: string
  sp_epoch :: i64
  sp_tick :: i64
  sp_market_resource_id :: i64
  sp_accumulated :: i64
  sp_verified :: bool
  sp_pre_hash :: string
  sp_hash :: string

type_synonym 't snapshots = "('t, snapshot_row) table_ops"

definition of_node :: "string \<Rightarrow> i64 \<Rightarrow> snapshot_row \<Rightarrow> bool" where
  "of_node node_id epoch r \<longleftrightarrow> sp_node_id r = node_id \<and> sp_epoch r = epoch"

definition snapshot_last_hash :: "'t snapshots \<Rightarrow> string \<Rightarrow> i64 \<Rightarrow> ('t, string) db_op" where
  "snapshot_last_hash tb node_id epoch =
     db_bind (db_sorted tb (of_node node_id epoch) (\<lambda>r. - sp_tick r)) (\<lambda>rs.
       db_ok (case rs of [] \<Rightarrow> allocation_genesis | r # _ \<Rightarrow> sp_hash r))"

definition snapshot_digest :: "(bytes \<Rightarrow> bytes) \<Rightarrow> snapshot_row \<Rightarrow> string" where
  "snapshot_digest sha256 r =
     hex_bytes (sha256 (as_bytes (sp_pre_hash r) @ as_bytes (sp_node_id r) @ i64_le_bytes (sp_epoch r) @
       i64_le_bytes (sp_tick r) @ i64_le_bytes (sp_market_resource_id r) @ i64_le_bytes (sp_accumulated r)))"

definition snapshot_create ::
  "(bytes \<Rightarrow> bytes) \<Rightarrow> 't snapshots \<Rightarrow> string \<Rightarrow> i64 \<Rightarrow> i64 \<Rightarrow> i64 \<Rightarrow> i64 \<Rightarrow> ('t, snapshot_row) db_op" where
  "snapshot_create sha256 tb node_id epoch tick res acc =
     db_bind (snapshot_last_hash tb node_id epoch) (\<lambda>pre_hash.
       let am = \<lparr>sp_id = 0, sp_node_id = node_id, sp_epoch = epoch, sp_tick = tick, sp_market_resource_id = res,
                 sp_accumulated = acc, sp_verified = False, sp_pre_hash = pre_hash, sp_hash = []\<rparr>
       in db_insert tb (am\<lparr>sp_hash := snapshot_digest sha256 am\<rparr>))"

definition snapshot_get_by_epoch :: "'t snapshots \<Rightarrow> i64 \<Rightarrow> ('t, snapshot_row list) db_op" where
  "snapshot_get_by_epoch tb epoch = db_all tb (\<lambda>r. sp_epoch r = epoch)"

definition snapshot_get_by_node :: "'t snapshots \<Rightarrow> string \<Rightarrow> i64 \<Rightarrow> ('t, snapshot_row list) db_op" where
  "snapshot_get_by_node tb node_id epoch = db_all tb (of_node node_id epoch)"

definition snapshot_mark_verified :: "'t snapshots \<Rightarrow> i64 \<Rightarrow> ('t, unit) db_op" where
  "snapshot_mark_verified tb i =
     db_bind (db_one tb (\<lambda>r. sp_id r = i)) (\<lambda>found.
       case found of
         None \<Rightarrow> db_err (Rejected ''Snapshot not found'')
       | Some r \<Rightarrow> db_bind (db_update tb (r\<lparr>sp_verified := True\<rparr>)) (\<lambda>_. db_ok ()))"

definition snapshot_total_by_node :: "'t snapshots \<Rightarrow> string \<Rightarrow> i64 \<Rightarrow> ('t, i64) db_op" where
  "snapshot_total_by_node tb node_id epoch =
     db_bind (snapshot_get_by_node tb node_id epoch) (\<lambda>rs.
       db_ok (fold (\<lambda>r s. wrap_i64 (s + sp_accumulated r)) rs 0))"

subsection \<open>Lemmas\<close>

lemma unat_u32_u16 [simp]: "unat (ucast (x :: u16) :: u32) = unat x"
  using unsigned_less [of x, where ?'a = nat] by (simp add: unsigned_ucast_eq take_bit_nat_eq_self)

lemma u16_mult: "unat (ucast (x :: u16) * ucast (y :: u16) :: u32) = unat x * unat y"
proof -
  have "unat x * unat y \<le> 65535 * 65535"
    using unsigned_less [of x, where ?'a = nat] unsigned_less [of y, where ?'a = nat] by (intro mult_le_mono) auto
  then show ?thesis by (simp add: unat_word_ariths)
qed

lemma ucast_u32_eq_0 [simp]: "(ucast (x :: u16) :: u32) = 0 \<longleftrightarrow> x = 0"
  by (simp add: unat_eq_0 [symmetric])

lemma base_weight_Some:
  assumes "mp_local_avg_income m \<noteq> 0"
  shows "\<exists>b. base_weight m = Some b \<and>
    unat b = unat (mp_global_avg_income m) * unat (mp_global_avg_price m) div unat (mp_local_avg_income m) mod 65536"
  using assms by (simp add: base_weight_def Let_def unsigned_ucast_eq unat_div u16_mult take_bit_eq_mod)

lemma days_in_month_bounds: "28 \<le> unat (days_in_month y k) \<and> unat (days_in_month y k) \<le> 31"
  by (simp add: days_in_month_def)

lemma time_weight:
  assumes "mp_pricing_unit m = TimeBased" "base_weight m = Some b" "compute_weight days m = Some w"
  shows "unat w = unat b * (unat (mp_price_per_unit_per_month m) div unat days) div
      unat (mp_price_per_unit_per_month m)"
proof -
  let ?p = "mp_price_per_unit_per_month m"
  have p: "0 < unat ?p" and w: "w = ucast (ucast b * (ucast ?p div ucast days) div ucast ?p :: u32)"
    using assms by (auto simp: compute_weight_def Let_def unat_gt_0 split: if_splits)
  have le: "unat b * (unat ?p div unat days) \<le> unat b * unat ?p" by (simp add: div_le_dividend)
  have "unat b * unat ?p < 65536 * 65536"
    using unsigned_less [of b, where ?'a = nat] unsigned_less [of ?p, where ?'a = nat] by (intro mult_strict_mono) auto
  then have "unat b * (unat ?p div unat days) < 4294967296" using le by linarith
  then have q: "unat (ucast b * (ucast ?p div ucast days) div ucast ?p :: u32) =
      unat b * (unat ?p div unat days) div unat ?p"
    by (simp add: unat_div unat_word_ariths)
  have "unat b * (unat ?p div unat days) div unat ?p \<le> unat b"
    using div_le_mono [OF le, of "unat ?p"] p by simp
  then have "unat b * (unat ?p div unat days) div unat ?p < 65536"
    using unsigned_less [of b, where ?'a = nat] by simp
  then show ?thesis unfolding w unsigned_ucast_eq q by (simp add: take_bit_nat_eq_self)
qed

text \<open>A price below one cent a day weighs nothing.\<close>

lemma cheap_resource_weightless:
  assumes "mp_pricing_unit m = TimeBased" "compute_weight days m = Some w"
    "mp_price_per_unit_per_month m < days"
  shows "w = 0"
proof -
  obtain b where "base_weight m = Some b"
    using assms(1,2) by (auto simp: compute_weight_def Let_def split: if_splits option.splits)
  from time_weight [OF assms(1) this assms(2)] assms(3) show ?thesis
    by (simp add: word_less_nat_alt unat_eq_0)
qed

abbreviation snapshots_ok :: "'t snapshots \<Rightarrow> 't \<Rightarrow> bool" where
  "snapshots_ok tb \<equiv> rows_ok tb sp_id (\<lambda>i r. r\<lparr>sp_id := i\<rparr>)"

abbreviation snapshot_entries :: "'t snapshots \<Rightarrow> string \<Rightarrow> i64 \<Rightarrow> 't \<Rightarrow> snapshot_row list" where
  "snapshot_entries tb n e \<equiv> in_order tb sp_id (of_node n e)"

text \<open>As long as ticks increase, the row with the largest tick is the newest one.\<close>

lemma newest_by_tick:
  assumes "sorted_wrt (<) (map sp_tick (snapshot_entries tb n e t))"
  shows "(case sort_key (\<lambda>r. - sp_tick r) (filter (of_node n e) (tb_rows tb t)) of [] \<Rightarrow> g | r # _ \<Rightarrow> sp_hash r) =
    tip sp_hash g (snapshot_entries tb n e t)"
proof -
  let ?xs = "filter (of_node n e) (tb_rows tb t)"
  have ord: "sorted (map sp_tick (sort_key sp_id ?xs))" and d: "distinct (map sp_tick (sort_key sp_id ?xs))"
    using assms by (simp_all add: in_order_def strict_sorted_iff)
  have "distinct (map sp_tick ?xs)"
    using d by (metis mset_map mset_sort mset_eq_imp_distinct_iff)
  moreover from this have "sort_key sp_tick ?xs = sort_key sp_id ?xs"
    using ord by (intro sort_key_inj_key_eq) (auto simp: distinct_map)
  ultimately show ?thesis by (simp add: newest_tip tip_def in_order_def)
qed

lemma snapshot_create_err: "snapshot_create sha256 tb n e tick res acc t = (Inl er, t') \<Longrightarrow> t' = t"
  by (auto simp: snapshot_create_def snapshot_last_hash_def db_results db_simps Let_def split: if_splits)

lemma snapshot_create_ok:
  assumes ok: "snapshots_ok tb t" and ins: "snapshot_create sha256 tb n' e' tick res acc t = (Inr r, t')"
    and inc: "sorted_wrt (<) (map sp_tick (snapshot_entries tb n e t))"
  shows "snapshots_ok tb t' \<and> (if n' = n \<and> e' = e
    then snapshot_entries tb n e t' = snapshot_entries tb n e t @ [r] \<and> sp_tick r = tick \<and>
      sp_pre_hash r = tip sp_hash allocation_genesis (snapshot_entries tb n e t) \<and>
      sp_hash r = snapshot_digest sha256 r
    else snapshot_entries tb n e t' = snapshot_entries tb n e t)"
proof -
  obtain pre where "snapshot_last_hash tb n' e' t = (Inr pre, t)"
    using ins by (auto simp: snapshot_create_def snapshot_last_hash_def db_results db_simps Let_def split: if_splits)
  then have pre: "n' = n \<Longrightarrow> e' = e \<Longrightarrow> pre = tip sp_hash allocation_genesis (snapshot_entries tb n e t)"
    using newest_by_tick [OF inc, of allocation_genesis]
    by (auto simp: snapshot_last_hash_def db_results db_simps split: if_splits)
  let ?am = "\<lambda>h. \<lparr>sp_id = 0, sp_node_id = n', sp_epoch = e', sp_tick = tick, sp_market_resource_id = res,
    sp_accumulated = acc, sp_verified = False, sp_pre_hash = pre, sp_hash = h\<rparr>"
  have r: "tb_insert tb (?am (snapshot_digest sha256 (?am []))) t = Some (r, t')"
    using ins \<open>snapshot_last_hash tb n' e' t = (Inr pre, t)\<close>
    by (auto simp: snapshot_create_def db_results db_simps Let_def)
  have mem: "of_node n e (?am h\<lparr>sp_id := i\<rparr>) \<longleftrightarrow> n' = n \<and> e' = e" "of_node n e (?am h) \<longleftrightarrow> n' = n \<and> e' = e" for i h
    by (auto simp: of_node_def)
  then have "of_node n e (?am h\<lparr>sp_id := i\<rparr>) = of_node n e (?am h)" for i h by blast
  from insert_in_order [OF ok r _ this] pre show ?thesis
    unfolding mem by (auto simp: snapshot_digest_def)
qed

type_synonym snapshot_call = "string \<times> i64 \<times> i64 \<times> i64 \<times> i64"

definition create_step :: "(bytes \<Rightarrow> bytes) \<Rightarrow> 't snapshots \<Rightarrow> snapshot_call \<Rightarrow> 't \<Rightarrow> 't" where
  "create_step sha256 tb c t = (case c of (n, e, tick, res, acc) \<Rightarrow> snd (snapshot_create sha256 tb n e tick res acc t))"

definition ticks_for :: "string \<Rightarrow> i64 \<Rightarrow> snapshot_call list \<Rightarrow> i64 list" where
  "ticks_for n e cs = map (\<lambda>(_, _, tick, _, _). tick) (filter (\<lambda>(n', e', _, _, _). n' = n \<and> e' = e) cs)"

lemma snapshots_linked:
  assumes "snapshots_ok tb t" "linked sp_pre_hash sp_hash allocation_genesis (snapshot_entries tb n e t)"
    and "list_all (\<lambda>r. sp_hash r = snapshot_digest sha256 r) (snapshot_entries tb n e t)"
    and "sorted_wrt (<) (map sp_tick (snapshot_entries tb n e t) @ ticks_for n e cs)"
  shows "linked sp_pre_hash sp_hash allocation_genesis (snapshot_entries tb n e (fold (create_step sha256 tb) cs t)) \<and>
    list_all (\<lambda>r. sp_hash r = snapshot_digest sha256 r) (snapshot_entries tb n e (fold (create_step sha256 tb) cs t))"
  using assms
proof (induction cs arbitrary: t)
  case (Cons c cs)
  obtain n' e' tick res acc where c: "c = (n', e', tick, res, acc)" by (metis prod_cases5)
  obtain x t' where x: "snapshot_create sha256 tb n' e' tick res acc t = (x, t')" by fastforce
  have inc: "sorted_wrt (<) (map sp_tick (snapshot_entries tb n e t))"
    using Cons.prems(4) by (simp add: sorted_wrt_append)
  show ?case
  proof (cases x)
    case (Inl er)
    have "sorted_wrt (<) (map sp_tick (snapshot_entries tb n e t) @ ticks_for n e cs)"
      using Cons.prems(4) by (auto simp: ticks_for_def sorted_wrt_append split: if_splits)
    then show ?thesis
      using Cons x snapshot_create_err [of sha256 tb n' e' tick res acc t er t'] Inl by (simp add: c create_step_def)
  next
    case (Inr r)
    have s: "create_step sha256 tb c t = t'" by (simp add: c x create_step_def)
    note step = snapshot_create_ok [OF Cons.prems(1) x [unfolded Inr] inc]
    show ?thesis
    proof (cases "n' = n \<and> e' = e")
      case True
      then show ?thesis
        using step Cons.prems by (simp add: s) (rule Cons.IH; auto simp: linked_snoc ticks_for_def c)
    next
      case False
      then show ?thesis
        using step Cons.prems by (simp add: s) (rule Cons.IH; auto simp: ticks_for_def c)
    qed
  qed
qed simp

subsection \<open>Properties\<close>

text \<open>
  The weight of a resource that is paid by time. Whenever a weight is computed it is the
  base weight scaled by the whole cents of a day, without loss in the casts, and a month of
  it never exceeds the base weight.
\<close>

theorem time_weight_bounds:
  assumes "mp_pricing_unit m = TimeBased" "base_weight m = Some b" "compute_weight days m = Some w"
  shows "unat w = unat b * (unat (mp_price_per_unit_per_month m) div unat days) div
      unat (mp_price_per_unit_per_month m) \<and> unat w * unat days \<le> unat b"
proof -
  let ?p = "unat (mp_price_per_unit_per_month m)"
  have w: "unat w = unat b * (?p div unat days) div ?p" by (rule time_weight [OF assms])
  have p: "0 < ?p" using assms by (auto simp: compute_weight_def Let_def unat_gt_0 split: if_splits)
  have "unat w * ?p \<le> unat b * (?p div unat days)" unfolding w by (rule div_times_less_eq_dividend)
  then have "unat w * ?p * unat days \<le> unat b * (?p div unat days) * unat days" by (rule mult_le_mono1)
  then have "unat w * unat days * ?p \<le> unat b * (?p div unat days * unat days)" by (simp only: ac_simps)
  also have "\<dots> \<le> unat b * ?p" by (simp add: div_times_less_eq_dividend)
  finally show ?thesis using p w by simp
qed

text \<open>
  The snapshots of a node within an epoch form a hash chain. Whatever snapshots of whatever
  nodes are created, and whichever insertions fail, if the ticks given for the node and
  epoch increase then its rows in id order link back to the genesis hash and each carries
  the hash of its contents.
\<close>

theorem snapshots_chained:
  assumes "snapshots_ok tb t" "snapshot_entries tb n e t = []" "sorted_wrt (<) (ticks_for n e cs)"
  shows "linked sp_pre_hash sp_hash allocation_genesis (snapshot_entries tb n e (fold (create_step sha256 tb) cs t)) \<and>
    list_all (\<lambda>r. sp_hash r = snapshot_digest sha256 r) (snapshot_entries tb n e (fold (create_step sha256 tb) cs t))"
  by (rule snapshots_linked) (simp_all add: assms)

definition demo_price :: market_price where
  "demo_price =
     \<lparr>mp_id = 1, mp_resource_type = ResIp, mp_country = ''CN'', mp_city = ''X'', mp_pricing_unit = TimeBased,
      mp_unit = UnitIp, mp_price_per_unit_per_month = 300, mp_local_avg_income = 100, mp_global_avg_price = 310,
      mp_global_avg_income = 200, mp_valid_from_epoch = 0, mp_valid_to_epoch = 0, mp_pre_hash = [], mp_hash = []\<rparr>"

text \<open>An address for three dollars a month.\<close>

lemma time_weight_bounds_witness: "compute_weight 30 demo_price = Some 20 \<and> unat (20 :: u16) * 30 \<le> 620"
proof -
  have "compute_weight 30 demo_price = Some 20" "base_weight demo_price = Some 620" by code_simp+
  then show ?thesis using time_weight_bounds [of demo_price 620 30 20] by (simp add: demo_price_def)
qed

definition demo_snapshots :: "snapshot_row list snapshots" where
  "demo_snapshots = list_table sp_id (\<lambda>i r. r\<lparr>sp_id := i\<rparr>) (\<lambda>_ _. False)"

text \<open>Two nodes, one with two ticks.\<close>

lemma snapshots_chained_witness:
  "linked sp_pre_hash sp_hash allocation_genesis (snapshot_entries demo_snapshots ''A'' 1
     (fold (create_step (\<lambda>b. take 2 (rev b)) demo_snapshots) [(''A'', 1, 1, 7, 5), (''B'', 1, 1, 7, 5), (''A'', 1, 2, 7, 6)] []))"
  using snapshots_chained [of demo_snapshots "[]" "''A''" 1 "[(''A'', 1, 1, 7, 5), (''B'', 1, 1, 7, 5), (''A'', 1, 2, 7, 6)]"]
  by (simp add: demo_snapshots_def rows_ok_def list_table_ok in_order_def ticks_for_def) (simp add: list_table_def)

end
