(* ===== verification/Network.thy ===== *)
theory Network
  imports SeedSync
begin

text \<open>
  A network of nodes that synchronise their seeds with the handlers of \<open>SeedSync\<close>. Frames travel
  asynchronously: a frame that was sent may arrive late, in any order, more than once or never, so
  the state of the network is the context of every node and the frames sent so far. The abstract
  specification is the spreading of rumours: every node and every message has a set of nodes whose
  initial seeds it knows. Shown: the network refines this specification, and what it says of a
  schedule in which every node talks to a hub twice.
\<close>

subsection \<open>Specification: spreading of rumours\<close>

text \<open>A request from one node to another, and the response on the way back.\<close>

datatype envelope = Request nat nat | Response nat nat

datatype net_event = Ask nat nat | Answer nat bool | Learn nat

type_synonym spread_state = "(nat \<Rightarrow> nat set) \<times> (envelope \<times> nat set) list"

fun spread :: "net_event \<Rightarrow> spread_state \<Rightarrow> spread_state" where
  "spread (Ask a b) (K, ms) = (K, ms @ [(Request a b, K a)])"
| "spread (Answer m replied) (K, ms) =
     (if m < length ms
      then (case ms ! m of
              (Request a b, C) \<Rightarrow>
                (K(b := K b \<union> C), ms @ (if replied then [(Response b a, K b \<union> C)] else []))
            | (Response _ _, _) \<Rightarrow> (K, ms))
      else (K, ms))"
| "spread (Learn m) (K, ms) =
     (if m < length ms
      then (case ms ! m of (Response b a, C) \<Rightarrow> (K(a := K a \<union> C), ms) | (Request _ _, _) \<Rightarrow> (K, ms))
      else (K, ms))"

definition spread_start :: spread_state where
  "spread_start = (\<lambda>i. {i}, [])"

definition knows :: "net_event list \<Rightarrow> nat \<Rightarrow> nat set" where
  "knows es = fst (fold spread es spread_start)"

subsection \<open>The network\<close>

type_synonym 'p net_state = "(nat \<Rightarrow> 'p global_ctx) \<times> (envelope \<times> bytes) list"

text \<open>
  Sending a request, handling a request that arrives at its receiver, and handling a response. The
  clock, the nonce and the connection of each step are arbitrary.
\<close>

inductive net_step ::
  "sync_env \<Rightarrow> 'p psk_ops \<Rightarrow> 'p net_state \<Rightarrow> net_event \<Rightarrow> 'p net_state \<Rightarrow> bool"
  for se psk where
  ask: "frame_send se psk (se_request se) nonce (nodes a) c (Some (local_request se (nodes a))) ENode
      SeedSyncRequest False = Inr (Some bs) \<Longrightarrow>
    net_step se psk (nodes, wire) (Ask a b) (nodes, wire @ [(Request a b, bs)])"
| answer: "m < length wire \<Longrightarrow> wire ! m = (Request a b, bs) \<Longrightarrow> verify_bytes se bs = Some f \<Longrightarrow>
    command_from_data se (fr_body f) = Some cmd \<Longrightarrow>
    seed_sync_request_handler se psk now nonce c cmd (nodes b) = (g, reply) \<Longrightarrow>
    net_step se psk (nodes, wire) (Answer m (reply \<noteq> None))
      (nodes(b := g), wire @ (case reply of Some bs' \<Rightarrow> [(Response b a, bs')] | None \<Rightarrow> []))"
| learn: "m < length wire \<Longrightarrow> wire ! m = (Response b a, bs) \<Longrightarrow> verify_bytes se bs = Some f \<Longrightarrow>
    command_from_data se (fr_body f) = Some cmd \<Longrightarrow>
    net_step se psk (nodes, wire) (Learn m) (nodes(a := seed_sync_response_handler se now cmd (nodes a)), wire)"

inductive net_run ::
  "sync_env \<Rightarrow> 'p psk_ops \<Rightarrow> (nat \<Rightarrow> 'p global_ctx) \<Rightarrow> net_event list \<Rightarrow> 'p net_state \<Rightarrow> bool"
  for se psk nodes0 where
  start: "net_run se psk nodes0 [] (nodes0, [])"
| step: "net_run se psk nodes0 es s \<Longrightarrow> net_step se psk s e s' \<Longrightarrow> net_run se psk nodes0 (es @ [e]) s'"

text \<open>The public IPv4 seeds a node lists, and nodes that can take part.\<close>

definition public_view :: "'p global_ctx \<Rightarrow> (socket_addr \<times> string) set" where
  "public_view g = {(x, n). (x, n) \<in> seeds_of g \<and> public_v4 x}"

definition node_ready :: "sync_env \<Rightarrow> 'p global_ctx \<Rightarrow> bool" where
  "node_ready se g \<longleftrightarrow> (\<exists>acc. g_address g = Some acc \<and> keypair (fe_crypto se) acc) \<and> gctx_ok g \<and> g_node g \<noteq> None"

subsection \<open>Simulation\<close>

definition offers :: "seed_set \<Rightarrow> (socket_addr \<times> string) set" where
  "offers sset = {(x, n). (n, x) \<in> set (info_pairs (ss_seeds sset)) \<and> public_v4 x}"

text \<open>What a frame on the wire carries, whenever it verifies.\<close>

fun carries :: "sync_env \<Rightarrow> (socket_addr \<times> string) set \<Rightarrow> envelope \<times> bytes \<Rightarrow> bool" where
  "carries se V (Request a b, bs) =
     (\<forall>f cmd. verify_bytes se bs = Some f \<longrightarrow> command_from_data se (fr_body f) = Some cmd \<longrightarrow>
        (\<exists>rq. dec (se_request se) (cmd_data cmd) = Some rq \<and> offers (rq_seed_set rq) = V))"
| "carries se V (Response b a, bs) =
     (\<forall>f cmd. verify_bytes se bs = Some f \<longrightarrow> command_from_data se (fr_body f) = Some cmd \<longrightarrow>
        (\<exists>rs. dec (se_response se) (cmd_data cmd) = Some rs \<and> offers (rs_seed_set rs) = V))"

definition seeds_from :: "(nat \<Rightarrow> 'p global_ctx) \<Rightarrow> nat set \<Rightarrow> (socket_addr \<times> string) set" where
  "seeds_from nodes0 K = (\<Union>k \<in> K. public_view (nodes0 k))"

definition net_sim :: "sync_env \<Rightarrow> (nat \<Rightarrow> 'p global_ctx) \<Rightarrow> 'p net_state \<Rightarrow> spread_state \<Rightarrow> bool" where
  "net_sim se nodes0 s t \<longleftrightarrow>
     (\<forall>i. node_ready se (fst s i)) \<and> (\<forall>i. public_view (fst s i) = seeds_from nodes0 (fst t i)) \<and>
     list_all2 (\<lambda>x y. fst x = fst y \<and> carries se (seeds_from nodes0 (snd y)) x) (snd s) (snd t)"

lemma seeds_from_Un: "seeds_from nodes0 (K \<union> L) = seeds_from nodes0 K \<union> seeds_from nodes0 L"
  by (auto simp: seeds_from_def)

lemma node_ready_absorb: "node_ready se g \<Longrightarrow> node_ready se (absorb_seeds se' now sset g)"
  by (auto simp: node_ready_def gctx_ok_absorb)

lemma public_view_absorb:
  "node_ready se g \<Longrightarrow> public_view (absorb_seeds se' now sset g) = public_view g \<union> offers sset"
  by (auto simp: public_view_def offers_def seeds_of_absorb node_ready_def)

lemma offers_request: "node_ready se g \<Longrightarrow> offers (rq_seed_set (local_request se' g)) = public_view g"
  by (auto simp: offers_def public_view_def node_ready_def local_request_def local_seed_set_def info_pairs_derive
      seeds_of_def g_registry_def public_v4_def)

lemma offers_response: "g_registry g = Some reg \<Longrightarrow> offers (rs_seed_set (sync_response se reg)) = public_view g"
  by (auto simp: offers_def public_view_def info_pairs_response seeds_of_def)

lemma carries_request:
  assumes "frame_env_ok se" "codec_ok (se_request se)" "node_ready se g"
    and "frame_send se psk (se_request se) nonce g c (Some (local_request se g)) ENode SeedSyncRequest False =
      Inr (Some bs)"
  shows "carries se (public_view g) (Request a b, bs)"
  using assms(3) frame_send_delivers' [OF assms(1,2) _ _ assms(4)] offers_request [OF assms(3), of se]
  by (auto simp: node_ready_def)

lemma carries_response:
  assumes "frame_env_ok se" "codec_ok (se_response se)" "node_ready se g" "g_registry g = Some reg"
    and "frame_send se psk (se_response se) nonce g c (Some (sync_response se reg)) ENode SeedSyncResponse False =
      Inr (Some bs)"
  shows "carries se (public_view g) (Response b a, bs)"
  using assms(3) frame_send_delivers' [OF assms(1,2) _ _ assms(5)] offers_response [OF assms(4), of se]
  by (auto simp: node_ready_def)

lemma request_handled:
  assumes "dec (se_request se) (cmd_data cmd) = Some rq"
    and "seed_sync_request_handler se psk now nonce c cmd g = (g', reply)"
  shows "g' = absorb_seeds se now (rq_seed_set rq) g"
  using assms by (auto simp: seed_sync_request_handler_def Let_def split: option.splits)

text \<open>What handling a frame does to its receiver, and what the answer carries.\<close>

lemma request_taken:
  assumes env: "frame_env_ok se" "codec_ok (se_response se)" and ready: "node_ready se g"
    and msg: "carries se V (Request a b, bs)" "verify_bytes se bs = Some f" "command_from_data se (fr_body f) = Some cmd"
    and handled: "seed_sync_request_handler se psk now nonce c cmd g = (g', reply)"
  shows "node_ready se g' \<and> public_view g' = public_view g \<union> V \<and>
    (\<forall>bs'. reply = Some bs' \<longrightarrow> carries se (public_view g') (Response b a, bs'))"
proof -
  obtain rq where rq: "dec (se_request se) (cmd_data cmd) = Some rq" "offers (rq_seed_set rq) = V" using msg by auto
  have g': "g' = absorb_seeds se now (rq_seed_set rq) g" by (rule request_handled [OF rq(1) handled])
  have ready': "node_ready se g'" unfolding g' by (rule node_ready_absorb [OF ready])
  have "carries se (public_view g') (Response b a, bs')" if "reply = Some bs'" for bs'
    using request_handler_cases [OF rq(1), of psk now nonce c g g' bs'] handled that
      carries_response [OF env ready'] by blast
  then show ?thesis using ready' by (simp add: g' public_view_absorb [OF ready] rq(2))
qed

lemma response_taken:
  assumes "node_ready se g" "carries se V (Response b a, bs)" "verify_bytes se bs = Some f"
    and "command_from_data se (fr_body f) = Some cmd"
  shows "node_ready se (seed_sync_response_handler se now cmd g) \<and>
    public_view (seed_sync_response_handler se now cmd g) = public_view g \<union> V"
proof -
  obtain rs where "dec (se_response se) (cmd_data cmd) = Some rs" "offers (rs_seed_set rs) = V" using assms by auto
  then show ?thesis
    by (simp add: seed_sync_response_handler_def public_view_absorb [OF assms(1)] node_ready_absorb [OF assms(1)])
qed

text \<open>Every step of the network is the step of the specification with the same name.\<close>

lemma net_sim_step:
  assumes env: "frame_env_ok se" "codec_ok (se_request se)" "codec_ok (se_response se)"
    and sim: "net_sim se nodes0 s t" and step: "net_step se psk s e s'"
  shows "net_sim se nodes0 s' (spread e t)"
proof -
  obtain K ms where t: "t = (K, ms)" by (cases t)
  have ready: "node_ready se (fst s i)" and view: "public_view (fst s i) = seeds_from nodes0 (K i)" for i
    using sim by (simp_all add: net_sim_def t)
  have wire: "list_all2 (\<lambda>x y. fst x = fst y \<and> carries se (seeds_from nodes0 (snd y)) x) (snd s) ms"
    using sim by (simp add: net_sim_def t)
  have at: "m < length ms \<and> fst (snd s ! m) = fst (ms ! m) \<and> carries se (seeds_from nodes0 (snd (ms ! m))) (snd s ! m)"
    if "m < length (snd s)" for m
    using list_all2_nthD [OF wire that] list_all2_lengthD [OF wire] that by simp
  from step show ?thesis
  proof cases
    case (ask nonce nodes a c bs wr b)
    have "carries se (seeds_from nodes0 (K a)) (Request a b, bs)"
      using carries_request [OF env(1,2) ready [of a]] view [of a] ask by simp
    then show ?thesis using ready view wire ask by (auto simp: net_sim_def t list_all2_appendI)
  next
    case (answer m wr a b bs f cmd now nonce c nodes g reply)
    obtain C where C: "ms ! m = (Request a b, C)" "carries se (seeds_from nodes0 C) (Request a b, bs)"
      using at [of m] answer by (cases "ms ! m") auto
    have "node_ready se (nodes b)" "public_view (nodes b) = seeds_from nodes0 (K b)"
      using ready [of b] view [of b] answer by simp_all
    then have "node_ready se g" "public_view g = seeds_from nodes0 (K b \<union> C)"
      "\<And>bs'. reply = Some bs' \<Longrightarrow> carries se (seeds_from nodes0 (K b \<union> C)) (Response b a, bs')"
      using request_taken [OF env(1,3) _ C(2) answer(6,7,8)] by (auto simp: seeds_from_Un simp del: carries.simps)
    then show ?thesis
      using ready view wire at [of m] answer C(1)
      by (auto simp: net_sim_def t split: option.split intro!: list_all2_appendI)
  next
    case (learn m wr b a bs f cmd nodes now)
    obtain C where C: "ms ! m = (Response b a, C)" "carries se (seeds_from nodes0 C) (Response b a, bs)"
      using at [of m] learn by (cases "ms ! m") auto
    have "node_ready se (nodes a)" "public_view (nodes a) = seeds_from nodes0 (K a)"
      using ready [of a] view [of a] learn by simp_all
    then have "node_ready se (seed_sync_response_handler se now cmd (nodes a))"
      "public_view (seed_sync_response_handler se now cmd (nodes a)) = seeds_from nodes0 (K a \<union> C)"
      using response_taken [OF _ C(2) learn(6,7), of "nodes a" now] by (simp_all add: seeds_from_Un)
    then show ?thesis using ready view wire at [of m] learn C(1) by (auto simp: net_sim_def t)
  qed
qed

lemma net_sim_run:
  assumes env: "frame_env_ok se" "codec_ok (se_request se)" "codec_ok (se_response se)"
    and ready: "\<And>i. node_ready se (nodes0 i)" and run: "net_run se psk nodes0 es s"
  shows "net_sim se nodes0 s (fold spread es spread_start)"
  using run
proof (induction rule: net_run.induct)
  case start
  show ?case using ready by (simp add: net_sim_def spread_start_def seeds_from_def)
next
  case (step es s e s')
  then show ?case using net_sim_step [OF env step.IH step.hyps(2)] by simp
qed

subsection \<open>Talking to a hub\<close>

text \<open>One node after the other asks the hub and learns its answer; all of them do so twice.\<close>

definition exchange_events :: "nat \<Rightarrow> nat \<Rightarrow> nat \<Rightarrow> net_event list" where
  "exchange_events h k a = [Ask a h, Answer (2 * k) True, Learn (2 * k + 1)]"

definition hub_schedule :: "nat \<Rightarrow> nat list \<Rightarrow> net_event list" where
  "hub_schedule h xs = concat (map (\<lambda>(k, a). exchange_events h k a) (enumerate 0 (xs @ xs)))"

definition meet :: "nat \<Rightarrow> nat \<Rightarrow> (nat \<Rightarrow> nat set) \<Rightarrow> nat \<Rightarrow> nat set" where
  "meet h a K = K(h := K h \<union> K a, a := K h \<union> K a)"

lemma exchange_meets:
  assumes "length ms = 2 * k" "a \<noteq> h"
  shows "\<exists>ms'. fold spread (exchange_events h k a) (K, ms) = (meet h a K, ms') \<and> length ms' = 2 * Suc k"
  using assms by (auto simp: exchange_events_def nth_append meet_def fun_eq_iff)

lemma exchanges_meet:
  assumes "length ms = 2 * k" "h \<notin> set ys"
  shows "fst (fold spread (concat (map (\<lambda>(k, a). exchange_events h k a) (enumerate k ys))) (K, ms)) =
    fold (meet h) ys K"
  using assms
proof (induction ys arbitrary: k K ms)
  case (Cons a ys)
  obtain ms' where "fold spread (exchange_events h k a) (K, ms) = (meet h a K, ms')" "length ms' = 2 * Suc k"
    using exchange_meets [of ms k a h K] Cons.prems by auto
  then show ?case using Cons.IH [of ms' "Suc k" "meet h a K"] Cons.prems by simp
qed simp

text \<open>The first round teaches the hub, the second one everybody else.\<close>

lemma meet_grows: "K i \<subseteq> meet h a K i"
  by (simp add: meet_def)

lemma rounds_grow: "K i \<subseteq> fold (meet h) ys K i"
proof (induction ys arbitrary: K)
  case (Cons a ys)
  show ?case using meet_grows [of K i h a] Cons.IH [of "meet h a K"] by (auto simp only: fold_simps)
qed simp

lemma hub_learns: "a \<in> set ys \<Longrightarrow> K a \<subseteq> fold (meet h) ys K h"
proof (induction ys arbitrary: K)
  case (Cons b ys)
  show ?case
  proof (cases "a = b")
    case True
    have "K a \<subseteq> meet h a K h" by (simp add: meet_def)
    then show ?thesis using rounds_grow [of "meet h a K" h h ys] True by (auto simp only: fold_simps)
  next
    case False
    then have "meet h b K a \<subseteq> fold (meet h) ys (meet h b K) h" using Cons by simp
    then show ?thesis using meet_grows [of K a h b] by (auto simp only: fold_simps)
  qed
qed simp

lemma all_learn: "a \<in> set ys \<Longrightarrow> K h \<subseteq> fold (meet h) ys K a"
proof (induction ys arbitrary: K)
  case (Cons b ys)
  show ?case
  proof (cases "a = b")
    case True
    have "K h \<subseteq> meet h a K a" by (simp add: meet_def)
    then show ?thesis using rounds_grow [of "meet h a K" a h ys] True by (auto simp only: fold_simps)
  next
    case False
    then have "meet h b K h \<subseteq> fold (meet h) ys (meet h b K) a" using Cons by simp
    then show ?thesis using meet_grows [of K h h b] by (auto simp only: fold_simps)
  qed
qed simp

lemma rounds_bounded:
  "(\<And>i. i \<in> S \<Longrightarrow> K i \<subseteq> U) \<Longrightarrow> h \<in> S \<Longrightarrow> set ys \<subseteq> S \<Longrightarrow> i \<in> S \<Longrightarrow> fold (meet h) ys K i \<subseteq> U"
proof (induction ys arbitrary: K)
  case (Cons a ys)
  have "meet h a K j \<subseteq> U" if "j \<in> S" for j
    using Cons.prems(1) [OF that] Cons.prems(1) [of h] Cons.prems(1) [of a] Cons.prems(2,3) by (auto simp: meet_def)
  from Cons.IH [OF this Cons.prems(2)] Cons.prems(3,4) show ?case by (simp only: fold_simps) simp
qed simp

lemma hub_knows:
  assumes "h \<notin> set xs" "i \<in> insert h (set xs)"
  shows "knows (hub_schedule h xs) i = insert h (set xs)"
proof -
  let ?K = "\<lambda>i :: nat. {i}" and ?U = "insert h (set xs)"
  let ?K1 = "fold (meet h) xs ?K"
  have k: "knows (hub_schedule h xs) = fold (meet h) xs ?K1"
    using exchanges_meet [of "[]" 0 h "xs @ xs" ?K] assms(1)
    by (simp add: knows_def hub_schedule_def spread_start_def)
  have "?U \<subseteq> ?K1 h" using rounds_grow [of ?K h h xs] hub_learns [of _ xs ?K h] by auto
  moreover have "?K1 h \<subseteq> fold (meet h) xs ?K1 i"
    using assms(2) rounds_grow [of ?K1 h h xs] all_learn [of i xs ?K1 h] by auto
  moreover have "fold (meet h) (xs @ xs) ?K i \<subseteq> ?U" using assms(2) by (intro rounds_bounded [of ?U]) auto
  ultimately show ?thesis by (auto simp: k)
qed

subsection \<open>Properties\<close>

text \<open>
  C1. The network refines the spreading of rumours. Whatever frames are sent, lost, delayed, reordered
  and delivered more than once, each node lists at every moment exactly the public IPv4 seeds that
  the nodes it has heard of, directly or through others, listed at the start: no seed of theirs is
  missing and none is made up.
\<close>

theorem network_refines_spreading:
  assumes "frame_env_ok se" "codec_ok (se_request se)" "codec_ok (se_response se)"
    and "\<And>i. node_ready se (nodes0 i)" and "net_run se psk nodes0 es (nodes, wire)"
  shows "public_view (nodes i) = (\<Union>k \<in> knows es i. public_view (nodes0 k))"
  using net_sim_run [OF assms] by (simp add: net_sim_def knows_def seeds_from_def)

text \<open>
  Two rounds with a hub are enough. When every node of a list asks the hub and learns its answer,
  one after the other, and all of them do so a second time, then the hub and all the nodes list the
  same public IPv4 seeds: those that any of them listed at the start.
\<close>

theorem hub_rounds_converge:
  assumes "frame_env_ok se" "codec_ok (se_request se)" "codec_ok (se_response se)"
    and "\<And>i. node_ready se (nodes0 i)" and "net_run se psk nodes0 (hub_schedule h xs) (nodes, wire)"
    and "h \<notin> set xs" "i \<in> insert h (set xs)"
  shows "public_view (nodes i) = (\<Union>k \<in> insert h (set xs). public_view (nodes0 k))"
  using net_sim_run [OF assms(1-5)] hub_knows [OF assms(6,7)] by (simp add: net_sim_def knows_def seeds_from_def)

subsection \<open>Witnesses\<close>

text \<open>Node 0 asks node 1, which answers, and node 0 learns the answer.\<close>

definition demo_net :: "nat \<Rightarrow> nat global_ctx" where
  "demo_net i = (if i = 0 then demo_node_ctx ''A'' 1 else demo_node_ctx ''B'' 2)"

lemma demo_net_ready: "node_ready demo_sync (demo_net i)"
  using demo_ctx_ok demo_acc by (auto simp: node_ready_def demo_net_def)

lemma demo_net_run:
  "\<exists>nodes wire. net_run demo_sync demo_psk demo_net [Ask 0 1, Answer 0 True, Learn 1] (nodes, wire)"
proof -
  let ?B = "absorb_seeds demo_sync 2 (rq_seed_set demo_request) (demo_node_ctx ''B'' 2)"
  have "net_step demo_sync demo_psk (demo_net, []) (Ask 0 1) (demo_net, [] @ [(Request 0 1, [1])])"
    using demo_send_request by (intro net_step.ask) (simp add: demo_net_def)
  with net_run.start have 1: "net_run demo_sync demo_psk demo_net ([] @ [Ask 0 1]) (demo_net, [(Request 0 1, [1])])"
    by (metis append_Nil net_run.step)
  have "net_step demo_sync demo_psk (demo_net, [(Request 0 1, [1])]) (Answer 0 (Some ([2] :: bytes) \<noteq> None))
      (demo_net(1 := ?B), [(Request 0 1, [1])] @ (case Some [2] of Some bs' \<Rightarrow> [(Response 1 0, bs')] | None \<Rightarrow> []))"
    using demo_reply by (intro net_step.answer [OF _ _ demo_verify(1) demo_commands(1)]) (simp_all add: demo_net_def)
  from net_run.step [OF 1 this] have 2: "net_run demo_sync demo_psk demo_net [Ask 0 1, Answer 0 True]
      (demo_net(1 := ?B), [(Request 0 1, [1]), (Response 1 0, [2])])" by simp
  have "net_step demo_sync demo_psk (demo_net(1 := ?B), [(Request 0 1, [1]), (Response 1 0, [2])]) (Learn 1)
      ((demo_net(1 := ?B))(0 := seed_sync_response_handler demo_sync 3 (p2p_command_new ENode SeedSyncResponse [9])
        ((demo_net(1 := ?B)) 0)), [(Request 0 1, [1]), (Response 1 0, [2])])"
    by (rule net_step.learn [OF _ _ demo_verify(2) demo_commands(2)]) simp_all
  from net_run.step [OF 2 this] show ?thesis by fastforce
qed

lemma network_refines_spreading_witness:
  "\<exists>nodes wire. net_run demo_sync demo_psk demo_net [Ask 0 1, Answer 0 True, Learn 1] (nodes, wire) \<and>
     public_view (nodes 0) = public_view (demo_net 1) \<union> public_view (demo_net 0)"
proof -
  obtain nodes wire where run: "net_run demo_sync demo_psk demo_net [Ask 0 1, Answer 0 True, Learn 1] (nodes, wire)"
    using demo_net_run by blast
  have "knows [Ask 0 1, Answer 0 True, Learn 1] 0 = {1, 0}" by (auto simp: knows_def spread_start_def)
  then show ?thesis
    using run network_refines_spreading [OF demo_sync_ok demo_net_ready run, of 0] by auto
qed

end
