(* ===== verification/Schema.thy ===== *)
theory Schema
  imports Store
begin

text \<open>
  Creating the tables: \<^verbatim>\<open>create_table\<close> and \<^verbatim>\<open>create_all_table\<close> of \<^verbatim>\<open>src/db/store.rs\<close> with
  the macro of \<^verbatim>\<open>src/db/defines.rs\<close>. The tables are those of \<^verbatim>\<open>src/db/entity/mod.rs\<close>.
  Executing one statement is a parameter. Shown: every table is tried, an error is
  reported exactly when some statement fails, and which tables a fresh database gets.
\<close>

datatype db_table =
    TBalance | TChatMessage | TContact | TEncryptedMessage | TEpoch | TEpochAllocation | TEpochReward | TMeta | TNode
  | TPublicServer | TTick | TTransaction | TTransactionSet | TWitness | TWitnessSeed | TWitnessTickRecord

text \<open>\<open>exec\<close> runs the statement that creates a table if it does not exist.\<close>

definition create_table ::
  "(db_table \<Rightarrow> 'd \<Rightarrow> (string + unit) \<times> 'd) \<Rightarrow> db_table \<Rightarrow> 'd \<Rightarrow> (string + unit) \<times> 'd" where
  "create_table exec tbl d = exec tbl d"

fun create_entities ::
  "(db_table \<Rightarrow> 'd \<Rightarrow> (string + unit) \<times> 'd) \<Rightarrow> string option \<Rightarrow> db_table list \<Rightarrow> 'd \<Rightarrow> (string + unit) \<times> 'd" where
  "create_entities exec last_err [] d = (case last_err of Some e \<Rightarrow> (Inl e, d) | None \<Rightarrow> (Inr (), d))"
| "create_entities exec last_err (tbl # tbls) d =
     (case create_table exec tbl d of
        (Inr _, d') \<Rightarrow> create_entities exec last_err tbls d'
      | (Inl e, d') \<Rightarrow> create_entities exec (Some e) tbls d')"

definition all_tables :: "db_table list" where
  "all_tables = [TMeta, TBalance, TTransaction, TTransactionSet, TPublicServer, TWitnessTickRecord, TEpoch,
     TEpochReward, TEpochAllocation]"

definition create_all_table ::
  "(db_table \<Rightarrow> 'd \<Rightarrow> (string + unit) \<times> 'd) \<Rightarrow> 'd \<Rightarrow> (string + unit) \<times> 'd" where
  "create_all_table exec d = create_entities exec None all_tables d"

subsection \<open>Lemmas\<close>

text \<open>
  What the statement does: on success the table exists, on failure nothing changes; whether
  it succeeds (\<open>able\<close>) depends on the table only.
\<close>

definition ddl_ok ::
  "(db_table \<Rightarrow> 'd \<Rightarrow> (string + unit) \<times> 'd) \<Rightarrow> ('d \<Rightarrow> db_table set) \<Rightarrow> (db_table \<Rightarrow> bool) \<Rightarrow> bool" where
  "ddl_ok exec tables able \<longleftrightarrow>
     (\<forall>tbl d. (able tbl \<longrightarrow> (\<exists>d'. exec tbl d = (Inr (), d') \<and> tables d' = insert tbl (tables d))) \<and>
              (\<not> able tbl \<longrightarrow> (\<exists>e. exec tbl d = (Inl e, d))))"

lemma create_entities_spec:
  assumes "ddl_ok exec tables able"
  shows "tables (snd (create_entities exec last_err tbls d)) = tables d \<union> {t \<in> set tbls. able t} \<and>
    (isl (fst (create_entities exec last_err tbls d)) \<longleftrightarrow> last_err \<noteq> None \<or> (\<exists>t \<in> set tbls. \<not> able t))"
proof (induction tbls arbitrary: last_err d)
  case (Cons tbl tbls)
  show ?case
  proof (cases "able tbl")
    case True
    then obtain d' where d': "exec tbl d = (Inr (), d')" "tables d' = insert tbl (tables d)"
      using assms unfolding ddl_ok_def by blast
    show ?thesis using Cons.IH [of last_err d'] True by (auto simp: create_table_def d')
  next
    case False
    then obtain e where "exec tbl d = (Inl e, d)" using assms unfolding ddl_ok_def by blast
    then show ?thesis using Cons.IH [of "Some e" d] False by (auto simp: create_table_def)
  qed
qed (auto split: option.splits)

text \<open>The tables of contacts, chat and encrypted messages, seeds and witnesses are never created.\<close>

lemma create_all_omits:
  assumes "ddl_ok exec tables able" "tables d = {}"
  shows "tables (snd (create_all_table exec d)) \<inter>
    {TChatMessage, TContact, TEncryptedMessage, TWitness, TWitnessSeed, TNode, TTick} = {}"
  using create_entities_spec [OF assms(1), of None all_tables d] assms(2)
  by (auto simp: create_all_table_def all_tables_def)

subsection \<open>Properties\<close>

text \<open>
  Creating all tables. Every table of the list that can be created exists afterwards, also
  when another one fails, and the call reports an error exactly when one of them fails.
\<close>

theorem create_all_table_effect:
  assumes "ddl_ok exec tables able"
  shows "tables (snd (create_all_table exec d)) = tables d \<union> {t \<in> set all_tables. able t} \<and>
    (isl (fst (create_all_table exec d)) \<longleftrightarrow> (\<exists>t \<in> set all_tables. \<not> able t))"
  using create_entities_spec [OF assms, of None all_tables d] by (simp add: create_all_table_def)

definition demo_exec :: "db_table \<Rightarrow> db_table list \<Rightarrow> (string + unit) \<times> db_table list" where
  "demo_exec tbl d = (if tbl = TEpoch then (Inl ''locked'', d) else (Inr (), List.insert tbl d))"

text \<open>One statement fails; the tables behind it are created.\<close>

lemma create_all_table_effect_witness:
  "TEpochReward \<in> set (snd (create_all_table demo_exec [])) \<and> isl (fst (create_all_table demo_exec []))"
proof -
  have "ddl_ok demo_exec set (\<lambda>t. t \<noteq> TEpoch)" by (simp add: ddl_ok_def demo_exec_def)
  from create_all_table_effect [OF this, of "[]"] show ?thesis by (simp add: all_tables_def)
qed

end
