(* ===== verification/Tables.thy ===== *)
theory Tables
  imports Schema Directory
begin

text \<open>
  The tables of \<^verbatim>\<open>src/db/entity\<close>: for every \<^verbatim>\<open>entity.rs\<close> its name and its columns as the attributes
  of the struct declare them. Four stores declare an entity of their own instead of using the one
  the table is created from; they have a second definition here. Creating a table and executing a
  statement is left to \<^verbatim>\<open>sea_orm\<close>; \<open>created_from\<close> names what is used of it. Shown: three of the four
  declare the columns of their table, and the insertions of the fourth, the witness store, can
  never go through.
\<close>

subsection \<open>Columns and values\<close>

datatype rust_type = RI8 | RI16 | RI32 | RI64 | RU8 | RU16 | RU32 | RU64 | RF64 | RBoolean | RText | RBlob

record column =
  col_name :: string
  col_type :: rust_type
  col_nullable :: bool
  col_primary :: bool
  col_unique :: bool

text \<open>A plain field, an \<^verbatim>\<open>Option\<close>, the primary key, a field with the attribute \<^verbatim>\<open>unique\<close>.\<close>

definition req_col :: "string \<Rightarrow> rust_type \<Rightarrow> column" where
  "req_col n t = \<lparr>col_name = n, col_type = t, col_nullable = False, col_primary = False, col_unique = False\<rparr>"

definition opt_col :: "string \<Rightarrow> rust_type \<Rightarrow> column" where
  "opt_col n t = (req_col n t)\<lparr>col_nullable := True\<rparr>"

definition key_col :: "string \<Rightarrow> rust_type \<Rightarrow> column" where
  "key_col n t = (req_col n t)\<lparr>col_primary := True\<rparr>"

definition uniq_col :: "string \<Rightarrow> rust_type \<Rightarrow> column" where
  "uniq_col n t = (req_col n t)\<lparr>col_unique := True\<rparr>"

record entity_def =
  ed_name :: string
  ed_columns :: "column list"
  ed_relations :: "string list"

text \<open>The values that the insertion of a witness sets.\<close>

datatype sql_value = VI64 i64 | VBool bool | VText string | VNull

definition opt_text :: "string option \<Rightarrow> sql_value" where
  "opt_text v = (case v of Some s \<Rightarrow> VText s | None \<Rightarrow> VNull)"

text \<open>A column that an insertion must set: neither the generated key nor one that may be null.\<close>

definition mandatory :: "column \<Rightarrow> bool" where
  "mandatory c \<longleftrightarrow> \<not> col_nullable c \<and> \<not> col_primary c"

definition sets_mandatory :: "entity_def \<Rightarrow> (string \<times> sql_value) list \<Rightarrow> bool" where
  "sets_mandatory ed vs \<longleftrightarrow> list_all (\<lambda>c. mandatory c \<longrightarrow> col_name c \<in> set (map fst vs)) (ed_columns ed)"

subsection \<open>Entities\<close>

text \<open>The entities of the module list of \<^verbatim>\<open>src/db/entity\<close>, in its order.\<close>

definition balance_entity :: entity_def where
  "balance_entity = \<lparr>ed_name = ''balance'', ed_columns =
     [key_col ''id'' RI64, uniq_col ''address'' RText, req_col ''balance'' RText, req_col ''updated_at'' RI64], ed_relations = []\<rparr>"

definition chat_message_entity :: entity_def where
  "chat_message_entity = \<lparr>ed_name = ''chat_message'', ed_columns =
     [key_col ''id'' RI64, req_col ''contact_address'' RText, req_col ''content'' RText, req_col ''is_sent'' RBoolean,
     req_col ''status'' RText, req_col ''timestamp'' RI64], ed_relations = []\<rparr>"

definition contact_entity :: entity_def where
  "contact_entity = \<lparr>ed_name = ''contact'', ed_columns =
     [key_col ''id'' RI64, req_col ''name'' RText, uniq_col ''address'' RText, req_col ''created_at'' RI64,
     req_col ''updated_at'' RI64], ed_relations = []\<rparr>"

definition encrypted_message_entity :: entity_def where
  "encrypted_message_entity = \<lparr>ed_name = ''encrypted_message'', ed_columns =
     [key_col ''id'' RI64, req_col ''msg_id'' RText, req_col ''from_address'' RText, req_col ''to_address'' RText,
     req_col ''encrypted_content'' RBlob, req_col ''nonce'' RBlob, req_col ''ephemeral_pk'' RBlob,
     req_col ''created_at'' RI64, req_col ''size_bytes'' RI64, req_col ''status'' RText,
     req_col ''deleted_by_sender'' RBoolean, req_col ''deleted_by_receiver'' RBoolean, req_col ''pre_hash'' RText,
     req_col ''hash'' RText], ed_relations = []\<rparr>"

definition epoch_entity :: entity_def where
  "epoch_entity = \<lparr>ed_name = ''epoch'', ed_columns =
     [key_col ''id'' RI64, req_col ''day'' RI64, req_col ''start_time'' RI64, opt_col ''end_time'' RI64,
     req_col ''tick_count'' RU8, req_col ''total_reward'' RText, req_col ''settled'' RBoolean, req_col ''pre_hash'' RText,
     req_col ''hash'' RText], ed_relations = []\<rparr>"

definition epoch_allocation_entity :: entity_def where
  "epoch_allocation_entity = \<lparr>ed_name = ''epoch_allocation'', ed_columns =
     [key_col ''id'' RI64, req_col ''epoch'' RI64, req_col ''round'' RI64, req_col ''address'' RText, req_col ''weight'' RText,
     req_col ''amount'' RText, req_col ''pre_hash'' RText, req_col ''hash'' RText, req_col ''created_at'' RI64], ed_relations = []\<rparr>"

definition epoch_reward_entity :: entity_def where
  "epoch_reward_entity = \<lparr>ed_name = ''epoch_reward'', ed_columns =
     [key_col ''id'' RI64, req_col ''epoch_id'' RI64, req_col ''address'' RText, req_col ''amount'' RText], ed_relations = []\<rparr>"

definition meta_entity :: entity_def where
  "meta_entity = \<lparr>ed_name = ''meta'', ed_columns =
     [key_col ''id'' RI64, uniq_col ''key'' RText, req_col ''value'' RText], ed_relations = []\<rparr>"

definition node_entity :: entity_def where
  "node_entity = \<lparr>ed_name = ''node'', ed_columns =
     [key_col ''id'' RI64, req_col ''ipv4'' RText, req_col ''ipv6'' RText, req_col ''max_bandwidth'' RU64,
     req_col ''actual_bandwidth'' RU64, req_col ''min_ping'' RU32, req_col ''online_seconds'' RI64,
     req_col ''trust_score'' RU32, req_col ''daily_online_rate'' RU8, req_col ''monthly_online_rate'' RU8,
     req_col ''yearly_online_rate'' RU8, req_col ''ip_changed'' RBoolean], ed_relations = []\<rparr>"

definition public_server_entity :: entity_def where
  "public_server_entity = \<lparr>ed_name = ''public_server'', ed_columns =
     [key_col ''id'' RI64, req_col ''address'' RText, req_col ''port'' RU16, opt_col ''historical_addresses'' RText,
     req_col ''protocol'' RText, req_col ''is_active'' RBoolean, req_col ''last_seen'' RI64, req_col ''created_at'' RI64], ed_relations = []\<rparr>"

definition tick_entity :: entity_def where
  "tick_entity = \<lparr>ed_name = ''tick'', ed_columns =
     [key_col ''id'' RI64, req_col ''epoch'' RI64, req_col ''tick_index'' RI64, req_col ''cycle'' RI64,
     req_col ''timestamp'' RI64, req_col ''status'' RText, req_col ''pre_hash'' RText, req_col ''hash'' RText,
     req_col ''tx_hash'' RText, opt_col ''snapshot'' RText], ed_relations = []\<rparr>"

definition transaction_entity :: entity_def where
  "transaction_entity = \<lparr>ed_name = ''transaction'', ed_columns =
     [key_col ''id'' RI64, req_col ''epoch'' RI64, req_col ''cycle'' RI64, req_col ''tx_type'' RText,
     req_col ''from_address'' RText, req_col ''to_address'' RText, req_col ''amount'' RText, req_col ''timestamp'' RI64,
     req_col ''pre_hash'' RText, req_col ''hash'' RText, req_col ''shard_key'' RText], ed_relations = []\<rparr>"

definition transaction_set_entity :: entity_def where
  "transaction_set_entity = \<lparr>ed_name = ''transaction_set'', ed_columns =
     [key_col ''id'' RI64, req_col ''epoch'' RI64, req_col ''cycle'' RI64, req_col ''set_type'' RText,
     req_col ''pre_hash'' RText, req_col ''hash'' RText, req_col ''tx_hashes'' RText, req_col ''tx_hash_count'' RU32,
     req_col ''total_amount'' RText, req_col ''shard_key'' RText, req_col ''packets'' RText, req_col ''packers'' RText], ed_relations = []\<rparr>"

definition witness_entity :: entity_def where
  "witness_entity = \<lparr>ed_name = ''witness'', ed_columns =
     [key_col ''id'' RI64, req_col ''node_id'' RI64, req_col ''address'' RText, req_col ''online_seconds'' RI64,
     req_col ''tick_count'' RU64, req_col ''weight'' RI64, req_col ''status'' RText, req_col ''last_tick_ts'' RI64,
     opt_col ''resources'' RText, req_col ''is_public_ip'' RBoolean], ed_relations = []\<rparr>"

definition witness_seed_entity :: entity_def where
  "witness_seed_entity = \<lparr>ed_name = ''witness_seed'', ed_columns =
     [key_col ''id'' RI64, req_col ''ip'' RText, req_col ''port'' RI32, req_col ''node_id'' RText, req_col ''added_at'' RI64,
     req_col ''last_seen'' RI64, req_col ''is_active'' RBoolean, req_col ''success_count'' RI32,
     req_col ''failure_count'' RI32, req_col ''online_days'' RI64, req_col ''offline_days'' RI64,
     req_col ''online_rate'' RF64, req_col ''is_connectable'' RBoolean, req_col ''inactive_days'' RI64,
     req_col ''is_intranet'' RBoolean, req_col ''metadata'' RText], ed_relations = []\<rparr>"

definition witness_tick_record_entity :: entity_def where
  "witness_tick_record_entity = \<lparr>ed_name = ''witness_tick_record'', ed_columns =
     [key_col ''id'' RI64, req_col ''epoch'' RI64, req_col ''address'' RText, req_col ''tick_count'' RU8,
     req_col ''updated_at'' RI64], ed_relations = []\<rparr>"


fun table_entity :: "db_table \<Rightarrow> entity_def" where
  "table_entity TBalance = balance_entity"
| "table_entity TChatMessage = chat_message_entity"
| "table_entity TContact = contact_entity"
| "table_entity TEncryptedMessage = encrypted_message_entity"
| "table_entity TEpoch = epoch_entity"
| "table_entity TEpochAllocation = epoch_allocation_entity"
| "table_entity TEpochReward = epoch_reward_entity"
| "table_entity TMeta = meta_entity"
| "table_entity TNode = node_entity"
| "table_entity TPublicServer = public_server_entity"
| "table_entity TTick = tick_entity"
| "table_entity TTransaction = transaction_entity"
| "table_entity TTransactionSet = transaction_set_entity"
| "table_entity TWitness = witness_entity"
| "table_entity TWitnessSeed = witness_seed_entity"
| "table_entity TWitnessTickRecord = witness_tick_record_entity"

text \<open>Entities of directories that the module list does not name.\<close>

definition market_resource_price_entity :: entity_def where
  "market_resource_price_entity = \<lparr>ed_name = ''market_resource_price'', ed_columns =
     [key_col ''id'' RI64, req_col ''resource_type'' RI16, req_col ''country'' RText, req_col ''city'' RText,
     req_col ''pricing_unit'' RI8, req_col ''unit'' RI8, req_col ''price_per_unit_per_month'' RU16,
     req_col ''local_avg_income'' RU16, req_col ''global_avg_price'' RU16, req_col ''global_avg_income'' RU16,
     req_col ''valid_from_epoch'' RI64, req_col ''valid_to_epoch'' RI64, req_col ''pre_hash'' RText, req_col ''hash'' RText], ed_relations = []\<rparr>"

definition tick_resource_snapshot_entity :: entity_def where
  "tick_resource_snapshot_entity = \<lparr>ed_name = ''tick_resource_snapshot'', ed_columns =
     [key_col ''id'' RI64, req_col ''node_id'' RText, req_col ''epoch'' RI64, req_col ''tick'' RI64,
     req_col ''market_resource_id'' RI64, req_col ''accumulated'' RI64, req_col ''verified'' RBoolean,
     req_col ''pre_hash'' RText, req_col ''hash'' RText], ed_relations = []\<rparr>"

definition tick_witness_check_entity :: entity_def where
  "tick_witness_check_entity = \<lparr>ed_name = ''tick_witness_check'', ed_columns =
     [key_col ''id'' RI64, req_col ''tick_id'' RI64, req_col ''witness_id'' RI64, req_col ''peer_witness_id'' RI64,
     req_col ''result'' RBoolean, req_col ''pre_hash'' RText, req_col ''hash'' RText], ed_relations = []\<rparr>"

definition epoch_resource_settlement_entity :: entity_def where
  "epoch_resource_settlement_entity = \<lparr>ed_name = ''epoch_resource_settlement'', ed_columns =
     [key_col ''id'' RI64, req_col ''node_id'' RText, req_col ''epoch'' RI64, req_col ''resources'' RText,
     req_col ''total_weight'' RU16, req_col ''reward'' RU64, req_col ''pre_hash'' RText, req_col ''hash'' RText], ed_relations = []\<rparr>"

definition global_price_model_entity :: entity_def where
  "global_price_model_entity = \<lparr>ed_name = ''global_price_model'', ed_columns =
     [key_col ''id'' RI64, req_col ''resource'' RI16, req_col ''url'' RText, req_col ''js_handler'' RText,
     req_col ''vendor'' RText, req_col ''country'' RText, opt_col ''city'' RText, req_col ''weight'' RI64,
     req_col ''global_valid'' RBoolean, req_col ''invalid'' RBoolean, req_col ''last_success_timestamp'' RI64,
     req_col ''consensus_count'' RI32, req_col ''check_number'' RI32, req_col ''check_success_number'' RI32,
     req_col ''created_at'' RI64, req_col ''updated_at'' RI64], ed_relations = []\<rparr>"

definition local_price_model_entity :: entity_def where
  "local_price_model_entity = \<lparr>ed_name = ''local_price_model'', ed_columns =
     [key_col ''id'' RI64, req_col ''resource'' RI16, req_col ''url'' RText, req_col ''js_handler'' RText,
     req_col ''vendor'' RText, req_col ''country'' RText, opt_col ''city'' RText, req_col ''last_success_timestamp'' RI64,
     req_col ''weight'' RI64, req_col ''valid'' RBoolean, req_col ''fail_count'' RI32, req_col ''created_at'' RI64,
     req_col ''updated_at'' RI64], ed_relations = []\<rparr>"


text \<open>The entities that four stores declare for themselves.\<close>

definition balance_store_entity :: entity_def where
  "balance_store_entity = \<lparr>ed_name = ''balance'', ed_columns =
     [key_col ''id'' RI64, uniq_col ''address'' RText, req_col ''balance'' RText, req_col ''updated_at'' RI64], ed_relations = []\<rparr>"

definition epoch_store_entity :: entity_def where
  "epoch_store_entity = \<lparr>ed_name = ''epoch'', ed_columns =
     [key_col ''id'' RI64, req_col ''day'' RI64, req_col ''start_time'' RI64, opt_col ''end_time'' RI64,
     req_col ''tick_count'' RU8, req_col ''total_reward'' RText, req_col ''settled'' RBoolean, req_col ''pre_hash'' RText,
     req_col ''hash'' RText], ed_relations = []\<rparr>"

definition witness_store_entity :: entity_def where
  "witness_store_entity = \<lparr>ed_name = ''witness'', ed_columns =
     [key_col ''id'' RI64, req_col ''node_id'' RI64, req_col ''address'' RText, req_col ''online_seconds'' RI64,
     req_col ''weight'' RI64, req_col ''status'' RText, req_col ''last_tick_ts'' RI64, opt_col ''resources'' RText,
     req_col ''is_public_ip'' RBoolean], ed_relations = []\<rparr>"

definition public_server_store_entity :: entity_def where
  "public_server_store_entity = \<lparr>ed_name = ''public_server'', ed_columns =
     [key_col ''id'' RI64, req_col ''address'' RText, req_col ''port'' RU16, opt_col ''historical_addresses'' RText,
     req_col ''protocol'' RText, req_col ''is_active'' RBoolean, req_col ''last_seen'' RI64, req_col ''created_at'' RI64], ed_relations = []\<rparr>"

subsection \<open>The insertion of a witness\<close>

text \<open>The values that the \<^verbatim>\<open>ActiveModel\<close> of a new witness sets; its id is never set.\<close>

definition witness_values :: "witness_row \<Rightarrow> (string \<times> sql_value) list" where
  "witness_values r =
     [(''node_id'', VI64 (wt_node_id r)), (''address'', VText (wt_address r)),
     (''online_seconds'', VI64 (wt_online_seconds r)), (''weight'', VI64 (wt_weight r)),
     (''status'', VText (wt_status r)), (''last_tick_ts'', VI64 (wt_last_tick_ts r)),
     (''resources'', opt_text (wt_resources r)), (''is_public_ip'', VBool (wt_is_public_ip r))]"

subsection \<open>Lemmas\<close>

lemmas column_simps = req_col_def opt_col_def key_col_def uniq_col_def

text \<open>The table of witnesses has a column \<^verbatim>\<open>tick_count\<close> that its store does not know.\<close>

lemma witness_incomplete: "\<not> sets_mandatory witness_entity (witness_values r)"
  by (simp add: column_simps sets_mandatory_def mandatory_def witness_entity_def witness_values_def)

text \<open>The entities that the stores of balances, epochs and public servers declare are those of the tables.\<close>

lemma store_entities_agree:
  "balance_store_entity = balance_entity" "epoch_store_entity = epoch_entity"
  "public_server_store_entity = public_server_entity" "witness_store_entity \<noteq> witness_entity"
  by (simp_all add: balance_store_entity_def balance_entity_def epoch_store_entity_def epoch_entity_def
      public_server_store_entity_def public_server_entity_def witness_store_entity_def witness_entity_def
      column_simps)

lemma table_names_distinct: "ed_name (table_entity s) = ed_name (table_entity t) \<Longrightarrow> s = t"
  by (cases s; cases t) (simp_all add: balance_entity_def chat_message_entity_def contact_entity_def
      encrypted_message_entity_def epoch_entity_def epoch_allocation_entity_def epoch_reward_entity_def
      meta_entity_def node_entity_def public_server_entity_def tick_entity_def transaction_entity_def
      transaction_set_entity_def witness_entity_def witness_seed_entity_def witness_tick_record_entity_def)

subsection \<open>Properties\<close>

text \<open>
  What is used of the database: a table that was created from an entity refuses an insertion
  that leaves out a column declared not null and without default.
\<close>

definition created_from ::
  "entity_def \<Rightarrow> ('r \<Rightarrow> (string \<times> sql_value) list) \<Rightarrow> ('t, 'r) table_ops \<Rightarrow> bool" where
  "created_from ed vals tb \<longleftrightarrow> (\<forall>r t. tb_insert tb r t \<noteq> None \<longrightarrow> sets_mandatory ed (vals r))"

text \<open>
  C39. Witnesses cannot be stored. In a table created from the entity of witnesses, recording a
  witness that is not there yet is an error of the database and changes nothing, so a table that
  starts empty never gets a row.
\<close>

theorem witness_store_refused:
  assumes "created_from (table_entity TWitness) witness_values tb"
    and "wi_address x \<notin> wt_address ` set (tb_rows tb t)"
  shows "witness_upsert tb now x t = (Inl DbErr, t)"
proof -
  have "tb_insert tb r t = None" for r t
    using assms(1) witness_incomplete [of r] unfolding created_from_def table_entity.simps by blast
  moreover have "find (\<lambda>r. wt_address r = wi_address x) (tb_rows tb t) = None"
    using assms(2) by (simp add: find_None_iff image_iff) metis
  ultimately show ?thesis
    by (simp add: witness_upsert_def witness_get_by_address_def db_bind_def db_one_def db_insert_def)
qed

text \<open>A table in memory that checks every insertion.\<close>

definition checked_witnesses :: "(witness_row list, witness_row) table_ops" where
  "checked_witnesses = \<lparr>tb_up = (\<lambda>_. True), tb_rows = id,
     tb_insert = (\<lambda>r t. if sets_mandatory witness_entity (witness_values r) then Some (r, t @ [r]) else None),
     tb_update = (\<lambda>_ t. Some t), tb_delete = (\<lambda>P t. Some (filter (\<lambda>r. \<not> P r) t)),
     tb_begin = Some, tb_commit = Some, tb_rollback = (\<lambda>_. True)\<rparr>"

lemma witness_store_refused_witness:
  "witness_upsert checked_witnesses 5 \<lparr>wi_node_id = 1, wi_address = ''w'', wi_online_seconds = 0, wi_weight = 1,
     wi_resources = None, wi_is_public_ip = True\<rparr> [] = (Inl DbErr, [])"
proof (rule witness_store_refused)
  show "created_from (table_entity TWitness) witness_values checked_witnesses"
    by (simp add: created_from_def checked_witnesses_def)
qed (simp add: checked_witnesses_def)

end
