(* ===== verification/Servers.thy ===== *)
theory Servers
  imports Console
begin

text \<open>
  Running a node: \<^verbatim>\<open>start\<close> of \<^verbatim>\<open>src/node.rs\<close>, which \<^verbatim>\<open>src/main.rs\<close> calls, and the routes that
  \<^verbatim>\<open>start_with_web\<close> registers. \<^verbatim>\<open>start\<close> runs the server of \<^verbatim>\<open>aex\<close> as a task of its own beside the
  session of the command line and aborts it when the session is over. The two share the context of
  the node and interleave, so the model is a step relation; a command of the session and a poll of
  the server are one step each, and what a poll does to the context is a parameter. Aborting takes
  effect when the current poll is over. The acceptance of connections in \<^verbatim>\<open>start_with_web\<close> is in
  \<open>Accept\<close>. Shown: whatever the server does, the session executes its commands in order and
  completely, the server is stopped when \<^verbatim>\<open>start\<close> returns, and \<^verbatim>\<open>start\<close> can always return.
\<close>

subsection \<open>Running a node with its command line\<close>

datatype start_phase = Begin | ServerSpawned | InSession | SessionOver | Returned

datatype server_task = NotStarted | Running | Aborting | Stopped

record ('p, 's) start_state =
  sr_phase :: start_phase
  sr_server :: server_task
  sr_lines :: "string option list"
  sr_console :: "('p, 's) console"

definition start_init :: "string option list \<Rightarrow> ('p, 's) console \<Rightarrow> ('p, 's) start_state" where
  "start_init ls st = \<lparr>sr_phase = Begin, sr_server = NotStarted, sr_lines = ls, sr_console = st\<rparr>"

datatype start_event =
    SpawnServer | Greet | Command string "string list" | SkipLine | Exit | EndOfInput | ReadError | AbortServer
  | Poll | ServerEnds | ServerDropped

inductive start_step ::
  "('p, 's) cli \<Rightarrow> ('p global_ctx \<Rightarrow> 'p global_ctx \<Rightarrow> bool) \<Rightarrow> ('p, 's) start_state \<Rightarrow> start_event \<Rightarrow>
   ('p, 's) start_state \<Rightarrow> bool"
  for cli serves where
  spawn: "sr_phase s = Begin \<Longrightarrow>
    start_step cli serves s SpawnServer (s\<lparr>sr_phase := ServerSpawned, sr_server := Running\<rparr>)"
| greet: "sr_phase s = ServerSpawned \<Longrightarrow>
    start_step cli serves s Greet (s\<lparr>sr_phase := InSession, sr_console :=
      say (''Type '' @ [CHR 0x27] @ ''help'' @ [CHR 0x27] @ '' for commands.'') (sr_console s)\<rparr>)"
| command: "sr_phase s = InSession \<Longrightarrow> sr_lines s = Some line # ls \<Longrightarrow> cli_words line = Some (c, args) \<Longrightarrow>
    c \<noteq> ''exit'' \<Longrightarrow>
    start_step cli serves s (Command c args) (s\<lparr>sr_lines := ls, sr_console := cli_dispatch cli c args (sr_console s)\<rparr>)"
| skip: "sr_phase s = InSession \<Longrightarrow> sr_lines s = Some line # ls \<Longrightarrow> cli_words line = None \<Longrightarrow>
    start_step cli serves s SkipLine (s\<lparr>sr_lines := ls\<rparr>)"
| exit: "sr_phase s = InSession \<Longrightarrow> sr_lines s = Some line # ls \<Longrightarrow> cli_words line = Some (''exit'', args) \<Longrightarrow>
    start_step cli serves s Exit
      (s\<lparr>sr_phase := SessionOver, sr_lines := ls, sr_console := say ''Exiting...'' (sr_console s)\<rparr>)"
| eof: "sr_phase s = InSession \<Longrightarrow> sr_lines s = [] \<Longrightarrow>
    start_step cli serves s EndOfInput (s\<lparr>sr_phase := SessionOver\<rparr>)"
| failed: "sr_phase s = InSession \<Longrightarrow> sr_lines s = None # ls \<Longrightarrow>
    start_step cli serves s ReadError (s\<lparr>sr_phase := SessionOver, sr_lines := ls\<rparr>)"
| abort: "sr_phase s = SessionOver \<Longrightarrow>
    start_step cli serves s AbortServer
      (s\<lparr>sr_phase := Returned, sr_server := (if sr_server s = Running then Aborting else sr_server s)\<rparr>)"
| poll: "sr_server s = Running \<or> sr_server s = Aborting \<Longrightarrow> serves (co_ctx (sr_console s)) g \<Longrightarrow>
    start_step cli serves s Poll
      (s\<lparr>sr_server := (if sr_server s = Running then Running else Stopped),
         sr_console := (sr_console s)\<lparr>co_ctx := g\<rparr>\<rparr>)"
| ends: "sr_server s = Running \<Longrightarrow> start_step cli serves s ServerEnds (s\<lparr>sr_server := Stopped\<rparr>)"
| dropped: "sr_server s = Aborting \<Longrightarrow> start_step cli serves s ServerDropped (s\<lparr>sr_server := Stopped\<rparr>)"

inductive start_run ::
  "('p, 's) cli \<Rightarrow> ('p global_ctx \<Rightarrow> 'p global_ctx \<Rightarrow> bool) \<Rightarrow> ('p, 's) start_state \<Rightarrow> start_event list \<Rightarrow>
   ('p, 's) start_state \<Rightarrow> bool"
  for cli serves s0 where
  none: "start_run cli serves s0 [] s0"
| snoc: "start_run cli serves s0 es s \<Longrightarrow> start_step cli serves s e s' \<Longrightarrow> start_run cli serves s0 (es @ [e]) s'"

inductive_cases start_stepE [elim!]: "start_step cli serves s e s'"

subsection \<open>Routes of the web server\<close>

text \<open>
  The routes in the order of their registration. Every executor but that of the web socket, which
  only reports that it is done, is the handler of the web interface.
\<close>

datatype http_method = GetOnly | AnyMethod

datatype executor = RunHandler | Acknowledge

record web_registration =
  wg_method :: http_method
  wg_pattern :: string
  wg_executor :: executor
  wg_websocket :: bool

definition web_routes :: "web_registration list" where
  "web_routes =
     [\<lparr>wg_method = GetOnly, wg_pattern = ''/'', wg_executor = RunHandler, wg_websocket = False\<rparr>,
      \<lparr>wg_method = GetOnly, wg_pattern = ''/api/data'', wg_executor = RunHandler, wg_websocket = False\<rparr>,
      \<lparr>wg_method = AnyMethod, wg_pattern = ''/*'', wg_executor = RunHandler, wg_websocket = False\<rparr>,
      \<lparr>wg_method = GetOnly, wg_pattern = ''/ws'', wg_executor = Acknowledge, wg_websocket = True\<rparr>]"

fun run_executor :: "('c \<Rightarrow> bool \<times> 'c) \<Rightarrow> executor \<Rightarrow> 'c \<Rightarrow> bool \<times> 'c" where
  "run_executor web_handler RunHandler ctx = web_handler ctx"
| "run_executor web_handler Acknowledge ctx = (True, ctx)"

subsection \<open>Lemmas\<close>

text \<open>The commands that are left, and those that were executed.\<close>

definition session_commands :: "string list \<Rightarrow> (string \<times> string list) list" where
  "session_commands ls = takeWhile (\<lambda>c. fst c \<noteq> ''exit'') (List.map_filter cli_words ls)"

fun executed :: "start_event \<Rightarrow> (string \<times> string list) option" where
  "executed (Command c args) = Some (c, args)"
| "executed _ = None"

abbreviation commands_of :: "start_event list \<Rightarrow> (string \<times> string list) list" where
  "commands_of es \<equiv> List.map_filter executed es"

lemma commands_of_snoc: "commands_of (es @ [e]) = commands_of es @ (case executed e of Some c \<Rightarrow> [c] | None \<Rightarrow> [])"
  by (simp add: map_filter_def split: option.split)

definition polls_after_return :: "start_event list \<Rightarrow> nat" where
  "polls_after_return es = length (filter ((=) Poll) (dropWhile ((\<noteq>) AbortServer) es))"

lemma polls_after_return_snoc:
  "polls_after_return (es @ [e]) = (if AbortServer \<in> set es \<and> e = Poll then Suc (polls_after_return es) else polls_after_return es)"
proof (cases "AbortServer \<in> set es")
  case True
  then show ?thesis by (auto simp: polls_after_return_def dropWhile_append)
next
  case False
  then have all: "\<forall>x \<in> set es. AbortServer \<noteq> x" by auto
  have "polls_after_return es = 0" unfolding polls_after_return_def dropWhile_eq_Nil_conv [THEN iffD2, OF all] by simp
  moreover have "dropWhile ((\<noteq>) AbortServer) (es @ [e]) = dropWhile ((\<noteq>) AbortServer) [e]"
    using all by (intro dropWhile_append2) simp
  ultimately show ?thesis using False by (simp add: polls_after_return_def)
qed

text \<open>The invariant of a run: what was executed and what is left, and how far the server is.\<close>

definition start_inv :: "string list \<Rightarrow> start_event list \<Rightarrow> ('p, 's) start_state \<Rightarrow> bool" where
  "start_inv ls es s \<longleftrightarrow>
     (case sr_phase s of
        SessionOver \<Rightarrow> commands_of es = session_commands ls
      | Returned \<Rightarrow> commands_of es = session_commands ls
      | _ \<Rightarrow> (\<exists>ks. sr_lines s = map Some ks \<and> commands_of es @ session_commands ks = session_commands ls)) \<and>
     (sr_server s = NotStarted \<longleftrightarrow> sr_phase s = Begin) \<and> (sr_server s = Aborting \<longrightarrow> sr_phase s = Returned) \<and>
     (sr_phase s = Returned \<longrightarrow> sr_server s \<noteq> Running) \<and> (sr_phase s = Returned \<longleftrightarrow> AbortServer \<in> set es) \<and>
     polls_after_return es \<le> 1 \<and> (sr_server s = Aborting \<longrightarrow> polls_after_return es = 0) \<and>
     (sr_phase s \<noteq> Returned \<longrightarrow> polls_after_return es = 0)"

lemma session_commands_Nil [simp]: "session_commands [] = []"
  by (simp add: session_commands_def map_filter_simps)

lemma session_commands_Cons:
  "session_commands (l # ls) =
     (case cli_words l of None \<Rightarrow> session_commands ls
      | Some (c, args) \<Rightarrow> if c = ''exit'' then [] else (c, args) # session_commands ls)"
  by (simp add: session_commands_def map_filter_simps split: option.split prod.split)

lemma start_inv_step:
  assumes "start_inv ls es s" "start_step cli serves s e s'"
  shows "start_inv ls (es @ [e]) s'"
  using assms(2,1)
proof cases
qed (auto simp: start_inv_def commands_of_snoc polls_after_return_snoc session_commands_Cons Cons_eq_map_conv
    split: start_phase.splits if_splits)

lemma start_inv_run: "start_run cli serves (start_init (map Some ls) st) es s \<Longrightarrow> start_inv ls es s"
proof (induction rule: start_run.induct)
  case none
  show ?case by (auto simp: start_inv_def start_init_def map_filter_simps polls_after_return_def)
next
  case (snoc es s e s')
  show ?case by (rule start_inv_step [OF snoc.IH snoc.hyps(2)])
qed

text \<open>A session that nothing interferes with comes to its end.\<close>

lemma session_ends:
  assumes "start_run cli serves s0 es s" "sr_phase s = InSession"
  shows "\<exists>es' s'. start_run cli serves s0 (es @ es') s' \<and> sr_phase s' = SessionOver \<and> Poll \<notin> set es'"
  using assms
proof (induction "sr_lines s" arbitrary: es s)
  case Nil
  then show ?case using start_run.snoc [OF Nil(2) start_step.eof] by (intro exI [of _ "[EndOfInput]"]) auto
next
  case (Cons l ls)
  have continue: ?case
    if onward: "start_step cli serves s e s'" "sr_lines s' = ls" "sr_phase s' = InSession" "e \<noteq> Poll" for e s'
  proof -
    obtain es' s'' where "start_run cli serves s0 ((es @ [e]) @ es') s''" "sr_phase s'' = SessionOver" "Poll \<notin> set es'"
      using Cons.hyps(1) [OF onward(2) [symmetric] start_run.snoc [OF Cons.prems(1) onward(1)] onward(3)] by blast
    then show ?thesis using onward(4) by (intro exI [of _ "e # es'"]) auto
  qed
  have finish: ?case if "start_step cli serves s e s'" "sr_phase s' = SessionOver" "e \<noteq> Poll" for e s'
    using start_run.snoc [OF Cons.prems(1) that(1)] that(2,3) by (intro exI [of _ "[e]"]) auto
  note lines = Cons.hyps(2) [symmetric]
  show ?case
  proof (cases l)
    case None
    then show ?thesis using finish [OF start_step.failed [OF Cons.prems(2)]] lines by simp
  next
    case (Some line)
    note lines = lines [unfolded Some]
    show ?thesis
    proof (cases "cli_words line")
      case None
      then show ?thesis using continue [OF start_step.skip [OF Cons.prems(2) lines]] Cons.prems(2) by simp
    next
      case (Some w)
      obtain c args where w: "w = (c, args)" by (cases w)
      show ?thesis
      proof (cases "c = ''exit''")
        case True
        then show ?thesis using finish [OF start_step.exit [OF Cons.prems(2) lines]] Some w by simp
      next
        case False
        then show ?thesis
          using continue [OF start_step.command [OF Cons.prems(2) lines]] Some w Cons.prems(2) by simp
      qed
    qed
  qed
qed

text \<open>From any state the session can be completed and the return reached without a poll.\<close>

lemma can_return:
  assumes "start_run cli serves (start_init ls st) es s"
  shows "\<exists>es' s'. start_run cli serves (start_init ls st) (es @ es') s' \<and> sr_phase s' = Returned \<and> Poll \<notin> set es'"
proof -
  let ?run = "start_run cli serves (start_init ls st)"
  have over: "\<exists>es' s'. ?run (es @ es') s' \<and> sr_phase s' = Returned \<and> Poll \<notin> set es'"
    if "?run (es @ fs) t" "sr_phase t = SessionOver" "Poll \<notin> set fs" for fs t
    using start_run.snoc [OF that(1) start_step.abort [OF that(2)]] that(3) by (intro exI [of _ "fs @ [AbortServer]"]) auto
  have session: "\<exists>es' s'. ?run (es @ es') s' \<and> sr_phase s' = Returned \<and> Poll \<notin> set es'"
    if at: "?run (es @ fs) t" "sr_phase t = InSession" "Poll \<notin> set fs" for fs t
  proof -
    obtain gs u where "?run ((es @ fs) @ gs) u" "sr_phase u = SessionOver" "Poll \<notin> set gs"
      using session_ends [OF at(1,2)] by blast
    then show ?thesis using over [of "fs @ gs" u] at(3) by simp
  qed
  have spawned: "\<exists>es' s'. ?run (es @ es') s' \<and> sr_phase s' = Returned \<and> Poll \<notin> set es'"
    if "?run (es @ fs) t" "sr_phase t = ServerSpawned" "Poll \<notin> set fs" for fs t
    using session [OF start_run.snoc [OF that(1) start_step.greet [OF that(2)], unfolded append_assoc]] that(3) by simp
  show ?thesis
  proof (cases "sr_phase s")
    case Begin
    then show ?thesis
      using spawned [OF start_run.snoc [OF assms start_step.spawn [OF Begin]]] by simp
  next
    case Returned
    then show ?thesis using assms by (intro exI [of _ "[]"]) auto
  qed (use spawned [of "[]" s] session [of "[]" s] over [of "[]" s] assms in simp_all)
qed

subsection \<open>Properties\<close>

text \<open>
  C20. A node with a command line. However the server and the session interleave and whatever the server
  does to the context, when \<^verbatim>\<open>start\<close> has returned the session has executed exactly its commands up
  to the first \<^verbatim>\<open>exit\<close>, in order, the server is not running, and since the return it was polled at
  most once.
\<close>

theorem start_session_complete:
  assumes "start_run cli serves (start_init (map Some ls) st) es s" "sr_phase s = Returned"
  shows "commands_of es = session_commands ls \<and> sr_server s \<in> {Aborting, Stopped} \<and> polls_after_return es \<le> 1"
  using start_inv_run [OF assms(1)] assms(2) by (cases "sr_server s") (auto simp: start_inv_def)

text \<open>
  \<^verbatim>\<open>start\<close> can always return: from every state that is reached, whatever lines were read so far and
  also when a line cannot be read, the steps of the session alone lead to the return.
\<close>

theorem start_returns:
  assumes "start_run cli serves (start_init ls st) es s"
  shows "\<exists>es' s'. start_run cli serves (start_init ls st) (es @ es') s' \<and> sr_phase s' = Returned \<and> Poll \<notin> set es'"
  using assms by (rule can_return)

text \<open>Four lines, the last behind \<^verbatim>\<open>exit\<close>, with an empty table of commands.\<close>

lemma start_session_complete_witness:
  "\<exists>es s. start_run [] (=) (start_init (map Some ['' help'', [], ''exit'', ''id'']) demo_console) es s \<and>
     commands_of es = [(''help'', [])] \<and> sr_server s \<noteq> Running"
proof -
  obtain es s where "start_run [] (=) (start_init (map Some ['' help'', [], ''exit'', ''id'']) demo_console) ([] @ es) s"
    "sr_phase s = Returned"
    using can_return [OF start_run.none, of "[]" "(=)" "map Some ['' help'', [], ''exit'', ''id'']" demo_console] by blast
  moreover have "session_commands ['' help'', [], ''exit'', ''id''] = [(''help'', [])]" by code_simp
  ultimately show ?thesis
    using start_session_complete [of "[]" "(=)" "['' help'', [], ''exit'', ''id'']" demo_console es s]
    by (intro exI [of _ es] exI [of _ s]) auto
qed

lemma start_returns_witness:
  "\<exists>es s. start_run [] (=) (start_init [Some ''exit''] demo_console) ([] @ es) s \<and> sr_phase s = Returned \<and> Poll \<notin> set es"
  by (rule start_returns [OF start_run.none])

end
