(* ===== verification/Spec2Isabelle.thy ===== *)
theory Spec2Isabelle
  imports SeedSync Ring Message DataSync Balance Chain MetaStore Epochs Directory Inbox UserStore Console
    WebPages Accept Resources Network Tables Servers
begin

text \<open>
  Verification of \<^verbatim>\<open>zz-rust-mod-p2p\<close>, a peer-to-peer node with a ledger, chat and a web
  interface. Paths below are relative to the repository.

  \<^bold>\<open>The program.\<close> A node keeps a registry of the nodes it knows and their sockets
  (\<^verbatim>\<open>node_registry.rs\<close>). Peers exchange signed frames (\<^verbatim>\<open>frame.rs\<close>) that carry commands, and a
  table of handlers selects the code for a command (\<^verbatim>\<open>command.rs\<close>, \<^verbatim>\<open>registry.rs\<close>). The
  commands introduce nodes to each other and gossip sockets (\<^verbatim>\<open>online.rs\<close>, \<^verbatim>\<open>ack.rs\<close>,
  \<^verbatim>\<open>offline.rs\<close>), bring registries together (\<^verbatim>\<open>seed_sync.rs\<close>), run the witness ring and its
  rewards (\<^verbatim>\<open>tick.rs\<close>), deliver messages with receipts (\<^verbatim>\<open>message.rs\<close>) and exchange ledger
  data (\<^verbatim>\<open>node_sync.rs\<close>, \<^verbatim>\<open>witness_validate.rs\<close>). Balances, chained ledger tables, epochs,
  contacts and messages live in a database (\<^verbatim>\<open>src/db\<close>), chat histories and profiles in files
  (\<^verbatim>\<open>user_store.rs\<close>), identity and peer records in typed files (\<^verbatim>\<open>io_storage.rs\<close>, \<^verbatim>\<open>record.rs\<close>).
  \<^verbatim>\<open>node.rs\<close> ties them together; \<^verbatim>\<open>cli.rs\<close> with \<^verbatim>\<open>clis\<close> and \<^verbatim>\<open>web\<close> are its two user
  interfaces. Handlers communicate through the typed slots of a shared context.

  \<^bold>\<open>Modelling.\<close> A handler is a function on the state it shares, returning the new state and
  the list of its effects (frames written, tasks spawned, events published) in order. Every
  early return, error and panic is a branch: errors are values of a sum type, a panic is the
  absence of a result. Machine integers are words where they can wrap, strings are lists of
  bytes. Hash maps are association lists, so nothing depends on their order unless it is
  stated. Readings of the clock, nonces and random identities are arguments.

  \<^bold>\<open>Theories.\<close>
  \<^item> \<open>Prelude\<close>, \<open>Text\<close>, \<open>Net\<close>: words, rendering and parsing of numbers, UTF-8 text, socket
    addresses as \<^verbatim>\<open>std::net\<close> prints and parses them; \<open>Context\<close>: the slots of the global context,
    codecs and signatures.
  \<^item> \<open>NodeReg\<close>, \<open>Command\<close>, \<open>Frame\<close>: registry, routing, frames and notifications. The registry
    stays well formed under every operation, a connection slot is given out once, a frame that
    was signed verifies and opens to what was sent, and the handler of a command is the one
    registered for it. Interfaces: \<open>seed_book\<close> for what handlers expect of the registry,
    \<open>tcp_router\<close> for the handler table.
  \<^item> \<open>Seeds\<close>, \<open>SeedSync\<close>, \<open>Handshake\<close>: sealed seed lists (\<open>sealed_set\<close>), synchronisation,
    handshake and gossip. One exchange makes two registries agree, the cycle of
    synchronisation ends, the number of gossip messages that are passed on is bounded by the
    names they can teach, two nodes never dial each other because of handshakes and gossip, and
    the acknowledgement of a handshake verifies and reaches the session that asked for it.
  \<^item> \<open>Network\<close>: any number of nodes that synchronise over frames which may be lost, delayed,
    reordered or duplicated. The network refines an abstract spreading of rumours, so no seed is
    lost or made up, and two rounds with a hub make all nodes agree.
  \<^item> \<open>Ring\<close>, \<open>Message\<close>, \<open>DataSync\<close>: ticks and rewards, messages with receipts and the
    duplicate filter, data exchanges. Rewards are divided exactly and paid only on agreement,
    a message arrives as it was sent, duplicates are dropped, a receipt confirms once.
  \<^item> \<open>Store\<close>: tables, statements and transactions as the stores use them, with three
    contracts: \<open>upsert_store\<close>, \<open>kv_store\<close> (which gives the former) and \<open>chained_log\<close>. \<open>Schema\<close>
    creates the tables, \<open>Tables\<close> has their columns; the insertions of the witness store leave out
    a mandatory one.
  \<^item> \<open>Balance\<close>, \<open>Chain\<close>, \<open>MetaStore\<close>, \<open>Epochs\<close>, \<open>Directory\<close>, \<open>Inbox\<close>, \<open>Resources\<close>: the stores,
    each an interpretation of one of the contracts. A transfer implements a transfer between
    accounts of an abstract ledger, the rows of a chained table link back to the genesis hash
    whatever insertions are tried, the genesis is applied once, epochs follow each other, ticks
    are counted exactly, weights of resources keep their bounds.
  \<^item> \<open>Files\<close>, \<open>UserStore\<close>, \<open>PeerBook\<close>, \<open>NodeState\<close>: paths and what is expected of a file
    system, which a tree of directories meets; files of users, records of peers, the life of a
    node. Histories of contacts with plain names are complete and in order, profiles survive a restart, records count every
    contact, a stopped node finds its records again, and a node has one identity.
  \<^item> \<open>Accept\<close>, \<open>Servers\<close>: accepting a connection, and running a node with its server beside the
    session of the command line, each as a step relation with every interleaving: no frame is
    handled before the connection is registered, the session is executed completely and the
    server is stopped with it.
  \<^item> \<open>Console\<close>, \<open>WebData\<close>, \<open>WebChat\<close>, \<open>HostIps\<close>, \<open>Float64\<close>, \<open>Detect\<close>, \<open>WebPages\<close>: the command
    line and the web interface: what a session executes, what each request may change, what
    sending a chat message does, that the pages show the ledger, the connections and the
    witnesses as they are, and what they show of the host, with floating point numbers as exact
    IEEE 754 values.

  The last section of this theory follows a chat message through \<open>WebChat\<close>, \<open>Frame\<close>, \<open>Message\<close>
  and \<open>UserStore\<close>: from the request of its sender to its receiver, and with the receipt back into
  the history of the sender.

  \<^bold>\<open>Parameters.\<close> The \<^verbatim>\<open>aex\<close> library (connections, storage, session keys), signatures and
  hashes, the encoders (bincode, JSON, base64), the database behind \<^verbatim>\<open>sea_orm\<close>, the file
  system, the clock, dates, the HTML renderer and the callbacks of the application are
  arguments. What a theorem needs of them is a hypothesis that states their documented
  behaviour: decoding inverts encoding, a signature verifies under its key, what was written to
  a file is read back and what lies elsewhere is left alone, a database returns the rows it holds. Witnesses instantiate them with
  concrete functions.

  \<^bold>\<open>Bounds.\<close> No function of the model has fuel. Loops that the code bounds by a constant (the
  rounds of synchronisation) recurse on that bound, all others on their input; the search for
  groups in an IPv6 address and the split of text into code points have termination proofs.

  \<^bold>\<open>Not modelled.\<close> Rendering a page from its data, which \<^verbatim>\<open>askama\<close> does from template files, and
  the servers and route matching of \<^verbatim>\<open>aex\<close>, which are parameters; the settlement of resources,
  whose only function does not compile; constants without use, lists of modules and tests. The
  order in which spawned tasks run is fixed per handler, except in \<open>Accept\<close>, \<open>Servers\<close> and
  \<open>Network\<close>; a command of the console is one step.
\<close>

section \<open>A chat message from its sender to its receiver and back\<close>

text \<open>
  A node \<open>A\<close> that is connected to a node \<open>B\<close> and to nobody else, with encoders that know the
  frames of one message and of its receipt.
\<close>

definition flow_chat :: "string \<Rightarrow> chat_message" where
  "flow_chat st = \<lparr>ch_id = 1, ch_contact_address = ''B'', ch_content = ''hi'', ch_is_sent = True, ch_status = st,
     ch_timestamp = 7\<rparr>"

definition flow_users :: "tree user_env" where
  "flow_users = \<lparr>ue_fs = tree_fs,
     ue_chat = pair_codec [([flow_chat ''sent''], [91, 49]), ([flow_chat ''delivered''], [91, 50])],
     ue_profile = pair_codec []\<rparr>"

definition flow_ack_frame :: p2p_frame where
  "flow_ack_frame = \<lparr>fr_body = frame_body_new 1 ''B'' [1] 6 1 [19], fr_signature = [1, 13]\<rparr>"

definition flow_msg :: "nat msg_env" where
  "flow_msg =
     \<lparr>fe_body = pair_codec [(fr_body demo_msg_frame, [3]), (fr_body flow_ack_frame, [13])],
      fe_cmd = pair_codec [(p2p_command_new EMessage SendText [8], [9]), (p2p_command_new EMessage MessageAck [18], [19])],
      fe_frame = pair_codec [(demo_msg_frame, [4]), (flow_ack_frame, [14])], fe_msg = pair_codec [(demo_msg, [8])],
      fe_crypto = demo_crypto, me_ack = pair_codec [(\<lparr>ma_request_id = 1\<rparr>, [18])], me_sha256 = (\<lambda>_. []),
      me_psk = demo_psk\<rparr>"

definition flow_env :: "(nat, tree, contact_row list, balance_row list, tx_row list) web_env" where
  "flow_env = demo_web_env\<lparr>we_users := flow_users, we_msg := flow_msg,
     we_json := (\<lambda>_. Some (JObj [(''to'', JStr ''B''), (''message'', JStr ''hi'')]))\<rparr>"

definition flow_web :: "(nat, tree, contact_row list, balance_row list, tx_row list) web" where
  "flow_web = demo_web\<lparr>wb_ctx := demo_hs_ctx\<lparr>g_connections :=
     [((V4 (Ipv4 10 0 0 3), Intranet), \<lparr>bc_clients = [(c_addr demo_peer, \<lparr>ce_addr = c_addr demo_peer, ce_node = None,
        ce_context = Some demo_peer\<rparr>)], bc_servers = []\<rparr>)]\<rparr>\<rparr>"

definition flow_sent :: "(nat, tree, contact_row list, balance_row list, tx_row list) web" where
  "flow_sent = snd (handle_send_chat flow_env 7 (\<lambda>_. (2, 5)) ''A'' demo_post flow_web)"

subsection \<open>From the request to the receipt\<close>

text \<open>C6. A chat message that the web interface of one node sends and whose frame another node receives
  is handed to the application there with its sender and its content, and the receiver spawns the
  receipt. When the frame of the receipt arrives, the request waiting for it is confirmed; the
  history of the sender then holds the earlier messages (those read from it before, where its path
  has no component \<^verbatim>\<open>..\<close>) and this one, marked as delivered, and the request is no longer
  pending.\<close>

theorem chat_end_to_end:
  assumes env: "user_env_ok (we_users we)" "frame_env_ok (we_msg we)"
      "codec_ok (fe_msg (we_msg we))" "codec_ok (me_ack (we_msg we))"
    and a: "g_address (wb_ctx w) = Some a" "keypair (fe_crypto (we_msg we)) a" "g_psk (wb_ctx w) = Some pa"
    and b: "g_address gb = Some b" "keypair (fe_crypto (we_msg we)) b" "g_psk gb = Some pb"
      "acc_string a \<noteq> acc_string b"
    and to_b: "\<And>d ct. psk_encrypt (me_psk (we_msg we)) pa (as_bytes (acc_string b)) d = Some ct \<Longrightarrow>
        psk_decrypt (me_psk (we_msg we)) pb (as_bytes (acc_string a)) ct = Some d"
    and to_a: "\<And>d ct. psk_encrypt (me_psk (we_msg we)) pb (as_bytes (acc_string a)) d = Some ct \<Longrightarrow>
        psk_decrypt (me_psk (we_msg we)) pa (as_bytes (acc_string b)) ct = Some d"
    and req: "str_field ''to'' (request_json we rq) = acc_string b" "acc_string b \<noteq> []"
      "str_field ''message'' (request_json we rq) = content" "content \<noteq> []"
      "preview content \<noteq> None"
    and stored: "add_message (we_users we) now (acc_string b) content True ''sent'' (wb_users w) = (Inr m, u)"
    and sent: "handle_send_chat we now fresh (acc_string a) rq w = (r, w1)"
      "(sock, bs) \<in> set (wb_written w1) - set (wb_written w)"
    and at_b: "verify_bytes (we_msg we) bs = Some f" "command_from_data (we_msg we) (fr_body f) = Some cmd"
      "ms_channel sb" "ms_seen sb = Some S"
      "\<And>k. dedup_key (me_sha256 (we_msg we)) (acc_string a) (acc_string b) content (fst (fresh k)) \<notin> S"
    and receipt: "send_message_ack (we_msg we) nonce (wb_counter w) c gb = Inr (Some bs')"
      "c_peer c = Some (acc_string a)"
      "verify_bytes (we_msg we) bs' = Some f'" "command_from_data (we_msg we) (fr_body f') = Some cmd'"
    and at_a: "wb_pending w = Some P" "ms_pending sa = wb_pending w1" "ms_seen sa = Some Sa"
      "''ack:'' @ show_nat (unat (wb_counter w)) \<notin> Sa"
    and confirm: "update_last_sent_status (we_users we) (acc_string b) ''delivered'' (wb_users w1) = (Inr (), u')"
  shows "(\<exists>ts. Deliver \<lparr>im_from = acc_string a, im_content = content, im_timestamp = ts\<rparr> \<in>
        set (snd (message_handler (we_msg we) f cmd gb sb))) \<and>
    set (ack_spawn (acc_string a) (wb_counter w) gb) \<subseteq> set (snd (message_handler (we_msg we) f cmd gb sb)) \<and>
    snd (message_ack_handler (we_msg we) nonces f' cmd' (wb_ctx w1) sa) = [Confirm (wb_counter w)] \<and>
    (\<exists>ms w2. (path_plain (chat_path (us_base_path (wb_users w)) (acc_string b)) \<longrightarrow>
        read_messages_raw (we_users we) (acc_string b) (wb_users w) = Inr ms) \<and>
      await_receipt we millis (wb_counter w) (acc_string b) content (Some True) w1 = Some w2 \<and>
      read_messages_raw (we_users we) (acc_string b) (wb_users w2) = Inr (ms @ [m\<lparr>ch_status := ''delivered''\<rparr>]) \<and>
      wb_pending w2 = Some (P - {wb_counter w}))"
proof -
  obtain w3 where same: "wb_ctx w3 = wb_ctx w" "wb_users w3 = u" "wb_written w3 = wb_written w"
    "wb_pending w3 = map_option (insert (wb_counter w)) (wb_pending w)"
    and run: "handle_send_chat we now fresh (acc_string a) rq w =
      (case transmit_chat we fresh (acc_string a) (acc_string b) (wb_counter w) content (wb_ctx w) of
         None \<Rightarrow> (Some (failure send_failed),
           w3\<lparr>wb_pending := map_option (\<lambda>s. s - {wb_counter w}) (wb_pending w3)\<rparr>)
       | Some written \<Rightarrow> (Some (success [(''message'', JStr ''Message sent'')]),
           w3\<lparr>wb_written := wb_written w3 @ written\<rparr>))"
    by (rule send_chat_run [OF req(2,4,1,3) stored disjI2 [OF req(5)]])
  obtain written where t: "transmit_chat we fresh (acc_string a) (acc_string b) (wb_counter w) content (wb_ctx w) = Some written"
    and w1: "w1 = w3\<lparr>wb_written := wb_written w3 @ written\<rparr>"
    using sent same(3) by (cases "transmit_chat we fresh (acc_string a) (acc_string b) (wb_counter w) content (wb_ctx w)")
      (auto simp: run)
  have "(sock, bs) \<in> set written" using sent(2) by (auto simp: w1 same(3))
  from transmit_chat_attempt [OF t this] obtain k cn where
    send: "send_text_message (we_msg we) (fst (fresh k)) (snd (fresh k)) (acc_string a) (acc_string b) (wb_counter w) cn
      content (wb_ctx w) = Inr (Some bs)" by blast
  let ?m = "\<lparr>m_sender = acc_string a, m_receiver = acc_string b, m_request_id = wb_counter w,
    m_timestamp = fst (fresh k), m_message = content\<rparr>"
  have "read_message (we_msg we) gb f cmd = Some ?m"
    using sent_message_read [OF env(2,3) a b(3) to_b send at_b(1,2)] by blast
  then have delivered: "snd (message_handler (we_msg we) f cmd gb sb) =
      ack_spawn (acc_string a) (wb_counter w) gb @ deliver ?m sb"
    using b(1,4) at_b(4) at_b(5) [of k] by (simp add: message_handler_read message_key_def note_seen_def Let_def)
  have ctx: "wb_ctx w1 = wb_ctx w" and pend: "ms_pending sa = Some (insert (wb_counter w) P)"
    using at_a(1,2) by (simp_all add: w1 same)
  have psk: "g_psk (wb_ctx w1) = Some pa" using a(3) by (simp add: ctx)
  have confirmed: "snd (message_ack_handler (we_msg we) nonces f' cmd' (wb_ctx w1) sa) = [Confirm (wb_counter w)]"
    using sent_receipt_confirms [OF env(2,4) b(1-3) psk receipt(2) to_a receipt(1,3,4) pend _ at_a(3,4), of nonces]
    by (metis insertI1 snd_conv)
  obtain ms where ms: "path_plain (chat_path (us_base_path (wb_users w)) (acc_string b)) \<longrightarrow>
      read_messages_raw (we_users we) (acc_string b) (wb_users w) = Inr ms"
    "read_messages_raw (we_users we) (acc_string b) u = Inr (ms @ [m])" "ch_is_sent m"
    using add_message_effect [OF env(1) stored] by (metis chat_message.select_convs(4))
  have "read_messages_raw (we_users we) (acc_string b) u' = Inr (ms @ [m\<lparr>ch_status := ''delivered''\<rparr>])"
    using confirm_effect [OF env(1) confirm, of ms m] ms by (simp add: w1 same)
  moreover obtain w2 where "await_receipt we millis (wb_counter w) (acc_string b) content (Some True) w1 = Some w2"
    "wb_users w2 = u'" "wb_pending w2 = Some (P - {wb_counter w})"
    using await_receipt_confirmed [OF confirm req(5), of millis "wb_counter w"] at_a(1) by (auto simp: w1 same)
  ultimately show ?thesis using delivered confirmed ms(1) at_b(3) by (auto simp: deliver_def)
qed

subsection \<open>One exchange\<close>

lemma flow_users_ok: "user_env_ok flow_users"
proof -
  have "enc (ue_chat flow_users) ms = Some b \<longrightarrow> utf8_valid b \<and> \<not> blank b" for ms b
    by (auto simp: flow_users_def pair_codec_def utf8_valid_def split: if_splits)
  then show ?thesis by (simp add: user_env_ok_def tree_fs_ok) (simp add: flow_users_def tree_fs_ok codec_ok_pairs)
qed

lemma flow_env_simps:
  "we_users flow_env = flow_users" "we_msg flow_env = flow_msg" "we_node_name flow_env = (\<lambda>_. [])"
  "we_find_entry flow_env = (\<lambda>_ _. None)"
  "str_field ''to'' (request_json flow_env demo_post) = ''B''"
  "str_field ''message'' (request_json flow_env demo_post) = ''hi''"
  by (simp_all add: flow_env_def demo_web_env_def request_json_def str_field_def json_get_def)

lemma flow_stored:
  "\<exists>u. add_message flow_users 7 ''B'' ''hi'' True ''sent'' (user_store_new ''d'' []) = (Inr (flow_chat ''sent''), u)"
  by (simp add: flow_users_def flow_chat_def demo_store_simps)

lemma flow_frames:
  "verify_bytes flow_msg [4] = Some demo_msg_frame"
  "command_from_data flow_msg (fr_body demo_msg_frame) = Some (p2p_command_new EMessage SendText [8])"
  "verify_bytes flow_msg [14] = Some flow_ack_frame"
  "command_from_data flow_msg (fr_body flow_ack_frame) = Some (p2p_command_new EMessage MessageAck [18])"
  by (simp_all add: verify_bytes_def frame_verify_def signature_valid_def command_from_data_def flow_msg_def
      pair_codec_def demo_msg_frame_def flow_ack_frame_def frame_body_new_def demo_crypto_def p2p_command_new_def)

lemma flow_sends:
  "send_text_message flow_msg 2 5 ''A'' ''B'' 1 demo_peer ''hi'' (wb_ctx flow_web) = Inr (Some [4])"
  "send_message_ack flow_msg 6 1 (demo_peer\<lparr>c_peer := Some ''A''\<rparr>) demo_receiver = Inr (Some [14])"
  by (simp_all add: send_text_message_def send_message_ack_def frame_send_def flow_web_def demo_receiver_def
      demo_hs_ctx_def demo_msg_def [symmetric] flow_msg_def pair_codec_def frame_build_def frame_sign_def
      demo_me_def demo_msg_frame_def flow_ack_frame_def frame_body_new_def demo_crypto_def demo_peer_def demo_psk_def
      p2p_command_new_def)

lemma flow_transmit:
  "transmit_chat flow_env (\<lambda>_. (2, 5)) ''A'' ''B'' (wb_counter flow_web) ''hi'' (wb_ctx flow_web) =
     Some [(c_addr demo_peer, [4])]"
proof -
  have t: "chat_targets ''B'' (wb_ctx flow_web) = []"
    by (simp add: chat_targets_def flow_web_def demo_hs_ctx_def nr_get_seeds_for_node_def nr_new_def)
  have es: "forward_entries (\<lambda>_. []) ''B'' [] (conn_entries (g_connections (wb_ctx flow_web))) =
    [\<lparr>ce_addr = c_addr demo_peer, ce_node = None, ce_context = Some demo_peer\<rparr>]"
    by (simp add: forward_entries_def conn_entries_def flow_web_def)
  have c: "wb_counter flow_web = 1" by (simp add: flow_web_def demo_web_def)
  show ?thesis
    by (simp add: transmit_chat_def Let_def t flow_env_simps es forward_chat_def map_filter_simps chat_attempt_def
        c flow_sends(1))
qed

lemma flow_sent_state:
  "\<exists>r. handle_send_chat flow_env 7 (\<lambda>_. (2, 5)) ''A'' demo_post flow_web = (r, flow_sent)"
  "wb_written flow_sent = [(c_addr demo_peer, [4])]" "wb_pending flow_sent = Some {1}"
  "wb_users flow_sent = snd (add_message flow_users 7 ''B'' ''hi'' True ''sent'' (user_store_new ''d'' []))"
proof -
  obtain u where u: "add_message (we_users flow_env) 7 ''B'' ''hi'' True ''sent'' (wb_users flow_web) =
      (Inr (flow_chat ''sent''), u)"
    using flow_stored by (auto simp: flow_env_simps flow_web_def demo_web_def)
  have p: "wb_events flow_web = None \<or> preview ''hi'' \<noteq> None" by (simp add: preview_def)
  show "\<exists>r. handle_send_chat flow_env 7 (\<lambda>_. (2, 5)) ''A'' demo_post flow_web = (r, flow_sent)"
    by (simp add: flow_sent_def) (metis prod.collapse)
  obtain w3 where w3: "wb_users w3 = u" "wb_written w3 = wb_written flow_web"
    "wb_pending w3 = map_option (insert (wb_counter flow_web)) (wb_pending flow_web)"
    and run: "handle_send_chat flow_env 7 (\<lambda>_. (2, 5)) ''A'' demo_post flow_web =
      (case transmit_chat flow_env (\<lambda>_. (2, 5)) ''A'' ''B'' (wb_counter flow_web) ''hi'' (wb_ctx flow_web) of
         None \<Rightarrow> (Some (failure send_failed),
           w3\<lparr>wb_pending := map_option (\<lambda>s. s - {wb_counter flow_web}) (wb_pending w3)\<rparr>)
       | Some written \<Rightarrow> (Some (success [(''message'', JStr ''Message sent'')]),
           w3\<lparr>wb_written := wb_written w3 @ written\<rparr>))"
    using send_chat_run [OF _ _ flow_env_simps(5,6) u p, of "\<lambda>_. (2, 5)" "''A''"] by blast
  have s: "flow_sent = w3\<lparr>wb_written := wb_written w3 @ [(c_addr demo_peer, [4])]\<rparr>"
    by (simp add: flow_sent_def run flow_transmit)
  show "wb_written flow_sent = [(c_addr demo_peer, [4])]" "wb_pending flow_sent = Some {1}"
    by (simp_all add: s w3 flow_web_def demo_web_def)
  show "wb_users flow_sent = snd (add_message flow_users 7 ''B'' ''hi'' True ''sent'' (user_store_new ''d'' []))"
    using u by (simp add: s w3(1) flow_env_simps flow_web_def demo_web_def)
qed

lemma flow_msg_ok: "frame_env_ok flow_msg" "codec_ok (fe_msg flow_msg)" "codec_ok (me_ack flow_msg)"
  by (simp_all add: flow_msg_def frame_env_ok_def codec_ok_pairs)

lemma flow_confirmed:
  "\<exists>u. update_last_sent_status flow_users ''B'' ''delivered'' (wb_users flow_sent) = (Inr (), u)"
  unfolding flow_sent_state(4)
  by (simp add: flow_users_def flow_chat_def update_last_sent_status_def demo_store_simps)

lemma chat_end_to_end_witness:
  "(\<exists>ts. Deliver \<lparr>im_from = ''A'', im_content = ''hi'', im_timestamp = ts\<rparr> \<in>
     set (snd (message_handler flow_msg demo_msg_frame (p2p_command_new EMessage SendText [8]) demo_receiver
       (demo_msg_slots {})))) \<and>
   (\<exists>w2. await_receipt flow_env 9 1 ''B'' ''hi'' (Some True) flow_sent = Some w2 \<and>
     read_messages_raw flow_users ''B'' (wb_users w2) = Inr [flow_chat ''delivered''])"
proof -
  let ?b = "demo_me\<lparr>acc_string := ''B''\<rparr>" and ?sa = "\<lparr>ms_seen = Some {}, ms_pending = Some {1}, ms_channel = True\<rparr>"
  have ab: "acc_string demo_me = ''A''" by (simp add: demo_me_def)
  have key: "keypair (fe_crypto (we_msg flow_env)) demo_me" "keypair (fe_crypto (we_msg flow_env)) ?b"
    by (simp_all add: flow_env_simps flow_msg_def keypair_def demo_crypto_def demo_me_def)
  have ga: "g_address (wb_ctx flow_web) = Some demo_me" "g_psk (wb_ctx flow_web) = Some 0"
    and gb: "g_address demo_receiver = Some ?b" "g_psk demo_receiver = Some 0"
    by (simp_all add: flow_web_def demo_hs_ctx_def demo_receiver_def)
  have psk: "psk_encrypt (me_psk (we_msg flow_env)) 0 (as_bytes (acc_string ?b)) d = Some ct \<Longrightarrow>
      psk_decrypt (me_psk (we_msg flow_env)) 0 (as_bytes (acc_string demo_me)) ct = Some d"
    "psk_encrypt (me_psk (we_msg flow_env)) 0 (as_bytes (acc_string demo_me)) d = Some ct \<Longrightarrow>
      psk_decrypt (me_psk (we_msg flow_env)) 0 (as_bytes (acc_string ?b)) ct = Some d" for d ct
    by (simp_all add: flow_env_simps flow_msg_def demo_psk_def)
  obtain u where stored: "add_message (we_users flow_env) 7 (acc_string ?b) ''hi'' True ''sent'' (wb_users flow_web) =
      (Inr (flow_chat ''sent''), u)"
    using flow_stored by (auto simp: flow_env_simps flow_web_def demo_web_def)
  obtain r where sent: "handle_send_chat flow_env 7 (\<lambda>_. (2, 5)) (acc_string demo_me) demo_post flow_web = (r, flow_sent)"
    using flow_sent_state(1) by (auto simp: ab)
  have new: "(c_addr demo_peer, [4]) \<in> set (wb_written flow_sent) - set (wb_written flow_web)"
    by (simp add: flow_sent_state(2)) (simp add: flow_web_def demo_web_def)
  have c: "wb_counter flow_web = 1" "wb_pending flow_web = Some {}" by (simp_all add: flow_web_def demo_web_def)
  obtain u' where confirm: "update_last_sent_status (we_users flow_env) (acc_string ?b) ''delivered'' (wb_users flow_sent) =
      (Inr (), u')"
    using flow_confirmed by (auto simp: flow_env_simps)
  have empty: "read_messages_raw flow_users ''B'' (wb_users flow_web) = Inr []"
    by (simp add: flow_web_def demo_web_def flow_users_def demo_store_simps)
  have plain: "path_plain (chat_path (us_base_path (wb_users flow_web)) ''B'')"
    by (simp add: flow_web_def demo_web_def demo_store_simps path_plain_def)
  have preview: "preview ''hi'' \<noteq> None" by (simp add: preview_def)
  from chat_end_to_end [OF _ _ _ _ ga(1) key(1) ga(2) gb(1) key(2) gb(2) _ psk(1) psk(2) _ _ _ _ preview stored sent
      new, where S = "{}" and Sa = "{}" and sb = "demo_msg_slots {}" and sa = ?sa and f = demo_msg_frame
      and cmd = "p2p_command_new EMessage SendText [8]" and nonce = 6 and c = "demo_peer\<lparr>c_peer := Some ''A''\<rparr>"
      and bs' = "[14]" and f' = flow_ack_frame and cmd' = "p2p_command_new EMessage MessageAck [18]" and P = "{}"
      and u' = u' and millis = 9]
  show ?thesis
    using flow_users_ok flow_msg_ok flow_frames flow_sends(2) flow_sent_state(3) confirm empty plain
    by (simp add: flow_env_simps ab c demo_msg_slots_def flow_chat_def) blast
qed

end
